(* ===== verification/C_Prelude.thy ===== *)
theory C_Prelude
  imports Main "HOL-Library.Word"
begin

text \<open>
  What the models of the C programs share: how a C computation can stop, the sequencing of
  computations that may stop, the decimal and \<open>strtol\<close> conventions of the C library that the
  programs rely on, \<open>strncpy\<close> into a fixed array, and the collections of rules the
  component theories add to.
\<close>

named_theorems res_simps \<open>evaluation of computations that may stop\<close>
named_theorems cstr_simps \<open>evaluation of C string routines\<close>

section \<open>How a C computation stops\<close>

text \<open>
  \<open>AssertFail\<close> is a failed \<open>assert()\<close>, \<open>Exit n\<close> is \<open>exit(n)\<close>, \<open>Abort\<close> is
  \<open>abort()\<close>, and \<open>Undefined\<close> is undefined behaviour (a null or dangling pointer
  read, a double free).  A computation that returns is \<open>Inr\<close> of its result.
\<close>

datatype stop = AssertFail | Exit int | Abort | Undefined

type_synonym 'a res = "stop + 'a"

definition rbind :: "'a res \<Rightarrow> ('a \<Rightarrow> 'b res) \<Rightarrow> 'b res" where
  "rbind m f = (case m of Inl e \<Rightarrow> Inl e | Inr x \<Rightarrow> f x)"

lemma rbind_Inl [simp, res_simps]: "rbind (Inl e) f = Inl e"
  by (simp add: rbind_def)

lemma rbind_Inr [simp, res_simps]: "rbind (Inr x) f = f x"
  by (simp add: rbind_def)

lemma rbind_eq_Inr: "rbind m f = Inr y \<longleftrightarrow> (\<exists>x. m = Inr x \<and> f x = Inr y)"
  by (cases m) simp_all

lemma rbind_eq_Inl:
  "rbind m f = Inl e \<longleftrightarrow> m = Inl e \<or> (\<exists>x. m = Inr x \<and> f x = Inl e)"
  by (cases m) auto

text \<open>\<open>deref\<close> reads through a pointer: a null or unallocated address is undefined.\<close>

definition deref :: "('p \<Rightarrow> 'a option) \<Rightarrow> 'p \<Rightarrow> 'a res" where
  "deref h p = (case h p of None \<Rightarrow> Inl Undefined | Some x \<Rightarrow> Inr x)"

lemma deref_Some [simp, res_simps]: "h p = Some x \<Longrightarrow> deref h p = Inr x"
  by (simp add: deref_def)

lemma deref_None [simp, res_simps]: "h p = None \<Longrightarrow> deref h p = Inl Undefined"
  by (simp add: deref_def)

lemma deref_eq_Inr: "deref h p = Inr x \<longleftrightarrow> h p = Some x"
  by (cases "h p") simp_all

definition check :: "bool \<Rightarrow> stop \<Rightarrow> 'a res \<Rightarrow> 'a res" where
  "check c e k = (if c then k else Inl e)"

lemma check_True [simp, res_simps]: "check True e k = k"
  by (simp add: check_def)

lemma check_False [simp, res_simps]: "check False e k = Inl e"
  by (simp add: check_def)

lemma check_eq_Inr: "check c e k = Inr y \<longleftrightarrow> c \<and> k = Inr y"
  by (simp add: check_def)

lemmas res_iffs = rbind_eq_Inr rbind_eq_Inl deref_eq_Inr check_eq_Inr

section \<open>Characters and decimal output\<close>

abbreviation NUL :: char where
  "NUL \<equiv> CHR 0x00"

abbreviation NL :: char where
  "NL \<equiv> CHR 0x0A"

text \<open>The value of a digit in bases up to 36, as \<open>strtol\<close> reads it.\<close>

definition digit_val :: "char \<Rightarrow> nat option" where
  "digit_val c =
     (let n = (of_char c :: nat) in
      if 48 \<le> n \<and> n \<le> 57 then Some (n - 48)
      else if 97 \<le> n \<and> n \<le> 122 then Some (n - 87)
      else if 65 \<le> n \<and> n \<le> 90 then Some (n - 55)
      else None)"

definition is_digit :: "nat \<Rightarrow> char \<Rightarrow> bool" where
  "is_digit base c = (case digit_val c of None \<Rightarrow> False | Some d \<Rightarrow> d < base)"

definition digit_char :: "nat \<Rightarrow> char" where
  "digit_char d = (if d < 10 then char_of (48 + d) else char_of (87 + d))"

text \<open>\<open>printf("%d")\<close> for base ten and \<open>printf("%lx")\<close> for base sixteen.\<close>

fun show_base :: "nat \<Rightarrow> nat \<Rightarrow> string" where
  "show_base b n =
     (if b < 2 \<or> n < b then [digit_char n] else show_base b (n div b) @ [digit_char (n mod b)])"

declare show_base.simps [simp del]

definition show_int :: "int \<Rightarrow> string" where
  "show_int i = (if i < 0 then ''-'' @ show_base 10 (nat (- i)) else show_base 10 (nat i))"

lemma digit_val_digit_char: "d < 36 \<Longrightarrow> digit_val (digit_char d) = Some d"
  by (simp add: digit_val_def digit_char_def Let_def)

lemma is_digit_digit_char: "d < b \<Longrightarrow> b \<le> 36 \<Longrightarrow> is_digit b (digit_char d)"
  by (simp add: is_digit_def digit_val_digit_char)

section \<open>strtol\<close>

text \<open>
  \<open>strtol(s, &end, base)\<close>: skip white space, an optional sign, for base sixteen an optional
  \<open>0x\<close> that a hexadecimal digit follows, then the longest run of digits.  Without a digit the
  value is 0 and \<open>end\<close> is \<open>s\<close> itself.  A value outside \<open>long\<close> is clamped and
  \<open>errno\<close> becomes \<open>ERANGE\<close>.  The end pointer is modelled as the rest of the string, so
  \<open>*end != 0\<close> is \<open>rest \<noteq> []\<close>.
\<close>

definition LONG_MAX :: int where
  "LONG_MAX = 9223372036854775807"

definition LONG_MIN :: int where
  "LONG_MIN = - 9223372036854775808"

definition is_space :: "char \<Rightarrow> bool" where
  "is_space c = (let n = (of_char c :: nat) in n = 32 \<or> (9 \<le> n \<and> n \<le> 13))"

definition digits_value :: "nat \<Rightarrow> string \<Rightarrow> nat" where
  "digits_value base s = foldl (\<lambda>a c. a * base + the (digit_val c)) 0 s"

definition skip_0x :: "nat \<Rightarrow> string \<Rightarrow> string" where
  "skip_0x base s =
     (case s of
        a # b # c # r \<Rightarrow>
          if base = 16 \<and> a = CHR ''0'' \<and> (b = CHR ''x'' \<or> b = CHR ''X'') \<and> is_digit 16 c
          then c # r else s
      | _ \<Rightarrow> s)"

record strtol_result =
  st_value :: int
  st_rest :: string
  st_erange :: bool

definition strtol :: "string \<Rightarrow> nat \<Rightarrow> strtol_result" where
  "strtol s base =
     (let t = dropWhile is_space s;
          neg = (t \<noteq> [] \<and> hd t = CHR ''-'');
          u = (if t \<noteq> [] \<and> (hd t = CHR ''-'' \<or> hd t = CHR ''+'') then tl t else t);
          v = skip_0x base u;
          ds = takeWhile (is_digit base) v;
          n = (if neg then - int (digits_value base ds) else int (digits_value base ds))
      in if ds = [] then \<lparr>st_value = 0, st_rest = s, st_erange = False\<rparr>
         else \<lparr>st_value = max LONG_MIN (min LONG_MAX n),
               st_rest = dropWhile (is_digit base) v,
               st_erange = (n < LONG_MIN \<or> LONG_MAX < n)\<rparr>)"

text \<open>\<open>atoi(s)\<close> is \<open>(int) strtol(s, NULL, 10)\<close>: the low 32 bits, read as signed.\<close>

definition atoi :: "string \<Rightarrow> 32 word" where
  "atoi s = word_of_int (st_value (strtol s 10))"

lemma digits_value_append:
  "digits_value b (s @ [c]) = digits_value b s * b + the (digit_val c)"
  by (simp add: digits_value_def)

lemma show_base_nonempty [simp]: "show_base b n \<noteq> []"
  by (subst show_base.simps) simp

text \<open>How long a number is when it is printed.\<close>

lemma length_show_base: "n < 10 ^ k \<Longrightarrow> 0 < k \<Longrightarrow> length (show_base 10 n) \<le> k"
proof (induction k arbitrary: n)
  case (Suc k)
  show ?case
  proof (cases "n < 10")
    case True
    then show ?thesis by (subst show_base.simps) simp
  next
    case False
    then have "0 < k" using Suc.prems(1) by (cases k) simp_all
    moreover have "n div 10 < 10 ^ k" using Suc.prems(1) by (simp add: less_mult_imp_div_less mult.commute)
    ultimately have "length (show_base 10 (n div 10)) \<le> k" by (intro Suc.IH)
    then show ?thesis using False by (subst show_base.simps) simp
  qed
qed simp

lemma length_show_int: "\<bar>i\<bar> < 10 ^ k \<Longrightarrow> 0 < k \<Longrightarrow> length (show_int i) \<le> Suc k"
  using length_show_base [of "nat \<bar>i\<bar>" k] by (auto simp: show_int_def nat_less_iff)

lemma show_base_digits:
  "2 \<le> b \<Longrightarrow> b \<le> 36 \<Longrightarrow> list_all (is_digit b) (show_base b n)"
proof (induction b n rule: show_base.induct)
  case (1 b n)
  have "n mod b < b" using 1 by simp
  with 1 show ?case
    by (subst show_base.simps) (auto simp: is_digit_digit_char)
qed

lemma digits_value_show_base:
  "2 \<le> b \<Longrightarrow> b \<le> 36 \<Longrightarrow> digits_value b (show_base b n) = n"
proof (induction b n rule: show_base.induct)
  case (1 b n)
  have "n mod b < b" using 1 by simp
  then have m: "n mod b < 36" using 1 by linarith
  show ?case
  proof (cases "n < b")
    case True
    with 1 show ?thesis
      by (subst show_base.simps) (simp add: digits_value_def digit_val_digit_char)
  next
    case False
    with 1 have "digits_value b (show_base b (n div b)) = n div b" by simp
    with m False 1 show ?thesis
      by (subst show_base.simps) (simp add: digits_value_append digit_val_digit_char)
  qed
qed

text \<open>A digit is neither white space nor a sign, so a printed number is read back whole.\<close>

lemma digit_not_space_sign:
  "is_digit b c \<Longrightarrow> \<not> is_space c \<and> c \<noteq> CHR ''-'' \<and> c \<noteq> CHR ''+''"
  by (auto simp: is_digit_def digit_val_def is_space_def Let_def split: if_splits)

lemma digits_takeWhile: "list_all (is_digit b) s \<Longrightarrow> takeWhile (is_digit b) s = s"
  by (simp add: list_all_iff)

lemma digits_dropWhile: "list_all (is_digit b) s \<Longrightarrow> dropWhile (is_digit b) s = []"
  by (simp add: list_all_iff)

lemma x_not_hex: "\<not> is_digit 16 CHR ''x''" "\<not> is_digit 16 CHR ''X''"
  by (simp_all add: is_digit_def digit_val_def)

lemma skip_0x_digits: "list_all (is_digit b) s \<Longrightarrow> skip_0x b s = s"
  using x_not_hex by (auto simp: skip_0x_def split: list.splits)

lemma strtol_digits:
  assumes "list_all (is_digit b) s" and "s \<noteq> []"
  shows "strtol s b = \<lparr>st_value = min LONG_MAX (int (digits_value b s)), st_rest = [],
           st_erange = (LONG_MAX < int (digits_value b s))\<rparr>"
proof -
  have "is_digit b (hd s)" using assms by (cases s) auto
  then have h: "\<not> is_space (hd s)" "hd s \<noteq> CHR ''-''" "hd s \<noteq> CHR ''+''"
    by (auto dest: digit_not_space_sign)
  then have "dropWhile is_space s = s" using assms(2) by (cases s) auto
  with h assms show ?thesis
    by (simp add: strtol_def Let_def skip_0x_digits digits_takeWhile digits_dropWhile
        LONG_MIN_def LONG_MAX_def)
qed

lemma strtol_minus_digits:
  assumes "list_all (is_digit b) s" and "s \<noteq> []"
  shows "strtol (CHR ''-'' # s) b =
           \<lparr>st_value = max LONG_MIN (- int (digits_value b s)), st_rest = [],
            st_erange = (- int (digits_value b s) < LONG_MIN)\<rparr>"
  using assms
  by (simp add: strtol_def Let_def skip_0x_digits digits_takeWhile digits_dropWhile
      is_space_def LONG_MIN_def LONG_MAX_def)

lemma strtol_show_int:
  assumes "LONG_MIN \<le> i" and "i \<le> LONG_MAX"
  shows "strtol (show_int i) 10 = \<lparr>st_value = i, st_rest = [], st_erange = False\<rparr>"
  using assms
  by (auto simp: show_int_def strtol_digits strtol_minus_digits show_base_digits
      digits_value_show_base)

section \<open>strncpy into a fixed array\<close>

text \<open>
  \<open>strncpy(dst, s, n)\<close> fills exactly \<open>n\<close> bytes: the string, then zeros; a string of
  \<open>n\<close> or more characters leaves no terminator.
\<close>

definition strncpy :: "nat \<Rightarrow> string \<Rightarrow> string" where
  "strncpy n s = take n (s @ replicate n NUL)"

lemma length_strncpy [simp]: "length (strncpy n s) = n"
  by (simp add: strncpy_def)

lemma strncpy_terminated:
  "NUL \<notin> set s \<Longrightarrow> NUL \<in> set (strncpy n s) \<longleftrightarrow> length s < n"
  by (auto simp: strncpy_def dest: in_set_takeD)

text \<open>
  \<open>snprintf(dst, n, ...)\<close> writes at most \<open>n - 1\<close> characters and the terminator; its return
  value is the length of the whole output.
\<close>

definition snprintf :: "nat \<Rightarrow> string \<Rightarrow> string \<times> nat" where
  "snprintf n out = (take (n - 1) out, length out)"

end
