(* ===== verification/Fifo.thy ===== *)
theory Fifo
  imports C_Prelude
begin

text \<open>
  The contract of a first-in first-out queue over C memory: which list a state holds
  (\<open>content\<close>), which items may be enqueued (\<open>ready\<close>), what enqueueing and
  dequeueing do.  The pending-query queue of \<open>async_sample.c\<close> interprets it.
\<close>

fun enq_all :: "('i \<Rightarrow> 's \<Rightarrow> 's res) \<Rightarrow> 'i list \<Rightarrow> 's \<Rightarrow> 's res" where
  "enq_all enq [] s = Inr s"
| "enq_all enq (x # xs) s = rbind (enq x s) (enq_all enq xs)"

fun deq_n :: "('s \<Rightarrow> ('i \<times> 's) res) \<Rightarrow> nat \<Rightarrow> 's \<Rightarrow> ('i list \<times> 's) res" where
  "deq_n deq 0 s = Inr ([], s)"
| "deq_n deq (Suc n) s =
     rbind (deq s) (\<lambda>(x, s'). rbind (deq_n deq n s') (\<lambda>(xs, t). Inr (x # xs, t)))"

locale fifo_queue =
  fixes content :: "'s \<Rightarrow> 'i list \<Rightarrow> bool"
    and ready :: "'s \<Rightarrow> 'i \<Rightarrow> bool"
    and enq :: "'i \<Rightarrow> 's \<Rightarrow> 's res"
    and deq :: "'s \<Rightarrow> ('i \<times> 's) res"
  assumes enq_law: "content s xs \<Longrightarrow> ready s x \<Longrightarrow> x \<notin> set xs \<Longrightarrow>
      \<exists>s'. enq x s = Inr s' \<and> content s' (xs @ [x]) \<and>
           (\<forall>y. y \<notin> set (xs @ [x]) \<longrightarrow> ready s y \<longrightarrow> ready s' y)"
    and deq_law: "content s (x # xs) \<Longrightarrow> \<exists>s'. deq s = Inr (x, s') \<and> content s' xs"
    and deq_empty_law: "content s [] \<Longrightarrow> deq s = Inl AssertFail"
begin

lemma enq_all_content:
  "content s xs \<Longrightarrow> distinct ys \<Longrightarrow> set xs \<inter> set ys = {} \<Longrightarrow> list_all (ready s) ys \<Longrightarrow>
   \<exists>s'. enq_all enq ys s = Inr s' \<and> content s' (xs @ ys)"
proof (induction ys arbitrary: s xs)
  case Nil
  then show ?case by simp
next
  case (Cons y ys)
  from Cons.prems obtain s1 where s1: "enq y s = Inr s1" "content s1 (xs @ [y])"
    "\<forall>z. z \<notin> set (xs @ [y]) \<longrightarrow> ready s z \<longrightarrow> ready s1 z"
    using enq_law [of s xs y] by auto
  from Cons.prems s1(3) have "list_all (ready s1) ys"
    by (auto simp: list_all_iff)
  with Cons.prems s1(2) obtain s2 where "enq_all enq ys s1 = Inr s2" "content s2 ((xs @ [y]) @ ys)"
    using Cons.IH [of s1 "xs @ [y]"] by auto
  with s1(1) show ?case by simp
qed

lemma deq_n_content:
  "content s (xs @ ys) \<Longrightarrow> \<exists>s'. deq_n deq (length xs) s = Inr (xs, s') \<and> content s' ys"
proof (induction xs arbitrary: s)
  case Nil
  then show ?case by simp
next
  case (Cons x xs)
  from Cons.prems obtain s1 where s1: "deq s = Inr (x, s1)" "content s1 (xs @ ys)"
    using deq_law [of s x "xs @ ys"] by auto
  from Cons.IH [OF s1(2)] s1(1) show ?case by auto
qed

text \<open>What is enqueued on an empty queue comes out in the same order, and then no more.\<close>

lemma first_in_first_out:
  assumes "content s []" and "distinct ys" and "list_all (ready s) ys"
  shows "\<exists>s1 s2. enq_all enq ys s = Inr s1 \<and> deq_n deq (length ys) s1 = Inr (ys, s2) \<and>
           content s2 [] \<and> deq s2 = Inl AssertFail"
proof -
  from enq_all_content [OF assms(1,2) _ assms(3)] obtain s1 where
    s1: "enq_all enq ys s = Inr s1" "content s1 (ys @ [])" by auto
  from deq_n_content [OF s1(2)] s1(1) deq_empty_law show ?thesis by blast
qed

end

end
