(* ===== verification/Async_Queue_Laws.thy ===== *)
theory Async_Queue_Laws
  imports Async_Queue
begin

text \<open>
  What the queue operations of \<open>Async_Queue\<close> do to the list a queue holds: the abstraction
  \<open>queue_of\<close>, the interpretation of the queue contract, the effect of popping each kind of item,
  and when the clean-up loop ends.
\<close>

section \<open>The list a queue holds\<close>

primrec chain :: "(addr \<Rightarrow> queue_item option) \<Rightarrow> addr option \<Rightarrow> addr list \<Rightarrow> bool" where
  "chain h p [] = (p = None)"
| "chain h p (a # as) =
     (p = Some a \<and> (case h a of None \<Rightarrow> False | Some it \<Rightarrow> chain h (item_next it) as))"

definition queue_of :: "'c qstate \<Rightarrow> addr list \<Rightarrow> bool" where
  "queue_of st xs \<longleftrightarrow>
     chain (items (fst st)) (queue_head (snd st)) xs \<and>
     queue_tail (snd st) = (if xs = [] then None else Some (last xs))"

text \<open>An item can be enqueued when it is allocated and its next pointer is null.\<close>

definition ready :: "'c qstate \<Rightarrow> addr \<Rightarrow> bool" where
  "ready st a = (case items (fst st) a of None \<Rightarrow> False | Some it \<Rightarrow> item_next it = None)"

text \<open>The list depends on the next pointers of its members only.\<close>

lemma chain_cong_next:
  "(\<And>a. a \<in> set xs \<Longrightarrow> map_option item_next (h a) = map_option item_next (h' a)) \<Longrightarrow>
   chain h p xs = chain h' p xs"
proof (induction xs arbitrary: p)
  case Nil
  then show ?case by simp
next
  case (Cons x xs)
  have "map_option item_next (h x) = map_option item_next (h' x)" using Cons.prems by simp
  with Cons.IH Cons.prems show ?case
    by (cases "h x"; cases "h' x") simp_all
qed

lemma chain_cong: "(\<And>a. a \<in> set xs \<Longrightarrow> h a = h' a) \<Longrightarrow> chain h p xs = chain h' p xs"
  by (rule chain_cong_next) simp

lemma chain_upd_other [simp]: "a \<notin> set xs \<Longrightarrow> chain (h(a := v)) p xs = chain h p xs"
  by (rule chain_cong) auto

lemma chain_upd_same_next:
  "map_option item_next v = map_option item_next (h a) \<Longrightarrow>
   chain (h(a := v)) p xs = chain h p xs"
  by (rule chain_cong_next) simp

lemma chain_allocated: "chain h p xs \<Longrightarrow> a \<in> set xs \<Longrightarrow> \<exists>it. h a = Some it"
  by (induction xs arbitrary: p) (auto split: option.splits)

lemma chain_unique: "chain h p xs \<Longrightarrow> chain h p ys \<Longrightarrow> xs = ys"
proof (induction xs arbitrary: p ys)
  case Nil
  then show ?case by (cases ys) auto
next
  case (Cons x xs)
  then show ?case by (cases ys) (auto split: option.splits)
qed

lemma chain_suffix:
  "chain h p (xs @ a # ys) \<Longrightarrow> \<exists>it. h a = Some it \<and> chain h (item_next it) ys"
  by (induction xs arbitrary: p) (auto split: option.splits)

lemma chain_distinct: "chain h p xs \<Longrightarrow> distinct xs"
proof (induction xs arbitrary: p)
  case Nil
  then show ?case by simp
next
  case (Cons a xs)
  then obtain it where it: "h a = Some it" "chain h (item_next it) xs"
    by (auto split: option.splits)
  have "a \<notin> set xs"
  proof
    assume "a \<in> set xs"
    then obtain ys zs where "xs = ys @ a # zs" by (auto dest: split_list)
    with chain_suffix [of h "item_next it" ys a zs] it have "chain h (item_next it) zs" by auto
    with it(2) have "xs = zs" by (rule chain_unique)
    with \<open>xs = ys @ a # zs\<close> show False by simp
  qed
  with Cons.IH it(2) show ?case by simp
qed

lemma chain_last_next:
  "chain h p xs \<Longrightarrow> xs \<noteq> [] \<Longrightarrow> \<exists>it. h (last xs) = Some it \<and> item_next it = None"
proof (induction xs rule: rev_induct)
  case Nil
  then show ?case by simp
next
  case (snoc a xs)
  then show ?case using chain_suffix [of h p xs a "[]"] by auto
qed

lemma chain_snoc:
  assumes "chain h p xs" and "xs \<noteq> []" and "x \<notin> set xs"
    and "h x = Some it" and "item_next it = None"
  shows "chain (h(last xs := map_option (item_next_update (\<lambda>_. Some x)) (h (last xs)))) p (xs @ [x])"
  using assms
proof (induction xs arbitrary: p)
  case Nil
  then show ?case by simp
next
  case (Cons a xs)
  from Cons.prems obtain ia where ia: "h a = Some ia" "chain h (item_next ia) xs" "p = Some a"
    by (auto split: option.splits)
  from Cons.prems(1) have "a \<notin> set xs" using chain_distinct by fastforce
  then show ?case
  proof (cases "xs = []")
    case True
    with Cons.prems ia show ?thesis by auto
  next
    case False
    with Cons.IH [OF ia(2) False] Cons.prems ia \<open>a \<notin> set xs\<close> show ?thesis
      by (auto split: option.splits)
  qed
qed

section \<open>Push and unlink implement the queue contract\<close>

lemma fill_item_next [simp]:
  "item_next (fill_item c1 c2 c3 p cmt it) = item_next it"
  by (simp add: fill_item_def Let_def split: option.splits)

lemma items_upd_item [simp]:
  "items (upd_item a f m) = (items m)(a := map_option f (items m a))"
  by (simp add: upd_item_def)

lemma strs_upd_item [simp]: "strs (upd_item a f m) = strs m"
  by (simp add: upd_item_def)

lemma fill_keeps_chain:
  "chain (items (upd_item a (fill_item c1 c2 c3 p cmt) m)) q xs = chain (items m) q xs"
  by (simp add: chain_upd_same_next option.map_comp comp_def)

lemma link_item_empty:
  "queue_of (m, s) [] \<Longrightarrow>
   link_item a (m, s) = Inr (m, s\<lparr>queue_head := Some a, queue_tail := Some a\<rparr>)"
  by (simp add: queue_of_def link_item_def)

lemma link_item_nonempty:
  assumes "queue_of (m, s) xs" and "xs \<noteq> []"
  shows "link_item a (m, s) =
    Inr (upd_item (last xs) (item_next_update (\<lambda>_. Some a)) m, s\<lparr>queue_tail := Some a\<rparr>)"
proof -
  from assms obtain it where "items m (last xs) = Some it" "item_next it = None"
    using chain_last_next unfolding queue_of_def by fastforce
  moreover have "queue_head s \<noteq> None" using assms by (cases xs) (auto simp: queue_of_def)
  ultimately show ?thesis using assms by (auto simp: queue_of_def link_item_def)
qed

lemma link_item_appends:
  assumes "queue_of (m, s) xs" and "ready (m, s) a" and "a \<notin> set xs"
  shows "\<exists>m' s'. link_item a (m, s) = Inr (m', s') \<and> queue_of (m', s') (xs @ [a]) \<and>
     strs m' = strs m \<and> (\<forall>b. b \<notin> set xs \<longrightarrow> items m' b = items m b)"
proof (cases "xs = []")
  case True
  with assms show ?thesis
    by (auto simp: link_item_empty queue_of_def ready_def split: option.splits)
next
  case False
  from assms(2) obtain it where it: "items m a = Some it" "item_next it = None"
    by (auto simp: ready_def split: option.splits)
  have "chain (items (upd_item (last xs) (item_next_update (\<lambda>_. Some a)) m)) (queue_head s) (xs @ [a])"
    using chain_snoc [of "items m" "queue_head s" xs a it] False assms it by (simp add: queue_of_def)
  with False assms(1) show ?thesis
    by (auto simp: link_item_nonempty [OF assms(1) False] queue_of_def)
qed

lemma push_appends:
  assumes "queue_of (m, s) xs" and "items m a = Some it" and "item_next it = None"
    and "a \<notin> set xs"
  shows "\<exists>m' s'. push_query_queue_item (Some a) (Some c1) (Some c2) c3 p cmt (m, s) = Inr (m', s') \<and>
     queue_of (m', s') (xs @ [a]) \<and>
     items m' a = Some (fill_item (Some c1) (Some c2) c3 p cmt it) \<and> strs m' = strs m \<and>
     (\<forall>b. b \<notin> set (xs @ [a]) \<longrightarrow> items m' b = items m b)"
proof -
  let ?m = "upd_item a (fill_item (Some c1) (Some c2) c3 p cmt) m"
  have q: "queue_of (?m, s) xs"
    using assms(1,4) by (simp add: queue_of_def)
  have r: "ready (?m, s) a" using assms by (simp add: ready_def)
  from link_item_appends [OF q r assms(4)] assms(2,4) show ?thesis
    by (auto simp: push_query_queue_item_def)
qed

text \<open>What a successful push has done to memory, whatever the queue looked like.\<close>

lemma push_memory:
  assumes "push_query_queue_item (Some a) c1 c2 c3 p cmt (m, s) = Inr (m', s')"
  shows "(\<exists>it. items m a = Some it) \<and>
    (m' = upd_item a (fill_item c1 c2 c3 p cmt) m \<or>
     (\<exists>t. m' = upd_item t (item_next_update (\<lambda>_. Some a)) (upd_item a (fill_item c1 c2 c3 p cmt) m)))"
  using assms
  by (auto simp: push_query_queue_item_def link_item_def res_iffs split: option.splits if_splits)

lemma push_preserves_ready:
  assumes "queue_of (m, s) xs" and "ready (m, s) a" and "a \<notin> set xs"
  shows "\<exists>st'. push_query_queue_item (Some a) (Some c1) (Some c2) c3 p cmt (m, s) = Inr st' \<and>
     queue_of st' (xs @ [a]) \<and>
     (\<forall>b. b \<notin> set (xs @ [a]) \<longrightarrow> ready (m, s) b \<longrightarrow> ready st' b)"
proof -
  from assms(2) obtain it where it: "items m a = Some it" "item_next it = None"
    by (auto simp: ready_def split: option.splits)
  from push_appends [OF assms(1) it assms(3)] show ?thesis
    by (fastforce simp: ready_def)
qed

lemma unlink_head_cons:
  assumes "queue_of (m, s) (a # xs)"
  shows "\<exists>s'. unlink_head (m, s) = Inr (a, m, s') \<and> queue_of (m, s') xs \<and>
     conn s' = conn s \<and> session_state s' = session_state s \<and> notify_cb s' = notify_cb s"
  using assms by (cases xs) (auto simp: queue_of_def unlink_head_def split: option.splits)

lemma unlink_head_empty: "queue_of st [] \<Longrightarrow> unlink_head st = Inl AssertFail"
  by (cases st) (simp add: queue_of_def unlink_head_def)

interpretation query_queue: fifo_queue
  "queue_of :: 'c qstate \<Rightarrow> addr list \<Rightarrow> bool" ready
  "\<lambda>a. push_query_queue_item (Some a) (Some c1) (Some c2) c3 p cmt" unlink_head
  for c1 c2 c3 p cmt
proof unfold_locales
  fix st :: "'c qstate" and xs x
  show "queue_of st xs \<Longrightarrow> ready st x \<Longrightarrow> x \<notin> set xs \<Longrightarrow>
    \<exists>s'. push_query_queue_item (Some x) (Some c1) (Some c2) c3 p cmt st = Inr s' \<and>
      queue_of s' (xs @ [x]) \<and> (\<forall>y. y \<notin> set (xs @ [x]) \<longrightarrow> ready st y \<longrightarrow> ready s' y)"
    using push_preserves_ready [of "fst st" "snd st" xs x] by simp
  show "queue_of st (x # xs) \<Longrightarrow> \<exists>s'. unlink_head st = Inr (x, s') \<and> queue_of s' xs"
    by (cases st) (use unlink_head_cons in blast)
  show "queue_of st [] \<Longrightarrow> unlink_head st = Inl AssertFail"
    by (rule unlink_head_empty)
qed

section \<open>Popping a simple command\<close>

definition free_one :: "addr \<Rightarrow> mem \<Rightarrow> mem" where
  "free_one a m =
     m\<lparr>strs := (case items m a of None \<Rightarrow> strs m
                | Some it \<Rightarrow> (strs m)(item_cb_private it := None)),
       items := (items m)(a := None)\<rparr>"

text \<open>A simple command's item owns a live string.\<close>

definition owns_command :: "mem \<Rightarrow> addr \<Rightarrow> bool" where
  "owns_command m a =
     (case items m a of
        None \<Rightarrow> False
      | Some it \<Rightarrow> item_free_cb it = Some Simple_command_free \<and> item_cb_private it \<noteq> 0 \<and>
          strs m (item_cb_private it) \<noteq> None)"

lemma items_free_one [simp]: "items (free_one a m) = (items m)(a := None)"
  by (simp add: free_one_def)

lemma pop_simple:
  assumes "queue_of (m, s) (a # xs)" and "owns_command m a"
  shows "\<exists>s'. pop_query_queue_item (m, s) = Inr (free_one a m, s') \<and>
     queue_of (free_one a m, s') xs \<and> conn s' = conn s \<and> session_state s' = session_state s"
proof -
  from assms(2) obtain it p str where it: "items m a = Some it"
    "item_free_cb it = Some Simple_command_free" "item_cb_private it = p" "p \<noteq> 0"
    "strs m p = Some str"
    by (auto simp: owns_command_def split: option.splits)
  from assms(1) have d: "a \<notin> set xs" using chain_distinct unfolding queue_of_def by fastforce
  from unlink_head_cons [OF assms(1)] obtain s' where
    s': "unlink_head (m, s) = Inr (a, m, s')" "queue_of (m, s') xs" "conn s' = conn s"
    "session_state s' = session_state s" by blast
  have "pop_query_queue_item (m, s) = Inr (free_one a m, s')"
    using it s'(1)
    by (simp add: pop_query_queue_item_def simple_command_free_def free_str_def free_one_def)
  moreover have "queue_of (free_one a m, s') xs"
    using s'(2) d by (simp add: queue_of_def)
  ultimately show ?thesis using s' by blast
qed

section \<open>Popping an insert item\<close>

lemma int_uintptr_id [simp]: "int_of_uintptr (uintptr_of_int x) = x"
  unfolding int_of_uintptr_def uintptr_of_int_def
  by (rule bit_word_eqI) (auto simp: bit_ucast_iff bit_word_scast_iff)

definition insert_item :: "queue_item option \<Rightarrow> bool" where
  "insert_item v = (case v of None \<Rightarrow> False | Some it \<Rightarrow> item_free_cb it = Some Insert_query_free)"

definition item_count :: "queue_item option \<Rightarrow> 32 word" where
  "item_count v = (case v of None \<Rightarrow> 0 | Some it \<Rightarrow> int_of_uintptr (item_cb_private it))"

lemma fill_insert:
  "item_free_cb (fill_item c1 c2 c3 p cmt it) = c3"
  "item_cb_private (fill_item c1 c2 c3 p cmt it) = p"
  by (simp_all add: fill_item_def Let_def split: option.splits)

lemma pop_insert_alone:
  assumes "queue_of (m, s) [a]" and "insert_item (items m a)"
  shows "\<exists>m' s'. pop_query_queue_item (m, s) = Inr (m', s') \<and> queue_of (m', s') [a] \<and>
     insert_item (items m' a) \<and> item_count (items m' a) = item_count (items m a) + 1 \<and>
     strs m' = strs m \<and> (\<forall>b. b \<noteq> a \<longrightarrow> items m' b = items m b)"
proof -
  from assms obtain it where it: "items m a = Some it" "item_next it = None"
    "item_free_cb it = Some Insert_query_free"
    by (auto simp: queue_of_def insert_item_def split: option.splits)
  from unlink_head_cons [OF assms(1)] obtain s' where
    s': "unlink_head (m, s) = Inr (a, m, s')" "queue_of (m, s') []" by blast
  then have e: "queue_head s' = None" "queue_tail s' = None" by (simp_all add: queue_of_def)
  let ?cmt = "Some (fst (snprintf QUERY_QUEUE_ITEM_COMMENT_MAXLEN
    (''insert '' @ show_int (sint (int_of_uintptr (item_cb_private it) + 1)))))"
  from push_appends [OF s'(2) it(1,2), of Insert_query_send Insert_query_result
      "Some Insert_query_free" "uintptr_of_int (int_of_uintptr (item_cb_private it) + 1)" ?cmt]
  obtain m2 s2 where p: "insert_query_enqueue (Some a) (int_of_uintptr (item_cb_private it) + 1)
       (m, s') = Inr (m2, s2)" "queue_of (m2, s2) [a]"
    "items m2 a = Some (fill_item (Some Insert_query_send) (Some Insert_query_result)
       (Some Insert_query_free) (uintptr_of_int (int_of_uintptr (item_cb_private it) + 1)) ?cmt it)"
    "strs m2 = strs m" "\<forall>b. b \<notin> set ([] @ [a]) \<longrightarrow> items m2 b = items m b"
    unfolding insert_query_enqueue_def by auto
  have "pop_query_queue_item (m, s) = Inr (m2, s2)"
    using s'(1) it e p(1) by (simp add: pop_query_queue_item_def insert_query_free_def)
  with p it show ?thesis
    by (simp add: insert_item_def item_count_def fill_insert)
qed

text \<open>
  With other items behind it, the re-enqueued item still points to its old successor, so the
  list closes into a cycle.
\<close>

lemma chain_follow:
  assumes "chain h p xs" and "xs \<noteq> []"
    and "\<And>a. a \<in> set (butlast xs) \<Longrightarrow> map_option item_next (h' a) = map_option item_next (h a)"
    and "map_option item_next (h' (last xs)) = Some q" and "chain h' p ys"
  shows "\<exists>zs. ys = xs @ zs \<and> chain h' q zs"
  using assms
proof (induction xs arbitrary: p ys)
  case Nil
  then show ?case by simp
next
  case (Cons a xs)
  from Cons.prems(1) obtain it where it: "p = Some a" "h a = Some it" "chain h (item_next it) xs"
    by (auto split: option.splits)
  with Cons.prems(5) obtain ws it' where ws: "ys = a # ws" "h' a = Some it'"
    "chain h' (item_next it') ws"
    by (cases ys) (auto split: option.splits)
  show ?case
  proof (cases "xs = []")
    case True
    with Cons.prems(4) ws show ?thesis by auto
  next
    case False
    have "item_next it' = item_next it"
      using Cons.prems(3) [of a] False it(2) ws(2) by simp
    with Cons.IH [OF it(3) False, of ws] Cons.prems(3,4) ws False show ?thesis by auto
  qed
qed

lemma last_not_in_butlast: "distinct xs \<Longrightarrow> last xs \<notin> set (butlast xs)"
  by (induction xs rule: rev_induct) auto

lemma cyclic_no_chain:
  assumes "chain h p xs" and "xs \<noteq> []" and "p = Some b" and "a \<notin> set xs"
    and "\<And>c. c \<in> set (butlast xs) \<Longrightarrow> map_option item_next (h' c) = map_option item_next (h c)"
    and "map_option item_next (h' (last xs)) = Some (Some a)"
    and "map_option item_next (h' a) = Some (Some b)"
  shows "\<not> chain h' p ys"
proof
  assume ys: "chain h' p ys"
  from chain_follow [OF assms(1,2) _ assms(6) ys] assms(5) obtain zs where
    zs: "ys = xs @ zs" "chain h' (Some a) zs" by blast
  then obtain ws where "zs = a # ws" "chain h' (Some b) ws"
    using assms(7) by (cases zs) (auto split: option.splits)
  with ys assms(3) have "ys = ws" using chain_unique by blast
  with zs \<open>zs = a # ws\<close> show False by simp
qed

lemma pop_insert_shape:
  assumes q: "queue_of (m, s) (a # b # xs)" and it: "items m a = Some it"
    "item_free_cb it = Some Insert_query_free"
  shows "\<exists>cmt s'. pop_query_queue_item (m, s) = Inr
     (upd_item (last (b # xs)) (item_next_update (\<lambda>_. Some a))
        (upd_item a (fill_item (Some Insert_query_send) (Some Insert_query_result)
           (Some Insert_query_free) (uintptr_of_int (int_of_uintptr (item_cb_private it) + 1)) cmt) m), s') \<and>
     queue_head s' = Some b \<and> queue_tail s' = Some a"
proof -
  let ?n = "int_of_uintptr (item_cb_private it) + 1"
  let ?cmt = "Some (fst (snprintf QUERY_QUEUE_ITEM_COMMENT_MAXLEN (''insert '' @ show_int (sint ?n))))"
  let ?m = "upd_item a (fill_item (Some Insert_query_send) (Some Insert_query_result)
           (Some Insert_query_free) (uintptr_of_int ?n) ?cmt) m"
  from unlink_head_cons [OF q] obtain s' where
    s': "unlink_head (m, s) = Inr (a, m, s')" "queue_of (m, s') (b # xs)" by blast
  have d: "distinct (a # b # xs)" using q chain_distinct unfolding queue_of_def by fastforce
  have hd: "queue_head s' = Some b" "queue_tail s' = Some (last (b # xs))"
    using s'(2) by (simp_all add: queue_of_def)
  have "last (b # xs) \<noteq> a" using d by (metis distinct.simps(2) last_in_set list.distinct(1))
  with hd d have ne: "queue_head s' \<noteq> Some a" "queue_tail s' \<noteq> Some a" by auto
  have "queue_of (?m, s') (b # xs)"
    using s'(2) by (simp add: queue_of_def fill_keeps_chain del: items_upd_item chain.simps)
  from link_item_nonempty [OF this] have
    "link_item a (?m, s') = Inr (upd_item (last (b # xs)) (item_next_update (\<lambda>_. Some a)) ?m,
       s'\<lparr>queue_tail := Some a\<rparr>)" by simp
  with s'(1) it ne have "pop_query_queue_item (m, s) =
     Inr (upd_item (last (b # xs)) (item_next_update (\<lambda>_. Some a)) ?m, s'\<lparr>queue_tail := Some a\<rparr>)"
    by (simp add: pop_query_queue_item_def insert_query_free_def insert_query_enqueue_def
        push_query_queue_item_def)
  with hd show ?thesis by (intro exI [of _ ?cmt] exI [of _ "s'\<lparr>queue_tail := Some a\<rparr>"]) simp
qed

lemma pop_insert_cycle:
  assumes q: "queue_of (m, s) (a # b # xs)" and i: "insert_item (items m a)"
  shows "\<exists>m' s'. pop_query_queue_item (m, s) = Inr (m', s') \<and>
     (\<forall>ys. \<not> chain (items m') (queue_head s') ys) \<and>
     queue_tail s' = Some a \<and> map_option item_next (items m' a) = Some (Some b)"
proof -
  from i obtain it where it: "items m a = Some it" "item_free_cb it = Some Insert_query_free"
    by (auto simp: insert_item_def split: option.splits)
  from q it have nx: "item_next it = Some b" "chain (items m) (Some b) (b # xs)"
    by (auto simp: queue_of_def)
  have d: "distinct (a # b # xs)" using q chain_distinct unfolding queue_of_def by fastforce
  have la: "last (b # xs) \<noteq> a" "last (b # xs) \<in> set (b # xs)"
    using d by (metis distinct.simps(2) last_in_set list.distinct(1)) (rule last_in_set, simp)
  obtain lit where lit: "items m (last (b # xs)) = Some lit"
    using chain_allocated [OF nx(2) la(2)] by blast
  from pop_insert_shape [OF q it] obtain cmt s' where p:
    "pop_query_queue_item (m, s) = Inr
     (upd_item (last (b # xs)) (item_next_update (\<lambda>_. Some a))
        (upd_item a (fill_item (Some Insert_query_send) (Some Insert_query_result)
           (Some Insert_query_free) (uintptr_of_int (int_of_uintptr (item_cb_private it) + 1)) cmt) m), s')"
    (is "_ = Inr (?m, s')")
    "queue_head s' = Some b" "queue_tail s' = Some a" by blast
  have na: "map_option item_next (items ?m a) = Some (Some b)" using la it nx by simp
  have nl: "map_option item_next (items ?m (last (b # xs))) = Some (Some a)"
    using la lit by simp
  have nm: "map_option item_next (items ?m c) = map_option item_next (items m c)"
    if "c \<in> set (butlast (b # xs))" for c
  proof -
    have "c \<noteq> last (b # xs)"
      using that d last_not_in_butlast [of "b # xs"] by fastforce
    moreover have "c \<noteq> a" using that d in_set_butlastD [of c "b # xs"] by fastforce
    ultimately show ?thesis by simp
  qed
  have "\<not> chain (items ?m) (queue_head s') ys" for ys
    unfolding p(2) using d by (intro cyclic_no_chain [OF nx(2) _ refl _ nm nl na]) simp_all
  then show ?thesis
    by (intro exI conjI allI) (rule p(1), assumption, rule p(3), rule na)
qed

section \<open>When the clean-up loop ends\<close>

primrec free_all :: "addr list \<Rightarrow> mem \<Rightarrow> mem" where
  "free_all [] m = m"
| "free_all (a # as) m = free_all as (free_one a m)"

definition private_of :: "mem \<Rightarrow> addr \<Rightarrow> 64 word option" where
  "private_of m a = map_option item_cb_private (items m a)"

definition own_commands :: "mem \<Rightarrow> addr list \<Rightarrow> bool" where
  "own_commands m xs \<longleftrightarrow> list_all (owns_command m) xs \<and> distinct (map (private_of m) xs)"

lemma owns_command_free_one:
  "owns_command m b \<Longrightarrow> b \<noteq> a \<Longrightarrow> private_of m b \<noteq> private_of m a \<Longrightarrow> owns_command (free_one a m) b"
  by (auto simp: owns_command_def private_of_def free_one_def split: option.splits)

lemma private_of_free_one: "b \<noteq> a \<Longrightarrow> private_of (free_one a m) b = private_of m b"
  by (simp add: private_of_def)

lemma own_commands_Cons:
  assumes "own_commands m (a # xs)" and "a \<notin> set xs"
  shows "owns_command m a \<and> own_commands (free_one a m) xs"
proof -
  have "map (private_of (free_one a m)) xs = map (private_of m) xs"
    using assms(2) by (intro map_cong refl private_of_free_one) auto
  moreover have "owns_command (free_one a m) b" if "b \<in> set xs" for b
  proof -
    have "owns_command m b" "b \<noteq> a" "private_of m b \<noteq> private_of m a"
      using that assms by (auto simp: own_commands_def list_all_iff) (metis image_eqI)
    then show ?thesis by (rule owns_command_free_one)
  qed
  ultimately show ?thesis
    using assms unfolding own_commands_def by (auto simp: list_all_iff simp del: map_eq_conv)
qed

lemma own_commands_append:
  "own_commands m (xs @ ys) \<Longrightarrow> distinct (xs @ ys) \<Longrightarrow>
   own_commands m xs \<and> own_commands (free_all xs m) ys"
proof (induction xs arbitrary: m)
  case Nil
  then show ?case by (simp add: own_commands_def)
next
  case (Cons a xs)
  then have "own_commands (free_one a m) (xs @ ys)" using own_commands_Cons by fastforce
  with Cons have "own_commands (free_all xs (free_one a m)) ys" by simp
  moreover have "own_commands m (a # xs)" using Cons.prems(1) by (simp add: own_commands_def)
  ultimately show ?case by simp
qed

lemma items_free_all: "items (free_all xs m) b = (if b \<in> set xs then None else items m b)"
  by (induction xs arbitrary: m) auto

lemma chain_free_all: "set xs \<inter> set ys = {} \<Longrightarrow> chain (items (free_all xs m)) p ys = chain (items m) p ys"
  by (rule chain_cong) (auto simp: items_free_all)

lemma drain_simple:
  "queue_of (m, s) xs \<Longrightarrow> own_commands m xs \<Longrightarrow> length xs < fuel \<Longrightarrow>
   \<exists>s'. drain_queue fuel (m, s) = Some (Inr (free_all xs m, s')) \<and>
     queue_of (free_all xs m, s') [] \<and> conn s' = conn s"
proof (induction fuel arbitrary: m s xs)
  case 0
  then show ?case by simp
next
  case (Suc fuel)
  show ?case
  proof (cases xs)
    case Nil
    with Suc.prems show ?thesis by (auto simp: queue_of_def)
  next
    case (Cons a ys)
    have "a \<notin> set ys" using Suc.prems(1) Cons chain_distinct unfolding queue_of_def by fastforce
    with Suc.prems(2) Cons have o: "owns_command m a" "own_commands (free_one a m) ys"
      using own_commands_Cons by auto
    from pop_simple [of m s a ys] Suc.prems(1) Cons o(1) obtain s1 where
      s1: "pop_query_queue_item (m, s) = Inr (free_one a m, s1)" "queue_of (free_one a m, s1) ys"
      "conn s1 = conn s" by auto
    from Suc.IH [OF s1(2) o(2)] Suc.prems(3) Cons obtain s2 where
      "drain_queue fuel (free_one a m, s1) = Some (Inr (free_all ys (free_one a m), s2))"
      "queue_of (free_all ys (free_one a m), s2) []" "conn s2 = conn s1" by auto
    moreover have "queue_head s \<noteq> None" using Suc.prems(1) Cons by (simp add: queue_of_def)
    ultimately show ?thesis using s1 Cons by auto
  qed
qed

lemma drain_insert_never_ends:
  "queue_of (m, s) [a] \<Longrightarrow> insert_item (items m a) \<Longrightarrow> drain_queue fuel (m, s) = None"
proof (induction fuel arbitrary: m s)
  case 0
  then show ?case by simp
next
  case (Suc fuel)
  from pop_insert_alone [OF Suc.prems] obtain m' s' where
    "pop_query_queue_item (m, s) = Inr (m', s')" "queue_of (m', s') [a]" "insert_item (items m' a)"
    by blast
  with Suc.IH [of m' s'] Suc.prems(1) show ?case by (simp add: queue_of_def)
qed

text \<open>
  The sessions in use, each with the list its queue holds: the queues are disjoint and every
  item is a simple command with a string of its own.
\<close>

definition sessions_hold :: "'c app \<Rightarrow> addr list list \<Rightarrow> bool" where
  "sessions_hold ap qs \<longleftrightarrow>
     nsessions ap = int (length qs) \<and> length qs \<le> length (sessions ap) \<and>
     (\<forall>i<length qs. queue_of (app_mem ap, sessions ap ! i) (qs ! i)) \<and>
     distinct (concat qs) \<and> own_commands (app_mem ap) (concat (rev qs))"

lemma distinct_concat_rev: "distinct (concat (rev xs)) = distinct (concat xs)"
  by (induction xs) auto

lemma sessions_hold_step:
  assumes "sessions_hold ap (qs @ [q])"
    and s': "conn s' = conn (sessions ap ! length qs)"
  shows "sessions_hold (finish_session (length qs) (free_all q (app_mem ap)) s' ap) qs"
proof -
  let ?ap = "finish_session (length qs) (free_all q (app_mem ap)) s' ap"
  have d: "distinct (q @ concat (rev qs))" "own_commands (app_mem ap) (q @ concat (rev qs))"
    using assms(1) by (auto simp: sessions_hold_def distinct_concat_rev)
  have dis: "set q \<inter> set (qs ! i) = {}" if "i < length qs" for i
    using d(1) that by (auto dest: nth_mem)
  have "queue_of (app_mem ?ap, sessions ?ap ! i) (qs ! i)" if i: "i < length qs" for i
  proof -
    have "queue_of (app_mem ap, sessions ap ! i) (qs ! i)"
      using assms(1) i unfolding sessions_hold_def
      by (metis (no_types, lifting) butlast_snoc length_append_singleton less_SucI nth_butlast)
    then show ?thesis using dis [OF i] i
      by (simp add: finish_session_def queue_of_def chain_free_all)
  qed
  then show ?thesis
    using assms(1) d own_commands_append [OF d(2,1)]
    by (simp add: sessions_hold_def finish_session_def)
qed

lemma kill_sessions_simple:
  assumes "sessions_hold ap qs" and "length (concat qs) < inner" and "length qs < fuel"
  shows "\<exists>ap'. kill_sessions inner fuel ap = Some (Inr ap') \<and> nsessions ap' = 0 \<and>
     (\<forall>i<length qs. conn (sessions ap' ! i) = None) \<and>
     finished ap' = finished ap @ concat (map (\<lambda>s. case conn s of None \<Rightarrow> [] | Some c \<Rightarrow> [c])
       (rev (take (length qs) (sessions ap)))) \<and>
     length (sessions ap') = length (sessions ap) \<and>
     (\<forall>i. length qs \<le> i \<longrightarrow> sessions ap' ! i = sessions ap ! i)"
  using assms
proof (induction qs arbitrary: ap fuel rule: rev_induct)
  case Nil
  then show ?case by (cases fuel) (auto simp: sessions_hold_def)
next
  case (snoc q qs)
  obtain fuel' where f: "fuel = Suc fuel'" "length qs < fuel'"
    using snoc.prems(3) by (cases fuel) auto
  let ?n = "length qs"
  let ?s = "sessions ap ! ?n"
  have n: "nsessions ap = int ?n + 1" "?n < length (sessions ap)"
    using snoc.prems(1) by (auto simp: sessions_hold_def)
  have q: "queue_of (app_mem ap, ?s) q" "own_commands (app_mem ap) q"
    using snoc.prems(1) own_commands_append [of "app_mem ap" q "concat (rev qs)"]
    by (auto simp: sessions_hold_def distinct_concat_rev dest: spec [of _ ?n])
  from drain_simple [OF q, of inner] snoc.prems(2) obtain s' where
    s': "drain_queue inner (app_mem ap, ?s) = Some (Inr (free_all q (app_mem ap), s'))"
    "conn s' = conn ?s" by auto
  let ?ap = "finish_session ?n (free_all q (app_mem ap)) s' ap"
  have h: "sessions_hold ?ap qs" by (rule sessions_hold_step [OF snoc.prems(1) s'(2)])
  from snoc.IH [OF h _ f(2)] snoc.prems(2) obtain ap' where
    ap': "kill_sessions inner fuel' ?ap = Some (Inr ap')" "nsessions ap' = 0"
    "\<forall>i<?n. conn (sessions ap' ! i) = None"
    "finished ap' = finished ?ap @ concat (map (\<lambda>s. case conn s of None \<Rightarrow> [] | Some c \<Rightarrow> [c])
       (rev (take ?n (sessions ?ap))))"
    "length (sessions ap') = length (sessions ?ap)"
    "\<forall>i. ?n \<le> i \<longrightarrow> sessions ap' ! i = sessions ?ap ! i" by auto
  have "kill_sessions inner fuel ap = kill_sessions inner fuel' ?ap"
    using n s'(1) f(1) by (simp add: Let_def)
  moreover have "take (Suc ?n) (sessions ap) = take ?n (sessions ap) @ [?s]"
    using n(2) by (simp add: take_Suc_conv_app_nth)
  ultimately show ?case
    using ap' n s'(2) by (auto simp: finish_session_def less_Suc_eq)
qed

section \<open>Enqueueing from the two families\<close>

lemma push_keeps_private:
  assumes "push_query_queue_item (Some a) c1 c2 c3 p cmt (m, s) = Inr (m', s')" and "b \<noteq> a"
  shows "private_of m' b = private_of m b"
  using push_memory [OF assms(1)] assms(2)
  by (auto simp: private_of_def option.map_comp comp_def)

lemma items_strdup [simp]: "items (snd (strdup al txt m)) = items m"
  by (simp add: strdup_def split: option.splits)

text \<open>One enqueue unfolded, for a block whose bytes are arbitrary.\<close>

lemma simple_enqueue_unfold:
  assumes "al_item al m = Some (a, junk)" and "items m a = None"
  shows "\<exists>m2 p. items m2 = (items m)(a \<mapsto> junk) \<and>
    simple_command_enqueue al txt cmt (m, s) =
      link_item a (upd_item a (fill_item (Some Simple_command_send) (Some Simple_command_result)
        (Some Simple_command_free) p cmt) m2, s)"
proof -
  let ?r = "strdup al txt (m\<lparr>items := (items m)(a \<mapsto> junk)\<rparr>)"
  have "items (snd ?r) = (items m)(a \<mapsto> junk)" by simp
  moreover from this assms have "simple_command_enqueue al txt cmt (m, s) =
      link_item a (upd_item a (fill_item (Some Simple_command_send) (Some Simple_command_result)
        (Some Simple_command_free) (fst ?r) cmt) (snd ?r), s)"
    by (simp add: simple_command_enqueue_def malloc_item_def push_query_queue_item_def split_beta
        del: items_strdup)
  ultimately show ?thesis by blast
qed

lemma insert_enqueue_appends:
  assumes "queue_of (m, s) xs" and "items m a = Some it" and "item_next it = None" and "a \<notin> set xs"
  shows "\<exists>m' s'. insert_query_enqueue (Some a) n (m, s) = Inr (m', s') \<and>
    queue_of (m', s') (xs @ [a]) \<and> strs m' = strs m \<and> item_count (items m' a) = n \<and>
    (\<forall>b. b \<noteq> a \<longrightarrow> private_of m' b = private_of m b)"
proof -
  let ?cmt = "Some (fst (snprintf QUERY_QUEUE_ITEM_COMMENT_MAXLEN (''insert '' @ show_int (sint n))))"
  from push_appends [OF assms, of Insert_query_send Insert_query_result "Some Insert_query_free"
      "uintptr_of_int n" ?cmt] obtain m' s' where
    r: "insert_query_enqueue (Some a) n (m, s) = Inr (m', s')" "queue_of (m', s') (xs @ [a])"
    "items m' a = Some (fill_item (Some Insert_query_send) (Some Insert_query_result)
       (Some Insert_query_free) (uintptr_of_int n) ?cmt it)" "strs m' = strs m"
    unfolding insert_query_enqueue_def by blast
  then show ?thesis
    using push_keeps_private unfolding insert_query_enqueue_def
    by (auto simp: item_count_def fill_insert)
qed

end
