(* ===== verification/Async_Session.thy ===== *)
theory Async_Session
  imports Async_Queue_Laws
begin

text \<open>
  The event loop of \<open>postgresql/blog_libpq_pipeline/async_sample.c\<close>: the send and result
  callbacks, \<open>service_session\<close>, the two passes of \<open>sample_mainloop\<close>, \<open>dbconnect\<close> and
  the start-up of \<open>main\<close>, over the queue of \<open>Async_Queue\<close>.

  libpq is not part of the repository: its functions are the fields of the record \<open>libpq\<close>, over
  a connection state of any type, and what a theorem needs of them is a hypothesis quoted from
  libpq's documentation.  \<open>strtod\<close> is such a field too: it gives the truncated value and the
  rest of the string.

  The names the file uses and does not declare are read as follows: \<open>conn\<close> and
  \<open>session_state\<close> in a function with a session are that session's members, \<open>QUERY_SENT\<close> is
  \<open>SESSION_QUEUED\<close>, \<open>session->send_cb\<close> and \<open>session->result_cb\<close> are the head item's
  callbacks, \<open>query\<close> is \<open>insert_query\<close>, \<open>sesspoll\<close> in \<open>service_session\<close> is the
  session's poll entry, and \<open>poll(connpoll, ...)\<close> polls the array the loop has just filled.
\<close>

section \<open>Outcomes\<close>

text \<open>
  A call returns (\<open>Cont\<close>), calls \<open>error_die\<close> in some state (\<open>Die\<close>), or stops in
  one of the ways of \<open>stop\<close>.
\<close>

datatype 's outcome = Cont 's | Die 's | Stop stop

fun obind :: "'s outcome \<Rightarrow> ('s \<Rightarrow> 's outcome) \<Rightarrow> 's outcome" where
  "obind (Cont s) f = f s"
| "obind (Die s) f = Die s"
| "obind (Stop e) f = Stop e"

lemma obind_eq_Cont: "obind x f = Cont s \<longleftrightarrow> (\<exists>t. x = Cont t \<and> f t = Cont s)"
  by (cases x) auto

section \<open>libpq\<close>

datatype exec_status = PGRES_COMMAND_OK | PGRES_TUPLES_OK | PGRES_FATAL_ERROR | PGRES_OTHER

record pgresult =
  PQresultStatus :: exec_status
  PQnfields :: int
  PQntuples :: int
  PQgetvalue :: "int \<Rightarrow> int \<Rightarrow> string option"

type_synonym notification = "string \<times> string"

record 'c libpq =
  PQconnectdb :: "string option \<Rightarrow> 'c"
  PQstatus_ok :: "'c \<Rightarrow> bool"
  PQsetnonblocking :: "'c \<Rightarrow> int \<times> 'c"
  PQconsumeInput :: "'c \<Rightarrow> int \<times> 'c"
  PQnotifies :: "'c \<Rightarrow> notification option \<times> 'c"
  PQflush :: "'c \<Rightarrow> int \<times> 'c"
  PQisBusy :: "'c \<Rightarrow> bool \<times> 'c"
  PQgetResult :: "'c \<Rightarrow> pgresult option \<times> 'c"
  PQsendQuery :: "string \<Rightarrow> 'c \<Rightarrow> int \<times> 'c"
  PQsendQueryParams :: "string \<Rightarrow> string list \<Rightarrow> 'c \<Rightarrow> int \<times> 'c"
  c_strtod :: "string \<Rightarrow> int \<times> string"

section \<open>The state of one service call\<close>

text \<open>
  \<open>sv_pollout\<close> is the \<open>POLLOUT\<close> bit that the call sets in the session's poll entry;
  \<open>sv_trace\<close> records which callbacks ran, oldest first.
\<close>

datatype trace_event =
    Sent_query addr
  | Got_result addr "pgresult option"
  | Printed_notification notification
  | Printed_insert addr

record 'c svc =
  sv_mem :: mem
  sv_session :: "'c app_session"
  sv_pollout :: bool
  sv_trace :: "trace_event list"

definition with_conn :: "('c \<Rightarrow> 'a \<times> 'c) \<Rightarrow> ('a \<Rightarrow> 'c svc \<Rightarrow> 'c svc outcome) \<Rightarrow> 'c svc \<Rightarrow> 'c svc outcome" where
  "with_conn call k st =
     (case conn (sv_session st) of
        None \<Rightarrow> Stop Undefined
      | Some c \<Rightarrow>
          (let (r, c') = call c
           in k r (st\<lparr>sv_session := (sv_session st)\<lparr>conn := Some c'\<rparr>\<rparr>)))"

definition emit :: "trace_event \<Rightarrow> 'c svc \<Rightarrow> 'c svc" where
  "emit e st = st\<lparr>sv_trace := sv_trace st @ [e]\<rparr>"

definition set_state :: "session_state \<Rightarrow> 'c svc \<Rightarrow> 'c svc" where
  "set_state x st = st\<lparr>sv_session := (sv_session st)\<lparr>session_state := x\<rparr>\<rparr>"

definition with_queue :: "('c qstate \<Rightarrow> 'c qstate res) \<Rightarrow> 'c svc \<Rightarrow> 'c svc outcome" where
  "with_queue f st =
     (case f (sv_mem st, sv_session st) of
        Inl e \<Rightarrow> Stop e
      | Inr (m, s) \<Rightarrow> Cont (st\<lparr>sv_mem := m, sv_session := s\<rparr>))"

text \<open>The head item, read through \<open>session->queue_head\<close>.\<close>

definition with_head :: "(addr \<Rightarrow> queue_item \<Rightarrow> 'c svc \<Rightarrow> 'c svc outcome) \<Rightarrow> 'c svc \<Rightarrow> 'c svc outcome" where
  "with_head k st =
     (case queue_head (sv_session st) of
        None \<Rightarrow> Stop Undefined
      | Some a \<Rightarrow>
          (case items (sv_mem st) a of None \<Rightarrow> Stop Undefined | Some it \<Rightarrow> k a it st))"

section \<open>Send callbacks\<close>

definition simple_command_send ::
    "'c libpq \<Rightarrow> queue_item \<Rightarrow> (int \<Rightarrow> 'c svc \<Rightarrow> 'c svc outcome) \<Rightarrow> 'c svc \<Rightarrow> 'c svc outcome" where
  "simple_command_send lp it k st =
     (case strs (sv_mem st) (item_cb_private it) of
        None \<Rightarrow> Stop Undefined
      | Some q \<Rightarrow> with_conn (PQsendQuery lp q) k st)"

definition insert_query :: string where
  "insert_query =
     ''INSERT INTO demo(id, dummyval) VALUES (DEFAULT, %d) RETURNING (id, dummyval)''"

definition insert_query_send ::
    "'c libpq \<Rightarrow> queue_item \<Rightarrow> (int \<Rightarrow> 'c svc \<Rightarrow> 'c svc outcome) \<Rightarrow> 'c svc \<Rightarrow> 'c svc outcome" where
  "insert_query_send lp it k st =
     (let (dummyval, n) = snprintf 20 (show_int (sint (int_of_uintptr (item_cb_private it))))
      in if 20 \<le> n then Die st
         else with_conn (PQsendQueryParams lp insert_query [dummyval]) k st)"

fun call_send_cb ::
    "'c libpq \<Rightarrow> send_callback option \<Rightarrow> queue_item \<Rightarrow> (int \<Rightarrow> 'c svc \<Rightarrow> 'c svc outcome) \<Rightarrow>
     'c svc \<Rightarrow> 'c svc outcome" where
  "call_send_cb lp None it k st = Stop Undefined"
| "call_send_cb lp (Some Simple_command_send) it k st = simple_command_send lp it k st"
| "call_send_cb lp (Some Insert_query_send) it k st = insert_query_send lp it k st"

section \<open>Result callbacks\<close>

definition simple_command_result ::
    "pgresult option \<Rightarrow> 'c svc \<Rightarrow> 'c svc outcome" where
  "simple_command_result result st =
     (case result of
        None \<Rightarrow> Cont st
      | Some r \<Rightarrow> if PQresultStatus r \<noteq> PGRES_COMMAND_OK then Die st else Cont st)"

text \<open>
  Lines 526-550: \<open>PQgetvalue(result, 1, 2)\<close> goes to \<open>strtod\<close>; a null pointer there is
  undefined.
\<close>

definition insert_query_result ::
    "'c libpq \<Rightarrow> addr \<Rightarrow> queue_item \<Rightarrow> pgresult option \<Rightarrow> 'c svc \<Rightarrow> 'c svc outcome" where
  "insert_query_result lp a it result st =
     (case result of
        None \<Rightarrow> Cont st
      | Some r \<Rightarrow>
          if PQresultStatus r = PGRES_TUPLES_OK then
            if PQnfields r \<noteq> 2 \<or> PQntuples r \<noteq> 1 then Die st
            else (case PQgetvalue r 1 2 of
                    None \<Rightarrow> Stop Undefined
                  | Some v \<Rightarrow>
                      (let (return_dummyval, rest) = c_strtod lp v
                       in if rest \<noteq> [] then Die st
                          else if return_dummyval \<noteq> sint (int_of_uintptr (item_cb_private it))
                          then Die st
                          else Cont (emit (Printed_insert a) st)))
          else Die st)"

fun call_result_cb ::
    "'c libpq \<Rightarrow> result_callback option \<Rightarrow> addr \<Rightarrow> queue_item \<Rightarrow> pgresult option \<Rightarrow>
     'c svc \<Rightarrow> 'c svc outcome" where
  "call_result_cb lp None a it result st = Stop Undefined"
| "call_result_cb lp (Some Simple_command_result) a it result st =
     simple_command_result result (emit (Got_result a result) st)"
| "call_result_cb lp (Some Insert_query_result) a it result st =
     insert_query_result lp a it result (emit (Got_result a result) st)"

section \<open>Servicing a session\<close>

text \<open>Lines 349-366: drain the socket, then dispatch at most one notification.\<close>

definition consume_input :: "'c libpq \<Rightarrow> bool \<Rightarrow> 'c svc \<Rightarrow> 'c svc outcome" where
  "consume_input lp readable st =
     (if readable
      then with_conn (PQconsumeInput lp) (\<lambda>r st'. if r \<noteq> 1 then Die st' else Cont st') st
      else Cont st)"

fun handle_one_notification :: "notification \<Rightarrow> 'c svc \<Rightarrow> 'c svc" where
  "handle_one_notification n st = emit (Printed_notification n) st"

definition dispatch_notification :: "'c libpq \<Rightarrow> 'c svc \<Rightarrow> 'c svc outcome" where
  "dispatch_notification lp =
     with_conn (PQnotifies lp) (\<lambda>n st.
       (case n of
          None \<Rightarrow> Cont st
        | Some x \<Rightarrow>
            (case notify_cb (sv_session st) of
               None \<Rightarrow> Cont st
             | Some Handle_one_notification \<Rightarrow> Cont (handle_one_notification x st))))"

text \<open>\<open>case SESSION_IDLE\<close>, lines 377-387; it falls through to the flush.\<close>

definition service_idle :: "'c libpq \<Rightarrow> 'c svc \<Rightarrow> 'c svc outcome" where
  "service_idle lp st =
     (if queue_head (sv_session st) = None then Cont st
      else with_head (\<lambda>a it st'.
             call_send_cb lp (item_send_cb it) it
               (\<lambda>send_res st2.
                  if send_res \<noteq> 1 then Die st2
                  else Cont (set_state SESSION_QUEUED (emit (Sent_query a) st2))) st') st)"

text \<open>\<open>case QUERY_SENT\<close>, lines 394-415.\<close>

definition service_flush :: "'c libpq \<Rightarrow> 'c svc \<Rightarrow> 'c svc outcome" where
  "service_flush lp =
     with_conn (PQflush lp) (\<lambda>flushret st.
       if flushret = -1 then Die st
       else if flushret = 1 then Cont (set_state SESSION_FLUSHED st)
       else if flushret = 0 then Cont (st\<lparr>sv_pollout := True\<rparr>)
       else Stop AssertFail)"

text \<open>
  \<open>case SESSION_FLUSHED\<close>, lines 421-463: one turn of the loop, and the loop on fuel
  (\<open>None\<close>: it has not ended within the fuel).
\<close>

definition handle_result :: "'c libpq \<Rightarrow> 'c svc \<Rightarrow> 'c svc outcome" where
  "handle_result lp =
     with_conn (PQgetResult lp) (\<lambda>res st.
       obind (with_head (\<lambda>a it. call_result_cb lp (item_result_cb it) a it res) st) (\<lambda>st1.
         if res = None then
           obind (with_queue pop_query_queue_item st1) (\<lambda>st2.
             Cont ((set_state SESSION_IDLE st2)\<lparr>sv_pollout := True\<rparr>))
         else Cont st1))"

definition is_busy :: "'c libpq \<Rightarrow> 'c svc \<Rightarrow> (bool \<times> 'c svc) option" where
  "is_busy lp st =
     (case conn (sv_session st) of
        None \<Rightarrow> None
      | Some c \<Rightarrow>
          (let (b, c') = PQisBusy lp c
           in Some (b, st\<lparr>sv_session := (sv_session st)\<lparr>conn := Some c'\<rparr>\<rparr>)))"

fun service_results :: "'c libpq \<Rightarrow> nat \<Rightarrow> 'c svc \<Rightarrow> 'c svc outcome option" where
  "service_results lp 0 st = None"
| "service_results lp (Suc fuel) st =
     (case is_busy lp st of
        None \<Rightarrow> Some (Stop Undefined)
      | Some (busy, st1) \<Rightarrow>
          if busy then Some (Cont st1)
          else (case handle_result lp st1 of
                  Cont st2 \<Rightarrow> service_results lp fuel st2
                | Die st2 \<Rightarrow> Some (Die st2)
                | Stop e \<Rightarrow> Some (Stop e)))"

definition service_session :: "'c libpq \<Rightarrow> nat \<Rightarrow> bool \<Rightarrow> 'c svc \<Rightarrow> 'c svc outcome option" where
  "service_session lp fuel readable st =
     (case obind (consume_input lp readable st) (dispatch_notification lp) of
        Die st1 \<Rightarrow> Some (Die st1)
      | Stop e \<Rightarrow> Some (Stop e)
      | Cont st1 \<Rightarrow>
          (case session_state (sv_session st1) of
             SESSION_IDLE \<Rightarrow> Some (obind (service_idle lp st1) (service_flush lp))
           | SESSION_QUEUED \<Rightarrow> Some (service_flush lp st1)
           | SESSION_FLUSHED \<Rightarrow> service_results lp fuel st1))"

section \<open>The main loop\<close>

text \<open>
  Lines 290-293: every session in order, with the readiness its poll entry reports.  Lines
  296-315: whether the next poll waits for the socket to become writeable (\<open>POLLIN\<close> is always
  asked for).
\<close>

fun service_all :: "'c libpq \<Rightarrow> nat \<Rightarrow> (nat \<Rightarrow> bool) \<Rightarrow> nat list \<Rightarrow> 'c app \<Rightarrow> 'c app outcome option" where
  "service_all lp fuel readable [] ap = Some (Cont ap)"
| "service_all lp fuel readable (i # is) ap =
     (case service_session lp fuel (readable i)
             \<lparr>sv_mem = app_mem ap, sv_session = sessions ap ! i, sv_pollout = False, sv_trace = []\<rparr> of
        None \<Rightarrow> None
      | Some (Stop e) \<Rightarrow> Some (Stop e)
      | Some (Die st) \<Rightarrow>
          Some (Die (ap\<lparr>app_mem := sv_mem st, sessions := (sessions ap)[i := sv_session st]\<rparr>))
      | Some (Cont st) \<Rightarrow>
          service_all lp fuel readable is
            (ap\<lparr>app_mem := sv_mem st, sessions := (sessions ap)[i := sv_session st]\<rparr>))"

definition wants_pollout :: "'c app_session \<Rightarrow> bool" where
  "wants_pollout s \<longleftrightarrow>
     session_state s = SESSION_QUEUED \<or> (session_state s = SESSION_IDLE \<and> queue_head s \<noteq> None)"

definition mainloop_pass ::
    "'c libpq \<Rightarrow> nat \<Rightarrow> (nat \<Rightarrow> bool) \<Rightarrow> 'c app \<Rightarrow> ('c app outcome \<times> bool list) option" where
  "mainloop_pass lp fuel readable ap =
     map_option (\<lambda>r. (r, case r of Cont ap' \<Rightarrow> map wants_pollout (take (nat (nsessions ap')) (sessions ap'))
                          | _ \<Rightarrow> []))
       (service_all lp fuel readable [0..<nat (nsessions ap)] ap)"

section \<open>Start-up\<close>

definition dbconnect :: "'c libpq \<Rightarrow> string option \<Rightarrow> 'c app_session \<Rightarrow> 'c app_session outcome" where
  "dbconnect lp connstr s =
     (let c = PQconnectdb lp connstr; s1 = s\<lparr>conn := Some c\<rparr>
      in if \<not> PQstatus_ok lp c then Die s1
         else (let (r, c') = PQsetnonblocking lp c; s2 = s\<lparr>conn := Some c'\<rparr>
               in if r \<noteq> 0 then Die s2
                  else Cont (s2\<lparr>session_state := SESSION_IDLE, queue_head := None,
                                queue_tail := None\<rparr>)))"

text \<open>
  Lines 612-626 of \<open>main\<close>: the notification handler, two simple commands and the insert item,
  which lives on \<open>main\<close>'s stack at the address \<open>ins\<close>.
\<close>

definition main_enqueue :: "allocator \<Rightarrow> addr \<Rightarrow> 'c qstate \<Rightarrow> 'c qstate res" where
  "main_enqueue al ins = (\<lambda>(m, s).
     rbind (simple_command_enqueue al ''create table''
              (Some ''CREATE TABLE IF NOT EXISTS dummy(id serial primary key, dummyval integer);'')
              (m, s\<lparr>notify_cb := Some Handle_one_notification\<rparr>)) (\<lambda>st1.
       rbind (simple_command_enqueue al ''delete contents'' (Some ''DELETE FROM dummy;'') st1)
         (insert_query_enqueue (Some ins) 1)))"

end
