(* ===== verification/Async_Session_Laws.thy ===== *)
theory Async_Session_Laws
  imports Async_Session
begin

text \<open>
  Lemmas on the event loop of \<open>Async_Session\<close>: what a service call does to the queue and to the
  session state under any libpq, and under the documented behaviour of \<open>PQflush\<close> and of an idle
  connection.
\<close>

section \<open>The part of the state the queue depends on\<close>

definition same_queue :: "'c svc \<Rightarrow> 'c svc \<Rightarrow> bool" where
  "same_queue st st' \<longleftrightarrow>
     sv_mem st' = sv_mem st \<and> queue_head (sv_session st') = queue_head (sv_session st) \<and>
     queue_tail (sv_session st') = queue_tail (sv_session st)"

definition null_results :: "trace_event list \<Rightarrow> nat" where
  "null_results tr =
     length (filter (\<lambda>e. case e of Got_result a None \<Rightarrow> True | _ \<Rightarrow> False) tr)"

definition svc_queue :: "'c svc \<Rightarrow> addr list \<Rightarrow> bool" where
  "svc_queue st xs \<longleftrightarrow>
     queue_of (sv_mem st, sv_session st) xs \<and> own_commands (sv_mem st) xs"

lemma same_queue_refl [simp]: "same_queue st st"
  by (simp add: same_queue_def)

lemma same_queue_trans: "same_queue a b \<Longrightarrow> same_queue b c \<Longrightarrow> same_queue a c"
  by (simp add: same_queue_def)

lemma same_queue_svc_queue: "same_queue st st' \<Longrightarrow> svc_queue st xs \<Longrightarrow> svc_queue st' xs"
  by (simp add: same_queue_def svc_queue_def queue_of_def)

lemma null_results_append [simp]: "null_results (xs @ ys) = null_results xs + null_results ys"
  by (simp add: null_results_def)

lemma null_results_simps [simp]:
  "null_results [] = 0" "null_results (Sent_query a # tr) = null_results tr"
  "null_results (Got_result a r # tr) = (if r = None then Suc (null_results tr) else null_results tr)"
  "null_results (Printed_notification n # tr) = null_results tr"
  "null_results (Printed_insert a # tr) = null_results tr"
  by (auto simp: null_results_def split: option.splits)

text \<open>Quiet steps leave the queue alone and record no end of results.\<close>

definition quiet :: "'c svc \<Rightarrow> 'c svc \<Rightarrow> bool" where
  "quiet st st' \<longleftrightarrow> same_queue st st' \<and> null_results (sv_trace st') = null_results (sv_trace st)"

lemma quiet_refl [simp]: "quiet st st"
  by (simp add: quiet_def)

lemma quiet_trans: "quiet a b \<Longrightarrow> quiet b c \<Longrightarrow> quiet a c"
  by (auto simp: quiet_def intro: same_queue_trans)

lemma quiet_set_conn [simp]: "quiet st (st\<lparr>sv_session := (sv_session st)\<lparr>conn := c\<rparr>\<rparr>)"
  by (simp add: quiet_def same_queue_def)

lemma quiet_set_state [simp]: "quiet st (set_state x st)"
  by (simp add: quiet_def same_queue_def set_state_def)

lemma quiet_pollout [simp]: "quiet st (st\<lparr>sv_pollout := b\<rparr>)"
  by (simp add: quiet_def same_queue_def)

lemma quiet_emit:
  "null_results [e] = 0 \<Longrightarrow> quiet st (emit e st)"
  by (simp add: quiet_def same_queue_def emit_def)

lemma quiet_sent [simp]: "quiet st (set_state x (emit (Sent_query a) st))"
  by (rule quiet_trans [OF quiet_emit quiet_set_state]) simp

lemma with_conn_Cont:
  assumes "with_conn call k st = Cont st'"
  obtains c r c' where "conn (sv_session st) = Some c" "call c = (r, c')"
    "k r (st\<lparr>sv_session := (sv_session st)\<lparr>conn := Some c'\<rparr>\<rparr>) = Cont st'"
  using assms by (auto simp: with_conn_def Let_def split: option.splits prod.splits)

lemma with_conn_quiet:
  assumes "with_conn call k st = Cont st'"
    and "\<And>r st1 st2. k r st1 = Cont st2 \<Longrightarrow> quiet st1 st2"
  shows "quiet st st'"
  using assms by (elim with_conn_Cont) (metis quiet_trans quiet_set_conn)

lemma consume_input_quiet: "consume_input lp r st = Cont st' \<Longrightarrow> quiet st st'"
  by (auto simp: consume_input_def split: if_splits elim!: with_conn_quiet)

lemma dispatch_notification_quiet: "dispatch_notification lp st = Cont st' \<Longrightarrow> quiet st st'"
  unfolding dispatch_notification_def
  by (erule with_conn_quiet) (auto simp: quiet_emit split: option.splits notify_callback.splits)

lemma service_flush_quiet: "service_flush lp st = Cont st' \<Longrightarrow> quiet st st'"
  unfolding service_flush_def by (erule with_conn_quiet) (auto split: if_splits)

lemma call_send_cb_quiet:
  assumes "call_send_cb lp cb it k st = Cont st'"
    and "\<And>r st1 st2. k r st1 = Cont st2 \<Longrightarrow> quiet st1 st2"
  shows "quiet st st'"
proof (cases cb)
  case None
  with assms show ?thesis by simp
next
  case (Some c)
  with assms show ?thesis
    by (cases c) (auto simp: simple_command_send_def insert_query_send_def Let_def
        split: option.splits prod.splits if_splits intro: with_conn_quiet)
qed

lemma service_idle_quiet: "service_idle lp st = Cont st' \<Longrightarrow> quiet st st'"
  unfolding service_idle_def with_head_def
  by (auto split: if_splits option.splits elim!: call_send_cb_quiet)

lemma call_result_cb_trace:
  assumes "call_result_cb lp cb a it res st = Cont st'"
  shows "same_queue st st' \<and>
    null_results (sv_trace st') = null_results (sv_trace st) + (if res = None then 1 else 0)"
proof (cases cb)
  case None
  with assms show ?thesis by simp
next
  case (Some c)
  with assms show ?thesis
    by (cases c) (auto simp: simple_command_result_def insert_query_result_def emit_def
        same_queue_def split: option.splits if_splits prod.splits)
qed

section \<open>Each end of results takes one command off the queue\<close>

lemma is_busy_quiet: "is_busy lp st = Some (b, st1) \<Longrightarrow> quiet st st1"
  by (auto simp: is_busy_def Let_def split: option.splits prod.splits)

lemma handle_result_pops:
  assumes "handle_result lp st = Cont st'" and "svc_queue st xs"
  shows "\<exists>n\<le>length xs. svc_queue st' (drop n xs) \<and>
    null_results (sv_trace st') = null_results (sv_trace st) + n"
proof -
  from assms(1) obtain res st1 st2 where
    1: "quiet st st1" and
    2: "with_head (\<lambda>a it. call_result_cb lp (item_result_cb it) a it res) st1 = Cont st2" and
    3: "(if res = None then obind (with_queue pop_query_queue_item st2)
           (\<lambda>st2. Cont ((set_state SESSION_IDLE st2)\<lparr>sv_pollout := True\<rparr>)) else Cont st2) = Cont st'"
    unfolding handle_result_def
    by (elim with_conn_Cont) (auto simp: obind_eq_Cont intro: that [OF quiet_set_conn])
  from 2 have tr: "same_queue st1 st2"
    "null_results (sv_trace st2) = null_results (sv_trace st1) + (if res = None then 1 else 0)"
    unfolding with_head_def by (auto split: option.splits dest: call_result_cb_trace)
  from 1 tr(1) assms(2) have q: "svc_queue st2 xs"
    by (auto simp: quiet_def intro: same_queue_svc_queue)
  show ?thesis
  proof (cases res)
    case (Some r)
    with 1 3 tr q show ?thesis by (auto simp: quiet_def intro!: exI [of _ 0])
  next
    case None
    with 3 obtain m s where p: "pop_query_queue_item (sv_mem st2, sv_session st2) = Inr (m, s)"
      "st' = (set_state SESSION_IDLE (st2\<lparr>sv_mem := m, sv_session := s\<rparr>))\<lparr>sv_pollout := True\<rparr>"
      by (auto simp: with_queue_def split: sum.splits prod.splits)
    have "xs \<noteq> []"
      using p(1) q by (auto simp: svc_queue_def pop_query_queue_item_def unlink_head_empty)
    then obtain a ys where xs: "xs = a # ys" by (cases xs) auto
    have "a \<notin> set ys" using q xs chain_distinct unfolding svc_queue_def queue_of_def by fastforce
    then have o: "owns_command (sv_mem st2) a" "own_commands (free_one a (sv_mem st2)) ys"
      using q xs own_commands_Cons unfolding svc_queue_def by blast+
    from pop_simple [of "sv_mem st2" "sv_session st2" a ys] q xs o(1) p(1) have
      "m = free_one a (sv_mem st2)" "queue_of (m, s) ys"
      by (auto simp: svc_queue_def)
    with o(2) p(2) have "svc_queue st' ys"
      by (simp add: svc_queue_def set_state_def queue_of_def)
    with xs tr 1 None p(2) show ?thesis
      by (intro exI [of _ 1]) (simp add: quiet_def set_state_def)
  qed
qed

lemma service_results_pops:
  "service_results lp fuel st = Some (Cont st') \<Longrightarrow> svc_queue st xs \<Longrightarrow>
   \<exists>n\<le>length xs. svc_queue st' (drop n xs) \<and>
     null_results (sv_trace st') = null_results (sv_trace st) + n"
proof (induction fuel arbitrary: st xs)
  case 0
  then show ?case by simp
next
  case (Suc fuel)
  from Suc.prems(1) obtain busy st1 where b: "is_busy lp st = Some (busy, st1)"
    by (auto split: option.splits)
  from is_busy_quiet [OF b] Suc.prems(2) have q: "svc_queue st1 xs"
    "null_results (sv_trace st1) = null_results (sv_trace st)"
    by (auto simp: quiet_def intro: same_queue_svc_queue)
  show ?case
  proof (cases busy)
    case True
    with b Suc.prems(1) q show ?thesis by (auto intro!: exI [of _ 0])
  next
    case False
    with b Suc.prems(1) obtain st2 where st2: "handle_result lp st1 = Cont st2"
      "service_results lp fuel st2 = Some (Cont st')"
      by (auto split: outcome.splits)
    from handle_result_pops [OF st2(1) q(1)] obtain n where n: "n \<le> length xs"
      "svc_queue st2 (drop n xs)" "null_results (sv_trace st2) = null_results (sv_trace st1) + n"
      by blast
    from Suc.IH [OF st2(2) n(2)] obtain k where "k \<le> length (drop n xs)"
      "svc_queue st' (drop k (drop n xs))"
      "null_results (sv_trace st') = null_results (sv_trace st2) + k" by blast
    with n q show ?thesis by (intro exI [of _ "n + k"]) (simp add: add.commute)
  qed
qed

lemma service_session_pops:
  assumes "service_session lp fuel r st = Some (Cont st')" and "svc_queue st xs"
  shows "\<exists>n\<le>length xs. svc_queue st' (drop n xs) \<and>
    null_results (sv_trace st') = null_results (sv_trace st) + n"
proof -
  from assms(1) obtain st1 where 1: "obind (consume_input lp r st) (dispatch_notification lp) = Cont st1"
    by (auto simp: service_session_def split: outcome.splits)
  then have "quiet st st1"
    by (auto simp: obind_eq_Cont dest!: consume_input_quiet dispatch_notification_quiet
        intro: quiet_trans)
  then have q: "svc_queue st1 xs" "null_results (sv_trace st1) = null_results (sv_trace st)"
    using assms(2) by (auto simp: quiet_def intro: same_queue_svc_queue)
  have quiet_case: ?thesis if "quiet st1 st'"
    using that q by (auto simp: quiet_def intro!: exI [of _ 0] intro: same_queue_svc_queue)
  show ?thesis
  proof (cases "session_state (sv_session st1)")
    case SESSION_IDLE
    with assms(1) 1 have "quiet st1 st'"
      by (auto simp: service_session_def obind_eq_Cont dest!: service_idle_quiet service_flush_quiet
          intro: quiet_trans)
    then show ?thesis by (rule quiet_case)
  next
    case SESSION_QUEUED
    with assms(1) 1 have "quiet st1 st'"
      by (auto simp: service_session_def dest!: service_flush_quiet)
    then show ?thesis by (rule quiet_case)
  next
    case SESSION_FLUSHED
    with assms(1) 1 have "service_results lp fuel st1 = Some (Cont st')"
      by (simp add: service_session_def)
    from service_results_pops [OF this q(1)] q(2) show ?thesis by simp
  qed
qed

section \<open>When PQflush reports that everything was sent\<close>

text \<open>
  \<open>PQflush\<close> is documented to return 0 if successful or if the send queue is empty, 1 if it
  could not send all the data yet, and -1 if it failed.  The code takes 1 for success.
\<close>

fun run_services ::
    "'c libpq \<Rightarrow> nat \<Rightarrow> bool list \<Rightarrow> 'c svc \<Rightarrow> 'c svc outcome option" where
  "run_services lp fuel [] st = Some (Cont st)"
| "run_services lp fuel (r # rs) st =
     (case service_session lp fuel r st of
        None \<Rightarrow> None
      | Some (Cont st') \<Rightarrow> run_services lp fuel rs st'
      | Some (Die st') \<Rightarrow> Some (Die st')
      | Some (Stop e) \<Rightarrow> Some (Stop e))"

definition got_results :: "trace_event list \<Rightarrow> trace_event list" where
  "got_results tr = filter (\<lambda>e. case e of Got_result a r \<Rightarrow> True | _ \<Rightarrow> False) tr"

definition waiting_step :: "'c svc \<Rightarrow> 'c svc \<Rightarrow> bool" where
  "waiting_step st st' \<longleftrightarrow>
     got_results (sv_trace st') = got_results (sv_trace st) \<and>
     (session_state (sv_session st) \<noteq> SESSION_FLUSHED \<longrightarrow>
      session_state (sv_session st') \<noteq> SESSION_FLUSHED) \<and>
     (session_state (sv_session st) = SESSION_QUEUED \<longrightarrow>
      session_state (sv_session st') = SESSION_QUEUED)"

lemma waiting_refl [simp]: "waiting_step st st"
  by (simp add: waiting_step_def)

lemma waiting_trans: "waiting_step a b \<Longrightarrow> waiting_step b c \<Longrightarrow> waiting_step a c"
  by (simp add: waiting_step_def)

lemma waiting_simps [simp]:
  "waiting_step st (st\<lparr>sv_session := (sv_session st)\<lparr>conn := c\<rparr>\<rparr>)"
  "waiting_step st (st\<lparr>sv_pollout := b\<rparr>)"
  "waiting_step st (set_state SESSION_QUEUED (emit (Sent_query a) st))"
  "waiting_step st (emit (Printed_notification n) st)"
  by (simp_all add: waiting_step_def set_state_def emit_def got_results_def)

lemma with_conn_waiting:
  assumes "with_conn call k st = Cont st'"
    and "\<And>c r c' st1 st2. call c = (r, c') \<Longrightarrow> k r st1 = Cont st2 \<Longrightarrow> waiting_step st1 st2"
  shows "waiting_step st st'"
  using assms by (elim with_conn_Cont) (metis waiting_trans waiting_simps(1))

lemma call_send_cb_waiting:
  assumes "call_send_cb lp cb it k st = Cont st'"
    and "\<And>r st1 st2. k r st1 = Cont st2 \<Longrightarrow> waiting_step st1 st2"
  shows "waiting_step st st'"
proof (cases cb)
  case None
  with assms show ?thesis by simp
next
  case (Some c)
  with assms show ?thesis
    by (cases c) (auto simp: simple_command_send_def insert_query_send_def Let_def
        split: option.splits prod.splits if_splits intro: with_conn_waiting)
qed

lemma waiting_service_idle: "service_idle lp st = Cont st' \<Longrightarrow> waiting_step st st'"
  unfolding service_idle_def with_head_def
  by (auto split: if_splits option.splits elim!: call_send_cb_waiting)

lemma waiting_prologue:
  "obind (consume_input lp r st) (dispatch_notification lp) = Cont st' \<Longrightarrow> waiting_step st st'"
proof -
  assume "obind (consume_input lp r st) (dispatch_notification lp) = Cont st'"
  then obtain st1 where 1: "consume_input lp r st = Cont st1" "dispatch_notification lp st1 = Cont st'"
    by (auto simp: obind_eq_Cont)
  have "waiting_step st st1"
    using 1(1) by (auto simp: consume_input_def split: if_splits elim!: with_conn_waiting)
  moreover have "waiting_step st1 st'"
    using 1(2) unfolding dispatch_notification_def
    by (rule with_conn_waiting) (auto split: option.splits notify_callback.splits)
  ultimately show ?thesis by (rule waiting_trans)
qed

lemma waiting_flush:
  assumes "\<And>c. fst (PQflush lp c) = 0" and "service_flush lp st = Cont st'"
  shows "waiting_step st st'"
  using assms(2) unfolding service_flush_def
  by (rule with_conn_waiting) (use assms(1) in \<open>auto split: if_splits dest: arg_cong [of _ _ fst]\<close>)

lemma waiting_service:
  assumes "\<And>c. fst (PQflush lp c) = 0" and "service_session lp fuel r st = Some (Cont st')"
    and "session_state (sv_session st) \<noteq> SESSION_FLUSHED"
  shows "waiting_step st st'"
proof -
  from assms(2) obtain st1 where
    1: "obind (consume_input lp r st) (dispatch_notification lp) = Cont st1"
    by (auto simp: service_session_def split: outcome.splits)
  then have w: "waiting_step st st1" by (rule waiting_prologue)
  then have "session_state (sv_session st1) \<noteq> SESSION_FLUSHED"
    using assms(3) by (simp add: waiting_step_def)
  moreover have "waiting_step st1 st'" if "obind (service_idle lp st1) (service_flush lp) = Cont st'"
  proof -
    from that obtain st2 where "service_idle lp st1 = Cont st2" "service_flush lp st2 = Cont st'"
      by (auto simp: obind_eq_Cont)
    then show ?thesis
      by (intro waiting_trans [OF waiting_service_idle waiting_flush [OF assms(1)]])
  qed
  moreover have "waiting_step st1 st'" if "service_flush lp st1 = Cont st'"
    by (rule waiting_flush [OF assms(1) that])
  ultimately have "waiting_step st1 st'"
    using 1 assms(2)
    by (cases "session_state (sv_session st1)") (simp_all add: service_session_def)
  with w show ?thesis by (rule waiting_trans)
qed

lemma waiting_run:
  assumes "\<And>c. fst (PQflush lp c) = 0"
  shows "run_services lp fuel rs st = Some (Cont st') \<Longrightarrow>
    session_state (sv_session st) \<noteq> SESSION_FLUSHED \<Longrightarrow> waiting_step st st'"
proof (induction rs arbitrary: st)
  case Nil
  then show ?case by simp
next
  case (Cons r rs)
  then obtain st1 where st1: "service_session lp fuel r st = Some (Cont st1)"
    "run_services lp fuel rs st1 = Some (Cont st')"
    by (auto split: option.splits outcome.splits)
  from waiting_service [OF assms st1(1) Cons.prems(2)] have w: "waiting_step st st1" .
  with Cons.prems(2) have "session_state (sv_session st1) \<noteq> SESSION_FLUSHED"
    by (simp add: waiting_step_def)
  from waiting_trans [OF w Cons.IH [OF st1(2) this]] show ?case .
qed

section \<open>After the end of a query's results\<close>

text \<open>
  On a connection with no command in progress \<open>PQisBusy\<close> is false and \<open>PQgetResult\<close> returns a
  null pointer, every time they are called.
\<close>

definition idle_connection :: "'c libpq \<Rightarrow> 'c \<Rightarrow> bool" where
  "idle_connection lp c \<longleftrightarrow> PQisBusy lp c = (False, c) \<and> PQgetResult lp c = (None, c)"

definition command_callbacks :: "mem \<Rightarrow> addr list \<Rightarrow> bool" where
  "command_callbacks m xs =
     list_all (\<lambda>a. map_option item_result_cb (items m a) = Some (Some Simple_command_result)) xs"

lemma idle_turn:
  assumes "svc_queue st (a # xs)" and "command_callbacks (sv_mem st) (a # xs)"
    and "conn (sv_session st) = Some c" and "idle_connection lp c"
  shows "\<exists>st'. (\<forall>k. service_results lp (Suc k) st = service_results lp k st') \<and>
    svc_queue st' xs \<and> command_callbacks (sv_mem st') xs \<and> conn (sv_session st') = Some c \<and>
    sv_trace st' = sv_trace st @ [Got_result a None]"
proof -
  from assms(1) have q: "queue_of (sv_mem st, sv_session st) (a # xs)" "own_commands (sv_mem st) (a # xs)"
    by (simp_all add: svc_queue_def)
  have d: "a \<notin> set xs" using q(1) chain_distinct unfolding queue_of_def by fastforce
  from own_commands_Cons [OF q(2) d] pop_simple [OF q(1)] obtain s' where
    p: "pop_query_queue_item (sv_mem st, sv_session st) = Inr (free_one a (sv_mem st), s')"
    "queue_of (free_one a (sv_mem st), s') xs" "conn s' = conn (sv_session st)"
    "own_commands (free_one a (sv_mem st)) xs" by auto
  from assms(2) obtain it where it: "items (sv_mem st) a = Some it"
    "item_result_cb it = Some Simple_command_result"
    by (auto simp: command_callbacks_def)
  let ?st' = "(set_state SESSION_IDLE ((emit (Got_result a None) st)
     \<lparr>sv_mem := free_one a (sv_mem st), sv_session := s'\<rparr>))\<lparr>sv_pollout := True\<rparr>"
  have keep: "(sv_session st)\<lparr>conn := Some c\<rparr> = sv_session st"
    using assms(3) by simp
  have p': "pop_query_queue_item (sv_mem st, (sv_session st)\<lparr>conn := Some c\<rparr>) =
    Inr (free_one a (sv_mem st), s')"
    by (simp only: keep p(1))
  have hd: "queue_head (sv_session st) = Some a" using q(1) by (simp add: queue_of_def)
  have "is_busy lp st = Some (False, st)"
    using assms(3,4) by (simp add: is_busy_def idle_connection_def)
  moreover have "handle_result lp st = Cont ?st'"
    using assms(3,4) hd it p'
    by (simp add: handle_result_def with_conn_def idle_connection_def with_head_def
        simple_command_result_def with_queue_def emit_def)
  ultimately have "\<forall>k. service_results lp (Suc k) st = service_results lp k ?st'" by simp
  moreover have "svc_queue ?st' xs"
    using p by (simp add: svc_queue_def set_state_def queue_of_def)
  moreover have "command_callbacks (sv_mem ?st') xs"
    using assms(2) d by (auto simp: command_callbacks_def set_state_def list_all_iff)
  ultimately show ?thesis using p(3) assms(3)
    by (intro exI [of _ ?st']) (simp add: set_state_def emit_def)
qed

lemma idle_drains_queue:
  "svc_queue st xs \<Longrightarrow> command_callbacks (sv_mem st) xs \<Longrightarrow> conn (sv_session st) = Some c \<Longrightarrow>
   idle_connection lp c \<Longrightarrow>
   \<exists>st'. (\<forall>k. service_results lp (length xs + k) st = service_results lp k st') \<and>
     svc_queue st' [] \<and> conn (sv_session st') = Some c \<and>
     sv_trace st' = sv_trace st @ map (\<lambda>a. Got_result a None) xs"
proof (induction xs arbitrary: st)
  case Nil
  then show ?case by (intro exI [of _ st]) simp
next
  case (Cons a xs)
  from idle_turn [OF Cons.prems] obtain st1 where
    1: "\<forall>k. service_results lp (Suc k) st = service_results lp k st1" "svc_queue st1 xs"
    "command_callbacks (sv_mem st1) xs" "conn (sv_session st1) = Some c"
    "sv_trace st1 = sv_trace st @ [Got_result a None]" by blast
  from Cons.IH [OF 1(2,3,4) Cons.prems(4)] obtain st2 where
    "\<forall>k. service_results lp (length xs + k) st1 = service_results lp k st2" "svc_queue st2 []"
    "conn (sv_session st2) = Some c"
    "sv_trace st2 = sv_trace st1 @ map (\<lambda>a. Got_result a None) xs" by blast
  with 1 show ?case by (intro exI [of _ st2]) simp
qed

lemma idle_empty_queue:
  assumes "svc_queue st []" and "conn (sv_session st) = Some c" and "idle_connection lp c"
  shows "service_results lp (Suc k) st = Some (Stop Undefined)"
  using assms
  by (simp add: svc_queue_def queue_of_def is_busy_def idle_connection_def handle_result_def
      with_conn_def with_head_def)

section \<open>The counter's text\<close>

text \<open>Twenty bytes hold every 32-bit counter, so \<open>insert_query_send\<close> never gives up on it.\<close>

lemma insert_query_send_fits:
  "insert_query_send lp it k st =
     with_conn (PQsendQueryParams lp insert_query
       [show_int (sint (int_of_uintptr (item_cb_private it)))]) k st"
proof -
  let ?i = "sint (int_of_uintptr (item_cb_private it))"
  have "\<bar>?i\<bar> < 10 ^ 10"
    using sint_range_size [of "int_of_uintptr (item_cb_private it)"] by (simp add: word_size abs_less_iff)
  then have "length (show_int ?i) < 20" using length_show_int [of ?i 10] by simp
  then show ?thesis by (simp add: insert_query_send_def snprintf_def Let_def)
qed

end
