(* ===== verification/Simulation.thy ===== *)
theory Simulation
  imports C_Prelude
begin

text \<open>
  The contract of a refinement.  A concrete operation gives an output and a new state, or stops;
  its abstract counterpart does the same on the abstract state, and is None where the contract
  says nothing.  When every single operation agrees, so does every sequence of them.
\<close>

fun crun :: "('o \<Rightarrow> 'c \<Rightarrow> ('b \<times> 'c) res) \<Rightarrow> 'o list \<Rightarrow> 'c \<Rightarrow> ('b list \<times> 'c) res" where
  "crun cop [] c = Inr ([], c)"
| "crun cop (x # xs) c =
     rbind (cop x c) (\<lambda>(b, c'). rbind (crun cop xs c') (\<lambda>(bs, t). Inr (b # bs, t)))"

fun arun :: "('o \<Rightarrow> 'a \<Rightarrow> ('b \<times> 'a) res option) \<Rightarrow> 'o list \<Rightarrow> 'a \<Rightarrow> ('b list \<times> 'a) res option" where
  "arun aop [] a = Some (Inr ([], a))"
| "arun aop (x # xs) a =
     (case aop x a of
        None \<Rightarrow> None
      | Some (Inl e) \<Rightarrow> Some (Inl e)
      | Some (Inr (b, a')) \<Rightarrow>
          map_option (\<lambda>r. rbind r (\<lambda>(bs, t). Inr (b # bs, t))) (arun aop xs a'))"

locale simulation =
  fixes rel :: "'c \<Rightarrow> 'a \<Rightarrow> bool"
    and cop :: "'o \<Rightarrow> 'c \<Rightarrow> ('b \<times> 'c) res"
    and aop :: "'o \<Rightarrow> 'a \<Rightarrow> ('b \<times> 'a) res option"
  assumes steps: "rel c a \<Longrightarrow> aop x a = Some (Inr (b, a')) \<Longrightarrow> \<exists>c'. cop x c = Inr (b, c') \<and> rel c' a'"
    and stops: "rel c a \<Longrightarrow> aop x a = Some (Inl e) \<Longrightarrow> cop x c = Inl e"
begin

lemma run_steps:
  "rel c a \<Longrightarrow> arun aop xs a = Some (Inr (bs, a')) \<Longrightarrow>
     \<exists>c'. crun cop xs c = Inr (bs, c') \<and> rel c' a'"
proof (induction xs arbitrary: c a bs)
  case (Cons x xs)
  from Cons.prems(2) obtain b a1 bs1 where x: "aop x a = Some (Inr (b, a1))"
      "arun aop xs a1 = Some (Inr (bs1, a'))" "bs = b # bs1"
    by (auto simp: rbind_eq_Inr split: option.splits sum.splits)
  from steps[OF Cons.prems(1) x(1)] obtain c1 where "cop x c = Inr (b, c1)" "rel c1 a1" by blast
  with Cons.IH[OF this(2) x(2)] x(3) show ?case by auto
qed simp

lemma run_stops:
  "rel c a \<Longrightarrow> arun aop xs a = Some (Inl e) \<Longrightarrow> crun cop xs c = Inl e"
proof (induction xs arbitrary: c a)
  case (Cons x xs)
  show ?case
  proof (cases "aop x a = Some (Inl e)")
    case True
    then show ?thesis using stops[OF Cons.prems(1)] by simp
  next
    case False
    with Cons.prems(2) obtain b a1 where x: "aop x a = Some (Inr (b, a1))"
        "arun aop xs a1 = Some (Inl e)"
      by (auto simp: rbind_eq_Inl split: option.splits sum.splits)
    from steps[OF Cons.prems(1) x(1)] obtain c1 where "cop x c = Inr (b, c1)" "rel c1 a1" by blast
    with Cons.IH[OF this(2) x(2)] show ?thesis by simp
  qed
qed simp

text \<open>A run inside the contract does the same on both sides.\<close>

lemma run_simulates:
  "rel c a \<Longrightarrow> arun aop xs a = Some r \<Longrightarrow>
     (case r of
        Inl e \<Rightarrow> crun cop xs c = Inl e
      | Inr (bs, a') \<Rightarrow> \<exists>c'. crun cop xs c = Inr (bs, c') \<and> rel c' a')"
  using run_steps run_stops by (cases r) auto

end

end
