(* ===== verification/Async_Refinement.thy ===== *)
theory Async_Refinement
  imports Async_Queue_Laws Simulation
begin

text \<open>
  The queue of simple commands as its users see it: a list of query texts.  Enqueueing a command
  (\<open>simple_command_enqueue\<close>, with its allocations) and finishing the one at the head (reading its
  text and popping it, with its deallocations) refine appending to the list and removing its first
  element, as long as the allocator gives fresh, cleared blocks.
\<close>

datatype command = Enqueue string "string option" | Finish

text \<open>The text that \<open>simple_command_send\<close> would send for the head of the queue.\<close>

definition head_text :: "'c qstate \<Rightarrow> string option" where
  "head_text = (\<lambda>(m, s).
     (case queue_head s of
        None \<Rightarrow> None
      | Some a \<Rightarrow> (case items m a of None \<Rightarrow> None | Some it \<Rightarrow> strs m (item_cb_private it))))"

fun command_step :: "allocator \<Rightarrow> command \<Rightarrow> 'c qstate \<Rightarrow> (string option \<times> 'c qstate) res" where
  "command_step al (Enqueue txt cmt) st = rbind (simple_command_enqueue al txt cmt st) (\<lambda>st'. Inr (None, st'))"
| "command_step al Finish st = rbind (pop_query_queue_item st) (\<lambda>st'. Inr (head_text st, st'))"

text \<open>The abstract queue; beyond its capacity the contract promises nothing.\<close>

fun fifo_step :: "nat \<Rightarrow> command \<Rightarrow> string list \<Rightarrow> (string option \<times> string list) res option" where
  "fifo_step cap (Enqueue txt cmt) ts = (if length ts < cap then Some (Inr (None, ts @ [txt])) else None)"
| "fifo_step cap Finish [] = Some (Inl AssertFail)"
| "fifo_step cap Finish (t # ts) = Some (Inr (Some t, ts))"

section \<open>The refinement relation\<close>

definition command_at :: "mem \<Rightarrow> addr \<Rightarrow> string \<Rightarrow> bool" where
  "command_at m a t =
     (case items m a of
        None \<Rightarrow> False
      | Some it \<Rightarrow> item_send_cb it = Some Simple_command_send \<and>
          item_result_cb it = Some Simple_command_result \<and>
          item_free_cb it = Some Simple_command_free \<and> item_cb_private it \<noteq> 0 \<and>
          strs m (item_cb_private it) = Some t)"

text \<open>Blocks are fresh and cleared while fewer than \<open>cap\<close> strings are alive.\<close>

definition good_allocator :: "allocator \<Rightarrow> nat \<Rightarrow> bool" where
  "good_allocator al cap \<longleftrightarrow>
     (\<forall>m. finite (dom (items m)) \<longrightarrow>
        (\<exists>a junk. al_item al m = Some (a, junk) \<and> items m a = None \<and> item_next junk = None)) \<and>
     (\<forall>m. card (dom (strs m)) < cap \<longrightarrow> (\<exists>p. al_str al m = Some p \<and> p \<noteq> 0 \<and> strs m p = None))"

definition holds_at :: "'c qstate \<Rightarrow> addr list \<Rightarrow> string list \<Rightarrow> bool" where
  "holds_at st xs ts \<longleftrightarrow>
     finite (dom (items (fst st))) \<and> card (dom (strs (fst st))) = length ts \<and>
     queue_of st xs \<and> list_all2 (command_at (fst st)) xs ts \<and>
     distinct (map (private_of (fst st)) xs)"

definition holds_texts :: "'c qstate \<Rightarrow> string list \<Rightarrow> bool" where
  "holds_texts st ts \<longleftrightarrow> (\<exists>xs. holds_at st xs ts)"

lemma command_at_owns: "command_at m a t \<Longrightarrow> owns_command m a"
  by (auto simp: command_at_def owns_command_def split: option.splits)

lemma command_at_upd_item:
  "command_at (upd_item x (item_next_update f) m) b t = command_at m b t"
  "b \<noteq> x \<Longrightarrow> command_at (upd_item x g m) b t = command_at m b t"
  by (auto simp: command_at_def upd_item_def split: option.splits)

lemma dom_upd_item: "dom (items (upd_item x f m)) = dom (items m)"
  by (auto simp: upd_item_def split: if_splits)

lemma push_keeps_command:
  assumes "push_query_queue_item (Some a) c1 c2 c3 p cmt (m, s) = Inr (m', s')" and "b \<noteq> a"
  shows "command_at m' b t = command_at m b t"
  using push_memory [OF assms(1)] assms(2)
  by (elim conjE disjE exE) (simp_all only: command_at_upd_item simp_thms)

lemma push_keeps_allocated:
  assumes "push_query_queue_item (Some a) c1 c2 c3 p cmt (m, s) = Inr (m', s')"
  shows "dom (items m') = dom (items m) \<and> strs m' = strs m"
  using push_memory [OF assms] by (elim conjE disjE exE) (simp_all only: dom_upd_item strs_upd_item simp_thms)

lemma card_dom_insert:
  fixes f :: "64 word \<Rightarrow> 'b option"
  assumes "f p = None"
  shows "card (insert p (dom f)) = Suc (card (dom f))"
  by (rule card_insert_disjoint [OF finite]) (simp only: domIff assms not_not)

lemma card_dom_delete:
  fixes f :: "64 word \<Rightarrow> 'b option"
  assumes "f p = Some y"
  shows "Suc (card (dom (f(p := None)))) = card (dom f)"
  using card.remove [OF finite, of p "dom f"] assms by (simp only: domI dom_fun_upd simp_thms if_True)

lemma push_keeps_session:
  assumes "push_query_queue_item (Some a) c1 c2 c3 p cmt (m, s) = Inr (m', s')"
  shows "conn s' = conn s \<and> session_state s' = session_state s"
  using assms by (auto simp: push_query_queue_item_def link_item_def res_iffs split: option.splits if_splits)

lemma enqueue_holds_at:
  assumes "good_allocator al cap" and "holds_at (m, s) xs ts" and "length ts < cap"
  shows "\<exists>a m' s'. simple_command_enqueue al txt cmt (m, s) = Inr (m', s') \<and>
    holds_at (m', s') (xs @ [a]) (ts @ [txt]) \<and> items m a = None \<and>
    (\<forall>b. b \<notin> set (xs @ [a]) \<longrightarrow> items m' b = items m b) \<and>
    conn s' = conn s \<and> session_state s' = session_state s"
proof -
  have q: "queue_of (m, s) xs" "list_all2 (command_at m) xs ts" "distinct (map (private_of m) xs)"
    and fin: "finite (dom (items m))" and card: "card (dom (strs m)) = length ts"
    using assms(2) by (auto simp: holds_at_def)
  obtain a junk where a: "al_item al m = Some (a, junk)" "items m a = None" "item_next junk = None"
    using assms(1) fin by (auto simp: good_allocator_def)
  let ?m1 = "m\<lparr>items := (items m)(a \<mapsto> junk)\<rparr>"
  obtain p where p: "al_str al ?m1 = Some p" "p \<noteq> 0" "strs m p = None"
    using assms(1,3) card by (auto simp: good_allocator_def dest: spec [of _ ?m1])
  let ?m2 = "?m1\<lparr>strs := (strs m)(p \<mapsto> txt)\<rparr>"
  have n: "a \<notin> set xs" using q(1) a(2) chain_allocated unfolding queue_of_def by fastforce
  then have q2: "queue_of (?m2, s) xs" using q(1) by (simp add: queue_of_def)
  have "items ?m2 a = Some junk" by simp
  from push_appends [OF q2 this a(3) n, of Simple_command_send Simple_command_result
      "Some Simple_command_free" p cmt] obtain m' s' where
    r: "push_query_queue_item (Some a) (Some Simple_command_send) (Some Simple_command_result)
       (Some Simple_command_free) p cmt (?m2, s) = Inr (m', s')" "queue_of (m', s') (xs @ [a])"
    "items m' a = Some (fill_item (Some Simple_command_send) (Some Simple_command_result)
       (Some Simple_command_free) p cmt junk)"
    "\<forall>b. b \<notin> set (xs @ [a]) \<longrightarrow> items m' b = items ?m2 b" by blast
  have mem: "dom (items m') = insert a (dom (items m))" "strs m' = (strs m)(p \<mapsto> txt)"
    using push_keeps_allocated [OF r(1)] by auto
  have new: "command_at m' a txt" "private_of m' a = Some p"
    using r(3) p(2) mem(2)
    by (auto simp: command_at_def private_of_def fill_item_def Let_def split: option.splits)
  have old: "command_at m' b t \<and> private_of m' b = private_of m b \<and> private_of m b \<noteq> Some p"
    if "b \<in> set xs" "command_at m b t" for b t
  proof -
    have "b \<noteq> a" using that(1) n by blast
    moreover have "command_at ?m2 b t"
      using that(2) \<open>b \<noteq> a\<close> p(3) by (auto simp: command_at_def split: option.splits)
    ultimately show ?thesis
      using push_keeps_command [OF r(1)] push_keeps_private [OF r(1)] that(2) p(3)
      by (auto simp: private_of_def command_at_def split: option.splits)
  qed
  have "list_all2 (command_at m') xs ts"
    using q(2) old by (auto elim!: list.rel_mono_strong)
  moreover have "map (private_of m') xs = map (private_of m) xs" "Some p \<notin> private_of m ` set xs"
    using q(2) old by (auto simp: list_all2_conv_all_nth in_set_conv_nth) (metis nth_mem)+
  ultimately have "holds_at (m', s') (xs @ [a]) (ts @ [txt])"
    using r(2) new q(2,3) fin mem card p(3)
    by (auto simp: holds_at_def list_all2_appendI card_dom_insert simp del: map_eq_conv)
  moreover have "simple_command_enqueue al txt cmt (m, s) = Inr (m', s')"
    using a(1) p(1) r(1) by (simp add: simple_command_enqueue_def malloc_item_def strdup_def)
  ultimately show ?thesis
    using a(2) r(4) push_keeps_session [OF r(1)]
    by (intro exI [of _ a] exI [of _ m'] exI [of _ s']) auto
qed

lemma enqueue_holds:
  assumes "good_allocator al cap" and "holds_texts st ts" and "length ts < cap"
  shows "\<exists>st'. simple_command_enqueue al txt cmt st = Inr st' \<and> holds_texts st' (ts @ [txt])"
  using assms enqueue_holds_at [of al cap "fst st" "snd st"] by (fastforce simp: holds_texts_def)

lemma finish_holds:
  assumes "holds_texts st (t # ts)"
  shows "head_text st = Some t \<and> (\<exists>st'. pop_query_queue_item st = Inr st' \<and> holds_texts st' ts)"
proof -
  obtain m s where st: "st = (m, s)" by (cases st)
  obtain a xs where q: "queue_of (m, s) (a # xs)" "command_at m a t" "list_all2 (command_at m) xs ts"
      "distinct (map (private_of m) (a # xs))" and fin: "finite (dom (items m))"
      and card: "card (dom (strs m)) = Suc (length ts)"
    using assms st by (auto simp: holds_texts_def holds_at_def list_all2_Cons2)
  obtain it where it: "items m a = Some it" "strs m (item_cb_private it) = Some t"
    using q(2) by (auto simp: command_at_def split: option.splits)
  obtain s' where s': "pop_query_queue_item (m, s) = Inr (free_one a m, s')"
      "queue_of (free_one a m, s') xs"
    using pop_simple [OF q(1) command_at_owns [OF q(2)]] by blast
  have n: "a \<notin> set xs" using q(1) chain_distinct unfolding queue_of_def by fastforce
  have old: "command_at (free_one a m) b u \<and> private_of (free_one a m) b = private_of m b"
    if "b \<in> set xs" "command_at m b u" for b u
  proof -
    have "b \<noteq> a" "private_of m b \<noteq> private_of m a" using that(1) n q(4) by auto (metis image_eqI)
    then show ?thesis
      using that(2) it(1)
      by (auto simp: command_at_def private_of_def free_one_def split: option.splits)
  qed
  have "list_all2 (command_at (free_one a m)) xs ts"
    using q(3) old by (auto elim!: list.rel_mono_strong)
  moreover have "map (private_of (free_one a m)) xs = map (private_of m) xs"
    using n by (intro map_cong refl private_of_free_one) auto
  moreover have "card (dom (strs (free_one a m))) = length ts"
    using card_dom_delete [of "strs m", OF it(2)] card it(1) by (simp add: free_one_def)
  ultimately have "holds_texts (free_one a m, s') ts"
    using s'(2) q(4) fin by (auto simp: holds_texts_def holds_at_def simp del: map_eq_conv intro!: exI [of _ xs])
  moreover have "head_text (m, s) = Some t"
    using q(1) it by (simp add: head_text_def queue_of_def)
  ultimately show ?thesis using s'(1) st by blast
qed

lemma finish_empty: "holds_texts st [] \<Longrightarrow> pop_query_queue_item st = Inl AssertFail"
  by (auto simp: holds_texts_def holds_at_def pop_query_queue_item_def unlink_head_empty)

definition text_queue :: "allocator \<Rightarrow> nat \<Rightarrow> 'c qstate \<Rightarrow> string list \<Rightarrow> bool" where
  "text_queue al cap st ts \<longleftrightarrow> good_allocator al cap \<and> holds_texts st ts"

lemma command_step_simulates:
  assumes "text_queue al cap st ts" and "fifo_step cap x ts = Some (Inr (b, ts'))"
  shows "\<exists>st'. command_step al x st = Inr (b, st') \<and> text_queue al cap st' ts'"
proof (cases x)
  case (Enqueue sql cmt)
  with assms(2) have "length ts < cap" "b = None" "ts' = ts @ [sql]" by (auto split: if_splits)
  with Enqueue show ?thesis
    using enqueue_holds [of al cap st ts sql cmt] assms(1) by (auto simp: text_queue_def)
next
  case Finish
  with assms(2) obtain t where "ts = t # ts'" "b = Some t" by (cases ts) auto
  with Finish show ?thesis
    using finish_holds [of st t ts'] assms(1) by (auto simp: text_queue_def)
qed

lemma command_step_stops:
  assumes "text_queue al cap st ts" and "fifo_step cap x ts = Some (Inl e)"
  shows "command_step al x st = Inl e"
proof -
  have "x = Finish \<and> ts = [] \<and> e = AssertFail"
    using assms(2) by (cases "(cap, x, ts)" rule: fifo_step.cases) (auto split: if_splits)
  then show ?thesis using assms(1) finish_empty [of st] by (simp add: text_queue_def)
qed

interpretation command_queue: simulation
  "text_queue al cap :: 'c qstate \<Rightarrow> string list \<Rightarrow> bool" "command_step al" "fifo_step cap" for al cap
  by unfold_locales (rule command_step_simulates command_step_stops; assumption)+

end
