(* ===== verification/Async_Main.thy ===== *)
theory Async_Main
  imports Async_Session_Laws Async_Refinement
begin

text \<open>
  The whole of \<open>sample_mainloop\<close> and \<open>main\<close> of
  \<open>postgresql/blog_libpq_pipeline/async_sample.c\<close>.

  \<open>poll()\<close> is the environment: the loop runs against a list of polls, each giving for the events
  asked for either the readable sockets or an error, and is blocked in the next poll when the list
  ends.  \<open>main\<close> starts with uninitialised memory from malloc in its session and in the first
  poll entries; both are arguments.  The line that reads as a declaration of
  \<open>sample_mainloop\<close> (280) is read as the head of its definition, and the argument of
  \<open>error_die\<close> as the global table of sessions.
\<close>

type_synonym 'c poll = "bool list \<Rightarrow> (nat \<Rightarrow> bool) option"

fun sample_mainloop ::
    "'c libpq \<Rightarrow> nat \<Rightarrow> (nat \<Rightarrow> bool) \<Rightarrow> 'c poll list \<Rightarrow> 'c app \<Rightarrow> 'c app outcome option" where
  "sample_mainloop lp fuel revents [] ap = map_option fst (mainloop_pass lp fuel revents ap)"
| "sample_mainloop lp fuel revents (p # ps) ap =
     (case mainloop_pass lp fuel revents ap of
        None \<Rightarrow> None
      | Some (Cont ap', events) \<Rightarrow>
          (case p events of
             None \<Rightarrow> Some (Die ap')
           | Some revents' \<Rightarrow> sample_mainloop lp fuel revents' ps ap')
      | Some (r, events) \<Rightarrow> Some r)"

text \<open>How a run of the program stands: blocked in \<open>poll()\<close>, exited, or stopped.\<close>

datatype 'c ending = Blocked "'c app" | Exited "'c app" int | Stopped stop

definition die :: "nat \<Rightarrow> 'c app \<Rightarrow> 'c ending option" where
  "die fuel ap =
     (case error_die fuel ap of
        None \<Rightarrow> None
      | Some (Inl e) \<Rightarrow> Some (Stopped e)
      | Some (Inr (ap', e)) \<Rightarrow> Some (case e of Exit n \<Rightarrow> Exited ap' n | _ \<Rightarrow> Stopped e))"

text \<open>
  \<open>argv i\<close> is None where the vector holds its final null pointer; \<open>junk\<close> is the session malloc
  returns and \<open>ins\<close> the address of \<open>insert_queue_item\<close>.
\<close>

definition async_main ::
    "'c libpq \<Rightarrow> allocator \<Rightarrow> nat \<Rightarrow> 'c app_session \<Rightarrow> addr \<Rightarrow> (nat \<Rightarrow> bool) \<Rightarrow> 'c poll list \<Rightarrow>
     int \<Rightarrow> (nat \<Rightarrow> string option) \<Rightarrow> mem \<Rightarrow> 'c ending option" where
  "async_main lp al fuel junk ins revents polls argc argv m =
     (if argc \<noteq> 1 then
        die fuel \<lparr>app_mem = m, sessions = [], nsessions_slots = 0, nsessions = 0, finished = []\<rparr>
      else
        (let ap = \<lparr>app_mem = m, sessions = [junk], nsessions_slots = 1, nsessions = 1, finished = []\<rparr>
         in case dbconnect lp (argv 1) junk of
              Die s \<Rightarrow> die fuel (ap\<lparr>sessions := [s]\<rparr>)
            | Stop e \<Rightarrow> Some (Stopped e)
            | Cont s \<Rightarrow>
                (case main_enqueue al ins (m, s) of
                   Inl e \<Rightarrow> Some (Stopped e)
                 | Inr (m', s') \<Rightarrow>
                     (case sample_mainloop lp fuel revents polls
                             (ap\<lparr>app_mem := m', sessions := [s']\<rparr>) of
                        None \<Rightarrow> None
                      | Some (Cont ap') \<Rightarrow> Some (Blocked ap')
                      | Some (Die ap') \<Rightarrow> die fuel ap'
                      | Some (Stop e) \<Rightarrow> Some (Stopped e)))))"

section \<open>A connection that works\<close>

text \<open>
  What libpq documents of a connection without trouble: reading input and sending a query give 1,
  and flushing gives 0 when everything has been sent.
\<close>

definition healthy :: "'c libpq \<Rightarrow> bool" where
  "healthy lp \<longleftrightarrow>
     (\<forall>c. fst (PQconsumeInput lp c) = 1 \<and> fst (PQflush lp c) = 0 \<and>
        (\<forall>q. fst (PQsendQuery lp q c) = 1))"

text \<open>A session whose head item is a command ready to be sent or already sent.\<close>

definition at_command :: "mem \<Rightarrow> 'c app_session \<Rightarrow> bool" where
  "at_command m s \<longleftrightarrow>
     conn s \<noteq> None \<and> session_state s \<noteq> SESSION_FLUSHED \<and>
     (\<exists>a it. queue_head s = Some a \<and> items m a = Some it \<and>
        item_send_cb it = Some Simple_command_send \<and> strs m (item_cb_private it) \<noteq> None)"

lemma with_conn_answer:
  "conn (sv_session st) = Some c \<Longrightarrow>
   with_conn call k st =
     k (fst (call c)) (st\<lparr>sv_session := (sv_session st)\<lparr>conn := Some (snd (call c))\<rparr>\<rparr>)"
  by (simp add: with_conn_def split_beta)

text \<open>The parts of a state that a call on the connection and the trace leave alone.\<close>

definition advances :: "'c svc \<Rightarrow> session_state \<Rightarrow> 'c svc outcome \<Rightarrow> bool" where
  "advances st x r \<longleftrightarrow>
     (\<exists>st' c. r = Cont st' \<and> sv_mem st' = sv_mem st \<and>
        sv_session st' = (sv_session st)\<lparr>conn := Some c, session_state := x\<rparr>)"

lemma healthy_prologue:
  assumes "healthy lp" and "conn (sv_session st) = Some c"
  shows "advances st (session_state (sv_session st))
    (obind (consume_input lp r st) (dispatch_notification lp))"
proof -
  have d: "advances t (session_state (sv_session t)) (dispatch_notification lp t)"
    if "conn (sv_session t) = Some c'" for t c'
    using that
    by (auto simp: dispatch_notification_def with_conn_answer advances_def emit_def
        split: option.splits notify_callback.splits)
  show ?thesis
  proof (cases r)
    case True
    then show ?thesis
      using assms d [of "st\<lparr>sv_session := (sv_session st)\<lparr>conn := Some (snd (PQconsumeInput lp c))\<rparr>\<rparr>"]
      by (simp add: consume_input_def with_conn_answer healthy_def advances_def)
  next
    case False
    then show ?thesis using d [OF assms(2)] by (simp add: consume_input_def)
  qed
qed

lemma healthy_flush:
  "healthy lp \<Longrightarrow> conn (sv_session st) = Some c \<Longrightarrow>
     advances st (session_state (sv_session st)) (service_flush lp st)"
  by (auto simp: service_flush_def with_conn_answer healthy_def advances_def)

lemma healthy_service:
  assumes "healthy lp" and "at_command (sv_mem st) (sv_session st)"
  shows "\<exists>r. service_session lp fuel readable st = Some r \<and> advances st SESSION_QUEUED r"
proof -
  obtain c a it q where h: "conn (sv_session st) = Some c" "queue_head (sv_session st) = Some a"
      "items (sv_mem st) a = Some it" "item_send_cb it = Some Simple_command_send"
      "strs (sv_mem st) (item_cb_private it) = Some q" "session_state (sv_session st) \<noteq> SESSION_FLUSHED"
    using assms(2) by (auto simp: at_command_def)
  obtain st1 c1 where 1: "obind (consume_input lp readable st) (dispatch_notification lp) = Cont st1"
      "sv_mem st1 = sv_mem st" "sv_session st1 = (sv_session st)\<lparr>conn := Some c1\<rparr>"
    using healthy_prologue [OF assms(1) h(1), of readable] by (auto simp: advances_def)
  show ?thesis
  proof (cases "session_state (sv_session st)")
    case SESSION_IDLE
    let ?s2 = "(sv_session st)\<lparr>conn := Some (snd (PQsendQuery lp q c1)), session_state := SESSION_QUEUED\<rparr>"
    obtain st2 where 2: "service_idle lp st1 = Cont st2" "sv_mem st2 = sv_mem st" "sv_session st2 = ?s2"
      using 1 h assms(1)
      by (simp add: service_idle_def with_head_def simple_command_send_def with_conn_answer healthy_def
          set_state_def emit_def)
    with healthy_flush [OF assms(1), of st2] 1 SESSION_IDLE show ?thesis
      by (auto simp: service_session_def advances_def)
  next
    case SESSION_QUEUED
    with healthy_flush [OF assms(1), of st1] 1 show ?thesis
      by (auto simp: service_session_def advances_def)
  qed (use h in simp)
qed

lemma healthy_pass:
  assumes "healthy lp" and "at_command (app_mem ap) s" and "sessions ap = [s]" and "nsessions ap = 1"
  shows "\<exists>c. mainloop_pass lp fuel revents ap =
      Some (Cont (ap\<lparr>sessions := [s\<lparr>conn := Some c, session_state := SESSION_QUEUED\<rparr>]\<rparr>), [True])"
proof -
  let ?st = "\<lparr>sv_mem = app_mem ap, sv_session = s, sv_pollout = False, sv_trace = []\<rparr>"
  obtain st' c where "service_session lp fuel (revents 0) ?st = Some (Cont st')"
      "sv_mem st' = app_mem ap" "sv_session st' = s\<lparr>conn := Some c, session_state := SESSION_QUEUED\<rparr>"
    using healthy_service [OF assms(1), of ?st fuel "revents 0"] assms(2) by (auto simp: advances_def)
  then show ?thesis using assms(3,4) by (auto simp: mainloop_pass_def wants_pollout_def)
qed

lemma healthy_mainloop:
  assumes "healthy lp" and "list_all (\<lambda>p. \<forall>ev. p ev \<noteq> None) polls"
  shows "at_command (app_mem ap) s \<Longrightarrow> sessions ap = [s] \<Longrightarrow> nsessions ap = 1 \<Longrightarrow>
    \<exists>c. sample_mainloop lp fuel revents polls ap =
      Some (Cont (ap\<lparr>sessions := [s\<lparr>conn := Some c, session_state := SESSION_QUEUED\<rparr>]\<rparr>))"
  using assms(2)
proof (induction polls arbitrary: ap s revents)
  case Nil
  then show ?case using healthy_pass [OF assms(1)] by fastforce
next
  case (Cons p polls)
  obtain c where c: "mainloop_pass lp fuel revents ap =
      Some (Cont (ap\<lparr>sessions := [s\<lparr>conn := Some c, session_state := SESSION_QUEUED\<rparr>]\<rparr>), [True])"
    using healthy_pass [OF assms(1) Cons.prems(1-3)] by blast
  let ?s = "s\<lparr>conn := Some c, session_state := SESSION_QUEUED\<rparr>"
  obtain rev' where "p [True] = Some rev'" using Cons.prems(4) by auto
  moreover have "at_command (app_mem (ap\<lparr>sessions := [?s]\<rparr>)) ?s"
    using Cons.prems(1) by (simp add: at_command_def)
  ultimately show ?case
    using c Cons.IH [of "ap\<lparr>sessions := [?s]\<rparr>" ?s rev'] Cons.prems(3,4) by simp
qed


section \<open>Start-up\<close>

definition query_text :: "mem \<Rightarrow> addr \<Rightarrow> string option" where
  "query_text m a = (case items m a of None \<Rightarrow> None | Some it \<Rightarrow> strs m (item_cb_private it))"

lemma command_at_text: "command_at m a t \<Longrightarrow> query_text m a = Some t"
  by (auto simp: command_at_def query_text_def split: option.splits)

text \<open>
  \<open>main\<close> queues the two commands and the insert item in that order; the text to be sent for
  each command is its comment, since the arguments of \<open>simple_command_enqueue\<close> are swapped.
\<close>

lemma main_enqueue_queues:
  assumes "good_allocator al 2" and "queue_of (m, s) []" and "finite (dom (items m))"
    and "strs m = Map.empty" and "items m ins = Some it" and "item_next it = None"
  shows "\<exists>a b m' s'. main_enqueue al ins (m, s) = Inr (m', s') \<and> queue_of (m', s') [a, b, ins] \<and>
    command_at m' a ''create table'' \<and> command_at m' b ''delete contents'' \<and>
    item_count (items m' ins) = 1 \<and> conn s' = conn s \<and> session_state s' = session_state s"
proof -
  let ?s = "s\<lparr>notify_cb := Some Handle_one_notification\<rparr>"
  have "holds_at (m, ?s) [] []" using assms(2-4) by (simp add: holds_at_def queue_of_def)
  from enqueue_holds_at [OF assms(1) this, of "''create table''"
      "Some ''CREATE TABLE IF NOT EXISTS dummy(id serial primary key, dummyval integer);''"]
  obtain a m1 s1 where 1: "simple_command_enqueue al ''create table''
      (Some ''CREATE TABLE IF NOT EXISTS dummy(id serial primary key, dummyval integer);'') (m, ?s) =
      Inr (m1, s1)" "holds_at (m1, s1) [a] [''create table'']" "items m a = None"
      "\<forall>b. b \<noteq> a \<longrightarrow> items m1 b = items m b" "conn s1 = conn s" "session_state s1 = session_state s"
    by auto
  from enqueue_holds_at [OF assms(1) 1(2), of "''delete contents''" "Some ''DELETE FROM dummy;''"]
  obtain b m2 s2 where 2: "simple_command_enqueue al ''delete contents''
      (Some ''DELETE FROM dummy;'') (m1, s1) = Inr (m2, s2)"
      "holds_at (m2, s2) [a, b] [''create table'', ''delete contents'']" "items m1 b = None"
      "\<forall>c. c \<notin> {a, b} \<longrightarrow> items m2 c = items m1 c" "conn s2 = conn s" "session_state s2 = session_state s"
    using 1(5,6) by auto
  have ne1: "ins \<noteq> a" using 1(3) assms(5) by auto
  then have "items m1 ins = Some it" using 1(4) assms(5) by simp
  then have ne: "ins \<noteq> a" "ins \<noteq> b" and ins: "items m2 ins = Some it"
    using ne1 2(3,4) by auto
  have q2: "queue_of (m2, s2) [a, b]" "command_at m2 a ''create table''" "command_at m2 b ''delete contents''"
    using 2(2) by (simp_all add: holds_at_def)
  obtain m3 s3 where 3: "insert_query_enqueue (Some ins) 1 (m2, s2) = Inr (m3, s3)"
      "queue_of (m3, s3) [a, b, ins]" "item_count (items m3 ins) = 1"
    using insert_enqueue_appends [OF q2(1) ins assms(6), of 1] ne by auto
  note push = 3(1) [unfolded insert_query_enqueue_def]
  have "command_at m3 a ''create table''" "command_at m3 b ''delete contents''"
    using push_keeps_command [OF push] q2(2,3) ne by simp_all
  moreover have "conn s3 = conn s" "session_state s3 = session_state s"
    using push_keeps_session [OF push] 2(5,6) by simp_all
  moreover have "main_enqueue al ins (m, s) = Inr (m3, s3)"
    using 1(1) 2(1) 3(1) by (simp add: main_enqueue_def)
  ultimately show ?thesis using 3 by blast
qed

text \<open>
  Two ways to end before the loop.  Every argument count but 1 exits with status 1.  When the
  connection fails, the queue of the session is still what malloc returned, and
  \<open>kill_sessions\<close> walks it.
\<close>

lemma async_main_refuses_argument:
  "argc \<noteq> 1 \<Longrightarrow>
     async_main lp al (Suc fuel) junk ins revents polls argc argv m =
       Some (Exited \<lparr>app_mem = m, sessions = [], nsessions_slots = 0, nsessions = 0, finished = []\<rparr> 1)"
  by (simp add: async_main_def die_def error_die_def)

lemma failed_connection_walks_junk:
  assumes "\<not> PQstatus_ok lp (PQconnectdb lp (argv 1))"
    and "queue_head junk = Some a" and "items m a = None"
  shows "async_main lp al (Suc fuel) junk ins revents polls 1 argv m = Some (Stopped Undefined)"
  using assms
  by (simp add: async_main_def dbconnect_def die_def error_die_def pop_query_queue_item_def
      unlink_head_def Let_def)

end
