(* ===== verification/Async_Properties.thy ===== *)
theory Async_Properties
  imports Async_Main
begin

text \<open>
  The properties of the async libpq program, each with a witness on a small concrete state.
\<close>

section \<open>Concrete states\<close>

definition command_item :: "addr option \<Rightarrow> 64 word \<Rightarrow> queue_item" where
  "command_item nxt p =
     \<lparr>item_next = nxt, item_send_cb = Some Simple_command_send,
      item_result_cb = Some Simple_command_result, item_free_cb = Some Simple_command_free,
      item_cb_private = p, item_comment = strncpy 63 ''c'', item_pad = NUL\<rparr>"

definition counter_item :: "addr option \<Rightarrow> 64 word \<Rightarrow> queue_item" where
  "counter_item nxt p =
     \<lparr>item_next = nxt, item_send_cb = Some Insert_query_send,
      item_result_cb = Some Insert_query_result, item_free_cb = Some Insert_query_free,
      item_cb_private = p, item_comment = strncpy 63 ''c'', item_pad = NUL\<rparr>"

definition blank_item :: queue_item where
  "blank_item =
     \<lparr>item_next = None, item_send_cb = None, item_result_cb = None, item_free_cb = None,
      item_cb_private = 0, item_comment = strncpy 63 [], item_pad = NUL\<rparr>"

definition session_with :: "addr option \<Rightarrow> addr option \<Rightarrow> nat app_session" where
  "session_with h t =
     \<lparr>conn = Some 0, session_state = SESSION_IDLE, queue_head = h, queue_tail = t,
      notify_cb = None\<rparr>"

definition two_commands :: mem where
  "two_commands =
     \<lparr>items = [1 \<mapsto> command_item (Some 2) 1, 2 \<mapsto> command_item None 2],
      strs = [1 \<mapsto> ''a'', 2 \<mapsto> ''b'']\<rparr>"

definition blank_memory :: mem where
  "blank_memory =
     \<lparr>items = [1 \<mapsto> blank_item, 2 \<mapsto> blank_item, 9 \<mapsto> blank_item], strs = Map.empty\<rparr>"

definition counter_memory :: "addr option \<Rightarrow> mem" where
  "counter_memory nxt =
     \<lparr>items = [1 \<mapsto> counter_item nxt 7, 2 \<mapsto> command_item None 2], strs = [2 \<mapsto> ''b'']\<rparr>"

lemmas concrete_defs =
  command_item_def counter_item_def blank_item_def session_with_def two_commands_def
  blank_memory_def counter_memory_def

section \<open>The queue\<close>

text \<open>C1: items pushed on an empty queue are unlinked in the order they were pushed, whatever their
  callbacks, and the queue is empty again afterwards (pop asserts on it).\<close>

theorem push_then_unlink_is_fifo:
  assumes "queue_of st []" and "distinct ys" and "list_all (ready st) ys"
  shows "\<exists>s1 s2.
    enq_all (\<lambda>a. push_query_queue_item (Some a) (Some c1) (Some c2) c3 p cmt) ys st = Inr s1 \<and>
    deq_n unlink_head (length ys) s1 = Inr (ys, s2) \<and> queue_of s2 [] \<and>
    pop_query_queue_item s2 = Inl AssertFail"
proof -
  from query_queue.first_in_first_out [OF assms, of c1 c2 c3 p cmt] obtain s1 s2 where
    "enq_all (\<lambda>a. push_query_queue_item (Some a) (Some c1) (Some c2) c3 p cmt) ys st = Inr s1"
    "deq_n unlink_head (length ys) s1 = Inr (ys, s2)" "queue_of s2 []" by blast
  moreover from \<open>queue_of s2 []\<close> have "pop_query_queue_item s2 = Inl AssertFail"
    by (simp add: pop_query_queue_item_def unlink_head_empty)
  ultimately show ?thesis by blast
qed

theorem push_then_unlink_is_fifo_witness:
  "\<exists>s1 s2.
    enq_all (\<lambda>a. push_query_queue_item (Some a) (Some Simple_command_send)
      (Some Simple_command_result) None 0 None) [2, 1] (blank_memory, session_with None None) = Inr s1 \<and>
    deq_n unlink_head (length [2, 1::nat]) s1 = Inr ([2, 1], s2) \<and> queue_of s2 [] \<and>
    pop_query_queue_item s2 = Inl AssertFail"
  by (rule push_then_unlink_is_fifo)
    (simp_all add: queue_of_def ready_def blank_memory_def session_with_def blank_item_def)

text \<open>Popping a simple command at the head of the queue unlinks it, frees the item and its query
  text, and leaves the rest of the queue and the session as they were.\<close>

lemma pop_frees_simple_command:
  assumes "queue_of (m, s) (a # xs)" and "owns_command m a"
  shows "\<exists>s'. pop_query_queue_item (m, s) = Inr (free_one a m, s') \<and>
    queue_of (free_one a m, s') xs \<and> conn s' = conn s \<and> session_state s' = session_state s"
  by (rule pop_simple [OF assms])

text \<open>When the insert item is alone in the queue, popping it puts it back with its counter
  increased by one, so the stream of inserts goes on.\<close>

lemma pop_requeues_lone_insert:
  assumes "queue_of (m, s) [a]" and "insert_item (items m a)"
  shows "\<exists>m' s'. pop_query_queue_item (m, s) = Inr (m', s') \<and> queue_of (m', s') [a] \<and>
    insert_item (items m' a) \<and> item_count (items m' a) = item_count (items m a) + 1"
  using pop_insert_alone [OF assms] by blast



text \<open>The comment array of an item that was pushed with a comment holds a terminator only when the
  comment is shorter than 63 characters; the zero that line 168 writes for longer ones lands in
  the byte after the array.\<close>

lemma comment_terminated_iff_short:
  assumes "push_query_queue_item (Some a) c1 c2 c3 p (Some cmt) (m, s) = Inr (m', s')"
    and "NUL \<notin> set cmt" and "items m' a = Some it"
  shows "length (item_comment it) = 63 \<and> item_pad it = NUL \<and>
    (NUL \<in> set (item_comment it)) = (length cmt < 63)"
proof -
  let ?fill = "fill_item c1 c2 c3 p (Some cmt)"
  let ?m = "upd_item a ?fill m"
  from push_memory [OF assms(1)] obtain it0 where "items m a = Some it0"
    "m' = ?m \<or> (\<exists>t. m' = upd_item t (item_next_update (\<lambda>_. Some a)) ?m)" by blast
  with assms(3) have "item_comment it = item_comment (?fill it0)" "item_pad it = item_pad (?fill it0)"
    by (auto split: if_splits)
  then show ?thesis
    using strncpy_terminated [OF assms(2), of 63]
    by (simp add: fill_item_def Let_def QUERY_QUEUE_ITEM_COMMENT_MAXLEN_def)
qed

section \<open>Clean-up\<close>

definition app_with :: "mem \<Rightarrow> nat app_session list \<Rightarrow> nat app" where
  "app_with m ss =
     \<lparr>app_mem = m, sessions = ss, nsessions_slots = int (length ss),
      nsessions = int (length ss), finished = []\<rparr>"

text \<open>C23: when every queue holds simple commands only, the error path ends: every session's connection
  is closed, last session first, and the process exits with status 1.\<close>

theorem error_die_finishes_connections:
  assumes "sessions_hold ap qs" and "length (concat qs) < fuel" and "length qs < fuel"
  shows "\<exists>ap'. error_die fuel ap = Some (Inr (ap', Exit 1)) \<and> nsessions ap' = 0 \<and>
    finished ap' = finished ap @ concat (map (\<lambda>s. case conn s of None \<Rightarrow> [] | Some c \<Rightarrow> [c])
      (rev (take (length qs) (sessions ap))))"
  using kill_sessions_simple [OF assms(1,2,3)] by (auto simp: error_die_def)

theorem error_die_finishes_connections_witness:
  "\<exists>ap'. error_die 5 (app_with two_commands [session_with (Some 1) (Some 2)]) = Some (Inr (ap', Exit 1)) \<and>
    nsessions ap' = 0 \<and>
    finished ap' = finished (app_with two_commands [session_with (Some 1) (Some 2)]) @
      concat (map (\<lambda>s. case conn s of None \<Rightarrow> [] | Some c \<Rightarrow> [c])
        (rev (take (length [[1, 2::nat]])
           (sessions (app_with two_commands [session_with (Some 1) (Some 2)])))))"
  by (rule error_die_finishes_connections)
    (simp_all add: sessions_hold_def queue_of_def own_commands_def owns_command_def private_of_def
      app_with_def concrete_defs)

text \<open>With the insert item queued on the last session, the error path never reaches exit: the
  clean-up loop frees the item, which puts it back, for ever.\<close>

lemma error_die_never_exits:
  assumes "nsessions ap = int (Suc i)" and "i < length (sessions ap)"
    and "queue_of (app_mem ap, sessions ap ! i) [a]" and "insert_item (items (app_mem ap) a)"
  shows "error_die fuel ap = None"
  using assms drain_insert_never_ends [OF assms(3,4)]
  by (cases fuel) (simp_all add: error_die_def)

section \<open>The event loop\<close>

definition scripted :: "(nat \<Rightarrow> bool) \<Rightarrow> int \<Rightarrow> nat libpq" where
  "scripted busy fl =
     \<lparr>PQconnectdb = (\<lambda>_. 0), PQstatus_ok = (\<lambda>_. True), PQsetnonblocking = (\<lambda>c. (0, c)),
      PQconsumeInput = (\<lambda>c. (1, c)), PQnotifies = (\<lambda>c. (None, c)), PQflush = (\<lambda>c. (fl, c)),
      PQisBusy = (\<lambda>c. (busy c, if busy c then c else 0)), PQgetResult = (\<lambda>c. (None, c)),
      PQsendQuery = (\<lambda>q c. (1, c)), PQsendQueryParams = (\<lambda>q ps c. (1, c)),
      c_strtod = (\<lambda>s. (st_value (strtol s 10), st_rest (strtol s 10)))\<rparr>"

definition svc_with :: "mem \<Rightarrow> nat app_session \<Rightarrow> nat svc" where
  "svc_with m s = \<lparr>sv_mem = m, sv_session = s, sv_pollout = False, sv_trace = []\<rparr>"

lemmas run_defs =
  scripted_def svc_with_def service_session_def consume_input_def dispatch_notification_def
  with_conn_def service_idle_def with_head_def simple_command_send_def service_flush_def
  set_state_def emit_def

text \<open>C6: whatever libpq does, a service call that returns has taken from the front of the queue exactly
  one command for each null result it delivered, and left the rest in order.\<close>

theorem service_session_pops_per_null_result:
  assumes "service_session lp fuel r st = Some (Cont st')" and "svc_queue st xs"
  shows "\<exists>n\<le>length xs. svc_queue st' (drop n xs) \<and>
    null_results (sv_trace st') = null_results (sv_trace st) + n"
  by (rule service_session_pops [OF assms])

theorem service_session_pops_per_null_result_witness:
  "\<exists>st'. service_session (scripted (\<lambda>_. True) 1) 3 True
      (svc_with two_commands (session_with (Some 1) (Some 2))) = Some (Cont st') \<and>
    (\<exists>n\<le>length [1, 2::nat]. svc_queue st' (drop n [1, 2]) \<and>
      null_results (sv_trace st') =
        null_results (sv_trace (svc_with two_commands (session_with (Some 1) (Some 2)))) + n)"
proof -
  have q: "svc_queue (svc_with two_commands (session_with (Some 1) (Some 2))) [1, 2]"
    by (simp add: svc_queue_def queue_of_def own_commands_def owns_command_def private_of_def
        svc_with_def concrete_defs)
  obtain st' where "service_session (scripted (\<lambda>_. True) 1) 3 True
      (svc_with two_commands (session_with (Some 1) (Some 2))) = Some (Cont st')"
    by (simp add: run_defs concrete_defs)
  with service_session_pops_per_null_result [OF this q] show ?thesis by blast
qed

text \<open>When PQflush reports success with 0, as it is documented to do, a session never reaches the
  state in which results are read: after any number of service calls it is still idle or waiting
  to flush, and no result callback has run.\<close>

lemma flush_success_never_reads_results:
  assumes "\<And>c. fst (PQflush lp c) = 0"
    and "run_services lp fuel rs st = Some (Cont st')"
    and "session_state (sv_session st) \<noteq> SESSION_FLUSHED"
  shows "session_state (sv_session st') \<noteq> SESSION_FLUSHED \<and>
    got_results (sv_trace st') = got_results (sv_trace st)"
  using waiting_run [OF assms(1,2,3)] assms(3) by (simp add: waiting_step_def)

text \<open>C31: once a query's results have ended and the connection is idle, the result loop does not stop:
  it hands a null result to every command still queued, none of which was sent, pops them all, and
  then reads a result callback through the null queue head.\<close>

theorem idle_connection_discards_queue:
  assumes "svc_queue st xs" and "command_callbacks (sv_mem st) xs"
    and "conn (sv_session st) = Some c" and "idle_connection lp c"
  shows "(\<exists>st'. (\<forall>k. service_results lp (length xs + k) st = service_results lp k st') \<and>
      svc_queue st' [] \<and> sv_trace st' = sv_trace st @ map (\<lambda>a. Got_result a None) xs) \<and>
    (\<forall>k. service_results lp (length xs + Suc k) st = Some (Stop Undefined))"
proof -
  from idle_drains_queue [OF assms] obtain st' where
    st': "\<forall>k. service_results lp (length xs + k) st = service_results lp k st'" "svc_queue st' []"
    "conn (sv_session st') = Some c"
    "sv_trace st' = sv_trace st @ map (\<lambda>a. Got_result a None) xs" by blast
  from st'(1) idle_empty_queue [OF st'(2,3) assms(4)]
  have "\<forall>k. service_results lp (length xs + Suc k) st = Some (Stop Undefined)" by metis
  with st' show ?thesis by blast
qed

theorem idle_connection_discards_queue_witness:
  "(\<exists>st'. (\<forall>k. service_results (scripted (\<lambda>_. False) 1) (length [1, 2::nat] + k)
        (svc_with two_commands (session_with (Some 1) (Some 2))) =
        service_results (scripted (\<lambda>_. False) 1) k st') \<and>
      svc_queue st' [] \<and>
      sv_trace st' = sv_trace (svc_with two_commands (session_with (Some 1) (Some 2))) @
        map (\<lambda>a. Got_result a None) [1, 2]) \<and>
    (\<forall>k. service_results (scripted (\<lambda>_. False) 1) (length [1, 2::nat] + Suc k)
      (svc_with two_commands (session_with (Some 1) (Some 2))) = Some (Stop Undefined))"
  by (rule idle_connection_discards_queue [of _ _ 0])
    (simp_all add: svc_queue_def queue_of_def own_commands_def owns_command_def private_of_def
      command_callbacks_def idle_connection_def scripted_def svc_with_def concrete_defs)

text \<open>A result with the one row of two fields that the insert query expects is never validated:
  the code asks for row 1 and column 2 of a result whose rows and columns count from 0, gets a null
  pointer, and passes it to strtod.\<close>

lemma insert_result_reads_past_row:
  assumes "PQresultStatus r = PGRES_TUPLES_OK" and "PQntuples r = 1" and "PQnfields r = 2"
    and "\<And>i j. PQgetvalue r i j \<noteq> None \<Longrightarrow> 0 \<le> i \<and> i < PQntuples r \<and> 0 \<le> j \<and> j < PQnfields r"
  shows "call_result_cb lp (Some Insert_query_result) a it (Some r) st = Stop Undefined"
proof -
  have "PQgetvalue r 1 2 = None" using assms(4) [of 1 2] assms(2,3) by (cases "PQgetvalue r 1 2") auto
  with assms(1-3) show ?thesis by (simp add: insert_query_result_def)
qed

section \<open>Start-up\<close>




text \<open>Push never writes the next pointer, so when the blocks malloc returns hold a non-zero word
  there, start-up fails an assertion: the second enqueue finds the tail's next pointer set.\<close>

lemma main_asserts_on_unclean_memory:
  assumes "\<And>m. finite (dom (items m)) \<Longrightarrow>
      \<exists>a junk. al_item al m = Some (a, junk) \<and> items m a = None \<and> item_next junk \<noteq> None"
    and "queue_of (m, s) []" and "finite (dom (items m))"
  shows "main_enqueue al ins (m, s) = Inl AssertFail"
proof -
  let ?s = "s\<lparr>notify_cb := Some Handle_one_notification\<rparr>"
  from assms(1) [OF assms(3)] obtain a ja where a: "al_item al m = Some (a, ja)"
    "items m a = None" "item_next ja \<noteq> None" by blast
  from simple_enqueue_unfold [OF a(1,2)] obtain m2 p where 2: "items m2 = (items m)(a \<mapsto> ja)"
    "simple_command_enqueue al ''create table''
      (Some ''CREATE TABLE IF NOT EXISTS dummy(id serial primary key, dummyval integer);'') (m, ?s) =
     link_item a (upd_item a (fill_item (Some Simple_command_send) (Some Simple_command_result)
        (Some Simple_command_free) p
        (Some ''CREATE TABLE IF NOT EXISTS dummy(id serial primary key, dummyval integer);'')) m2, ?s)"
    by blast
  then obtain m1 s1 where 1: "simple_command_enqueue al ''create table''
      (Some ''CREATE TABLE IF NOT EXISTS dummy(id serial primary key, dummyval integer);'') (m, ?s) =
      Inr (m1, s1)" "queue_head s1 = Some a" "queue_tail s1 = Some a"
      "map_option item_next (items m1 a) = Some (item_next ja)" "finite (dom (items m1))"
    using assms(2,3) by (simp add: link_item_def queue_of_def)
  from assms(1) [OF 1(5)] obtain b jb where b: "al_item al m1 = Some (b, jb)" "items m1 b = None"
    by blast
  with 1(4) have "b \<noteq> a" by auto
  obtain ia where "items m1 a = Some ia" "item_next ia \<noteq> None" using 1(4) a(3) by auto
  with simple_enqueue_unfold [OF b, of "''delete contents''" "Some ''DELETE FROM dummy;''" s1] 1 \<open>b \<noteq> a\<close>
  have "simple_command_enqueue al ''delete contents'' (Some ''DELETE FROM dummy;'') (m1, s1) =
      Inl AssertFail"
    by (auto simp: link_item_def)
  with 1(1) show ?thesis by (simp add: main_enqueue_def)
qed


section \<open>The whole run\<close>



section \<open>The queue as a list of texts\<close>



end
