(* ===== verification/Dht22.thy ===== *)
theory Dht22
  imports C_Prelude
begin

unbundle bit_operations_syntax

text \<open>
  The humidity and temperature reader \<open>arduino_avr/RHT03_DHT22_humidity_temp_sensor.c\<close>: the
  interrupt service routine that records the lengths of the pulses on the sensor's line, the
  request pulse, the polling loop, and the decoder that turns the recorded pulses into 40 bits,
  checks them and writes the two readings.

  On the AVR an \<open>int\<close> has 16 bits, a \<open>long\<close> 32 and a \<open>byte\<close> 8; they are words of these
  widths, read as signed where C compares them.  The Arduino library and the line itself are the
  environment: what \<open>digitalRead\<close>, \<open>pulseIn\<close>, \<open>micros\<close> and \<open>millis\<close> return is an
  argument, and calls to \<open>pinMode\<close>, \<open>digitalWrite\<close>, \<open>delay\<close> and \<open>Serial.println\<close> are
  recorded.  The interrupts that arrive while the program waits are given as the values
  \<open>micros()\<close> returns to the service routine, which calls it twice.
\<close>

type_synonym avr_int = "16 word"
type_synonym avr_long = "32 word"
type_synonym byte = "8 word"

datatype action =
    PinModeInput | PinModeOutput | WriteHigh | WriteLow
  | DelayMicroseconds nat | Delay nat | Println string | SerialBegin nat | Attach | Detach

record sensor =
  timings :: "avr_int list"
  signalLineChanges :: avr_int
  lastTransitionMicros :: avr_long
  errorMsgBuf :: string
  errorFlag :: bool
  attached :: bool
  actions :: "action list"

text \<open>The two readings behind the pointer arguments.\<close>

record reading =
  temperature_decidegrees_c :: avr_int
  rel_humidity_decipercent :: avr_int

definition do_actions :: "action list \<Rightarrow> sensor \<Rightarrow> sensor" where
  "do_actions acts s = s\<lparr>actions := actions s @ acts\<rparr>"

definition set_msg :: "string \<Rightarrow> sensor \<Rightarrow> sensor" where
  "set_msg m s = s\<lparr>errorMsgBuf := m\<rparr>"

definition flagError :: "sensor \<Rightarrow> sensor" where
  "flagError s =
     (do_actions [PinModeInput, WriteHigh, Println (errorMsgBuf s)] s)\<lparr>errorFlag := True\<rparr>"

section \<open>Decoding\<close>

definition checkPreBitLowPulse :: "avr_int \<Rightarrow> nat \<Rightarrow> sensor \<Rightarrow> sensor" where
  "checkPreBitLowPulse pulseMicros timingIndex s =
     (if sint pulseMicros \<le> 35 \<or> 75 \<le> sint pulseMicros
      then flagError (set_msg
             (''Low pulse before bit transmit ('' @ show_int (sint pulseMicros) @
              '' us) outside 45-70us tolerance at timing idx '' @ show_int (int timingIndex)) s)
      else s)"

definition shiftNextBit :: "avr_int \<Rightarrow> avr_int \<Rightarrow> nat \<Rightarrow> sensor \<Rightarrow> avr_int \<times> sensor" where
  "shiftNextBit oldValue pulseMicros timingIndex s =
     (if 10 < sint pulseMicros \<and> sint pulseMicros < 40 then (push_bit 1 oldValue OR 0, s)
      else if 60 < sint pulseMicros \<and> sint pulseMicros < 85 then (push_bit 1 oldValue OR 1, s)
      else (-1, flagError (set_msg
             (''Bad bit pulse length: '' @ show_int (sint pulseMicros) @
              '' us at timing idx '' @ show_int (int timingIndex)) s)))"

text \<open>
  \<open>readnbits\<close> walks two timings per bit; \<open>k\<close> bits are left.  Every call reads inside the
  array of 88 timings (\<open>analyseTimings\<close> starts at 5 and reads 80).
\<close>

fun readnbits :: "nat \<Rightarrow> nat \<Rightarrow> avr_int \<Rightarrow> sensor \<Rightarrow> avr_int \<times> nat \<times> sensor" where
  "readnbits 0 timingsIdx result s = (result, timingsIdx, s)"
| "readnbits (Suc k) timingsIdx result s =
     (let s1 = checkPreBitLowPulse (timings s ! timingsIdx) timingsIdx s;
          (result', s2) = shiftNextBit result (timings s1 ! (timingsIdx + 1)) (timingsIdx + 1) s1
      in readnbits k (timingsIdx + 2) result' s2)"

text \<open>
  Line 174: each operand is cut to a byte, and so is the sum.  \<open>humid16 >> 8\<close> keeps the sign,
  which the cut removes again.
\<close>

definition checksum :: "avr_int \<Rightarrow> avr_int \<Rightarrow> byte" where
  "checksum humid16 temp16 =
     ucast (signed_drop_bit 8 humid16) + ucast (humid16 AND 0xFF) +
     ucast (signed_drop_bit 8 temp16) + ucast (temp16 AND 0xFF)"

text \<open>Lines 180-182: bit 15 is the sign, the other bits the magnitude.\<close>

definition signed_temperature :: "avr_int \<Rightarrow> avr_int" where
  "signed_temperature temp16 =
     (if temp16 AND push_bit 15 1 \<noteq> 0 then - (temp16 AND NOT (push_bit 15 1)) else temp16)"

definition analyseTimings :: "sensor \<Rightarrow> reading \<Rightarrow> sensor \<times> reading" where
  "analyseTimings s r =
     (let (humid16, idx1, s1) = readnbits 16 5 0 s in
      if errorFlag s1 then (do_actions [Println ''Failed to capture humidity data''] s1, r)
      else let (temp16, idx2, s2) = readnbits 16 idx1 0 s1 in
      if errorFlag s2 then (do_actions [Println ''Failed to capture temperature data''] s2, r)
      else let (checksum8, idx3, s3) = readnbits 8 idx2 0 s2 in
      if errorFlag s3 then (do_actions [Println ''Failed to capture checksum''] s3, r)
      else let s4 = (if ucast (checksum humid16 temp16) \<noteq> checksum8
                     then flagError (set_msg ''Checksum mismatch, bad sensor read'' s3) else s3) in
      if errorFlag s4 then (s4, r)
      else (s4, \<lparr>temperature_decidegrees_c = signed_temperature temp16,
                 rel_humidity_decipercent = humid16\<rparr>))"

section \<open>Capture\<close>

text \<open>
  The interrupt service routine, lines 110-115; \<open>now1\<close> and \<open>now2\<close> are what its two calls of
  \<open>micros()\<close> return.  A write past the 88 timings is undefined.
\<close>

definition sensorLineChange :: "avr_long \<times> avr_long \<Rightarrow> sensor \<Rightarrow> sensor res" where
  "sensorLineChange = (\<lambda>(now1, now2) s.
     (let pulseMicros = now1 - lastTransitionMicros s;
          i = signalLineChanges s
      in if 0 \<le> sint i \<and> sint i < 88
         then Inr (s\<lparr>lastTransitionMicros := now2,
                     timings := (timings s)[nat (sint i) := ucast pulseMicros],
                     signalLineChanges := i + 1\<rparr>)
         else Inl Undefined))"

fun line_changes :: "(avr_long \<times> avr_long) list \<Rightarrow> sensor \<Rightarrow> sensor res" where
  "line_changes [] s = Inr s"
| "line_changes (e # es) s = rbind (sensorLineChange e s) (line_changes es)"

text \<open>The interrupts that arrive reach the routine only while it is attached.\<close>

definition deliver :: "(avr_long \<times> avr_long) list \<Rightarrow> sensor \<Rightarrow> sensor res" where
  "deliver es s = (if attached s then line_changes es s else Inr s)"

definition attachInterrupt :: "sensor \<Rightarrow> sensor" where
  "attachInterrupt s = (do_actions [Attach] s)\<lparr>attached := True\<rparr>"

definition detachInterrupt :: "sensor \<Rightarrow> sensor" where
  "detachInterrupt s = (do_actions [Detach] s)\<lparr>attached := False\<rparr>"

text \<open>\<open>initState\<close> clears the first 86 timings only.\<close>

definition initState :: "avr_long \<Rightarrow> sensor \<Rightarrow> sensor" where
  "initState now s =
     (detachInterrupt s)\<lparr>timings := replicate 86 0 @ drop 86 (timings s), errorFlag := False,
        lastTransitionMicros := now, signalLineChanges := 0\<rparr>"

text \<open>
  \<open>debugPrintTimings\<close>, lines 128-135, whose call is commented out: what it writes to the serial
  line.  \<open>sprintf\<close> into the buffer of 24 bytes with \<open>%02i\<close> and \<open>%-3i\<close>.
\<close>

definition timing_text :: "nat \<Rightarrow> avr_int \<Rightarrow> string" where
  "timing_text i v =
     (let n = show_int (int i); t = show_int (sint v)
      in (if i mod 2 = 0 then ''H['' else ''L['') @ replicate (2 - length n) (CHR ''0'') @ n @ '']: '' @
         t @ replicate (3 - length t) (CHR '' '') @ ''  '')"

fun print_timings :: "nat list \<Rightarrow> sensor \<Rightarrow> string res" where
  "print_timings [] s = Inr [NL]"
| "print_timings (i # is) s =
     (let buf = timing_text i (timings s ! i)
      in check (length buf < 24) Undefined
           (rbind (print_timings is s) (\<lambda>out.
              Inr ((if i mod 10 = 0 then [NL, CHR 0x09] else []) @ buf @ out))))"

definition debugPrintTimings :: "sensor \<Rightarrow> string res" where
  "debugPrintTimings s = print_timings [0..<86] s"

text \<open>
  \<open>requestSensorRead\<close>, lines 229-272.  \<open>line_high\<close> is \<open>digitalRead() == HIGH\<close>,
  \<open>low\<close> and \<open>high\<close> are what the two calls of \<open>pulseIn\<close> return.
\<close>

definition requestSensorRead :: "bool \<Rightarrow> avr_long \<Rightarrow> avr_long \<Rightarrow> sensor \<Rightarrow> bool \<times> sensor" where
  "requestSensorRead line_high low high s =
     (if \<not> line_high
      then (False, flagError (set_msg ''Line not HIGH at entry to requestSensorRead()'' s))
      else
        let s1 = do_actions [WriteLow, PinModeOutput, DelayMicroseconds 7000, WriteHigh,
                   DelayMicroseconds 30, PinModeInput] s;
            pulseLength = (ucast low :: avr_int)
        in if pulseLength = 0
           then (False, flagError (set_msg
              ''Sensor read failed: Sensor never pulled line LOW after initial request'' s1))
           else
             let s2 = do_actions [DelayMicroseconds 5] s1;
                 pulseLength2 = (ucast high :: avr_int)
             in if pulseLength2 = 0
                then (False, flagError (set_msg
                  (''Sensor read failed: Sensor didn'' @ [CHR 0x27] @
                   ''t go back HIGH after LOW response to read request'') s2))
                else (True, s2))"

text \<open>
  What happens during one turn of the polling loop: the interrupts during \<open>delay(100)\<close>, then
  the milliseconds since \<open>startMillis\<close>.
\<close>

record poll =
  edges :: "(avr_long \<times> avr_long) list"
  elapsed :: nat

record environment =
  ev_now :: avr_long
  ev_line_high :: bool
  ev_low :: avr_long
  ev_high :: avr_long
  ev_request_edges :: "(avr_long \<times> avr_long) list"
  ev_idle_edges :: "(avr_long \<times> avr_long) list"
  ev_poll :: "nat \<Rightarrow> poll"

definition sensorReadTimeoutMillis :: nat where
  "sensorReadTimeoutMillis = 1000"

text \<open>The loop of lines 90-92 on fuel; \<open>k\<close> counts its turns.\<close>

fun wait_loop :: "nat \<Rightarrow> (nat \<Rightarrow> poll) \<Rightarrow> nat \<Rightarrow> sensor \<Rightarrow> sensor res option" where
  "wait_loop 0 env k s = None"
| "wait_loop (Suc fuel) env k s =
     (case deliver (edges (env k)) (do_actions [Delay 100] s) of
        Inl e \<Rightarrow> Some (Inl e)
      | Inr s' \<Rightarrow>
          if sint (signalLineChanges s') < 86 \<and> elapsed (env k) < sensorReadTimeoutMillis
          then wait_loop fuel env (Suc k) s'
          else Some (Inr s'))"

definition finish_capture :: "sensor \<Rightarrow> reading \<Rightarrow> sensor \<times> reading" where
  "finish_capture s r =
     (let s1 = detachInterrupt s in
      if signalLineChanges s1 \<noteq> 86
      then (flagError (set_msg (''*** MISSED INTERRUPTS ***: Expected 86 line changes, saw '' @
              show_int (sint (signalLineChanges s1))) s1), r)
      else analyseTimings s1 r)"

text \<open>
  \<open>readSensor\<close>, lines 78-105.  The interrupts that arrive during the request (the line is
  watched from line 82 on) are taken before its messages are written; none of them looks at what
  the interrupts write.
\<close>

definition readSensor ::
    "nat \<Rightarrow> environment \<Rightarrow> sensor \<Rightarrow> reading \<Rightarrow> (bool \<times> sensor \<times> reading) res option" where
  "readSensor fuel env s r =
     (case deliver (ev_request_edges env) (attachInterrupt (initState (ev_now env) s)) of
        Inl e \<Rightarrow> Some (Inl e)
      | Inr s1 \<Rightarrow>
          (let (ok, s2) = requestSensorRead (ev_line_high env) (ev_low env) (ev_high env) s1 in
           if \<not> ok then (let s3 = flagError s2 in Some (Inr (\<not> errorFlag s3, s3, r)))
           else (case wait_loop fuel (ev_poll env) 0 s2 of
                   None \<Rightarrow> None
                 | Some (Inl e) \<Rightarrow> Some (Inl e)
                 | Some (Inr s3) \<Rightarrow>
                     (let (s4, r') = finish_capture s3 r in Some (Inr (\<not> errorFlag s4, s4, r'))))))"

section \<open>The sketch\<close>

definition setup_sketch :: "sensor \<Rightarrow> sensor" where
  "setup_sketch s = do_actions [PinModeInput, WriteHigh, Delay 5000,
     SerialBegin 9600, Println ''Sensor initialized, Ready for first reading''] s"

text \<open>Line 313, with C's division, which rounds towards zero.\<close>

definition c_div :: "int \<Rightarrow> int \<Rightarrow> int" where
  "c_div a b = sgn a * sgn b * (\<bar>a\<bar> div \<bar>b\<bar>)"

definition c_mod :: "int \<Rightarrow> int \<Rightarrow> int" where
  "c_mod a b = a - b * c_div a b"

definition format_reading :: "int \<Rightarrow> int \<Rightarrow> string" where
  "format_reading temperature humidity =
     ''Reading: '' @ show_int (c_div temperature 10) @ ''.'' @ show_int \<bar>c_mod temperature 10\<bar> @
     '' degrees C at '' @ show_int (c_div humidity 10) @ ''.'' @ show_int (c_mod humidity 10) @
     '' relative humidity''"

text \<open>
  A failed request leaves the routine attached, so the pause at the end of \<open>loop\<close> can still
  see interrupts.
\<close>

definition loop_sketch ::
    "nat \<Rightarrow> environment \<Rightarrow> sensor \<Rightarrow> reading \<Rightarrow> (sensor \<times> reading) res option" where
  "loop_sketch fuel env s r =
     map_option (\<lambda>x. rbind x (\<lambda>(success, s', r').
       rbind (deliver (ev_idle_edges env) (do_actions ((if success
              then [Println (format_reading (sint (temperature_decidegrees_c r'))
                      (sint (rel_humidity_decipercent r')))] else []) @ [Delay 5000]) s'))
         (\<lambda>s''. Inr (s'', r'))))
       (readSensor fuel env (do_actions [Println ''Reading sensor...''] s) r)"

end
