(* ===== verification/Dht22_Laws.thy ===== *)
theory Dht22_Laws
  imports Dht22
begin

text \<open>
  The abstract view of a captured frame and the lemmas about the decoder: which pulses are
  accepted, the word a row of accepted pulses stands for, and that \<open>readnbits\<close> computes that word
  exactly when every pulse is accepted.
\<close>

unbundle bit_operations_syntax

section \<open>Pulses and frames\<close>

definition low_ok :: "avr_int \<Rightarrow> bool" where
  "low_ok p \<longleftrightarrow> 35 < sint p \<and> sint p < 75"

definition pulse_bit :: "avr_int \<Rightarrow> bool option" where
  "pulse_bit p =
     (if 10 < sint p \<and> sint p < 40 then Some False
      else if 60 < sint p \<and> sint p < 85 then Some True else None)"

text \<open>The bits that \<open>k\<close> pulse pairs from index \<open>i\<close> stand for, when all are accepted.\<close>

fun frame_bits :: "avr_int list \<Rightarrow> nat \<Rightarrow> nat \<Rightarrow> bool list option" where
  "frame_bits ts i 0 = Some []"
| "frame_bits ts i (Suc k) =
     (if low_ok (ts ! i)
      then (case (pulse_bit (ts ! (i + 1)), frame_bits ts (i + 2) k) of
              (Some b, Some bs) \<Rightarrow> Some (b # bs) | _ \<Rightarrow> None)
      else None)"

definition shift_in :: "avr_int \<Rightarrow> bool list \<Rightarrow> avr_int" where
  "shift_in r bs = foldl (\<lambda>a b. push_bit 1 a OR of_bool b) r bs"

definition word_bits :: "nat \<Rightarrow> 'a::len word \<Rightarrow> bool list" where
  "word_bits n w = map (bit w) (rev [0..<n])"

text \<open>What the sensor sends for a humidity, a raw temperature and a checksum.\<close>

definition sent_frame :: "avr_int \<Rightarrow> avr_int \<Rightarrow> byte \<Rightarrow> bool list" where
  "sent_frame h t c = word_bits 16 h @ word_bits 16 t @ word_bits 8 c"

lemma shift_in_Nil [simp]: "shift_in r [] = r"
  by (simp add: shift_in_def)

lemma shift_in_Cons: "shift_in r (b # bs) = shift_in (push_bit 1 r OR of_bool b) bs"
  by (simp add: shift_in_def)

lemma word_bits_Suc: "word_bits (Suc n) w = bit w n # word_bits n w"
  by (simp add: word_bits_def)

lemma length_word_bits [simp]: "length (word_bits n w) = n"
  by (simp add: word_bits_def)

lemma shift_in_word_bits:
  fixes w :: "'a::len word"
  shows "n \<le> 16 \<Longrightarrow> shift_in r (word_bits n w) = push_bit n r OR take_bit n (ucast w)"
proof (induction n arbitrary: r)
  case 0
  then show ?case by (simp add: word_bits_def)
next
  case (Suc n)
  then have "shift_in r (word_bits (Suc n) w) =
      push_bit n (push_bit 1 r OR of_bool (bit w n)) OR take_bit n (ucast w)"
    by (simp add: word_bits_Suc shift_in_Cons)
  also have "\<dots> = push_bit (Suc n) r OR take_bit (Suc n) (ucast w)"
  proof (rule bit_word_eqI)
    fix m assume "m < LENGTH(16)"
    then show "bit (push_bit n (push_bit 1 r OR of_bool (bit w n)) OR take_bit n (ucast w)) m =
        bit (push_bit (Suc n) r OR take_bit (Suc n) (ucast w) :: avr_int) m"
      by (auto simp: bit_simps less_Suc_eq Suc_le_eq dest: bit_imp_le_length) 
  qed
  finally show ?case .
qed

lemma shift_in_16: "shift_in 0 (word_bits 16 (w :: avr_int)) = w"
proof -
  have "take_bit 16 w = w" by (rule bit_word_eqI) (simp add: bit_take_bit_iff)
  then show ?thesis by (simp add: shift_in_word_bits)
qed

lemma shift_in_8: "shift_in 0 (word_bits 8 (c :: byte)) = ucast c"
proof -
  have "take_bit 8 (ucast c :: avr_int) = ucast c"
    by (rule bit_word_eqI) (auto simp: bit_simps dest: bit_imp_le_length)
  then show ?thesis by (simp add: shift_in_word_bits)
qed

lemma frame_bits_append:
  "frame_bits ts i (m + n) =
     (case (frame_bits ts i m, frame_bits ts (i + 2 * m) n) of
        (Some a, Some b) \<Rightarrow> Some (a @ b) | _ \<Rightarrow> None)"
proof (induction m arbitrary: i)
  case 0
  then show ?case by (simp split: option.splits)
next
  case (Suc m)
  show ?case
    using Suc.IH[of "Suc (Suc i)"]
    by (cases "low_ok (ts ! i)"; cases "pulse_bit (ts ! Suc i)") (auto split: option.splits)
qed

lemma frame_bits_length: "frame_bits ts i k = Some bs \<Longrightarrow> length bs = k"
  by (induction k arbitrary: i bs) (auto split: if_splits option.splits)

section \<open>What the decoder's steps leave alone\<close>

definition same_capture :: "sensor \<Rightarrow> sensor \<Rightarrow> bool" where
  "same_capture s s' \<longleftrightarrow>
     timings s' = timings s \<and> signalLineChanges s' = signalLineChanges s \<and>
     lastTransitionMicros s' = lastTransitionMicros s \<and> attached s' = attached s"

named_theorems capture_intros

lemma same_capture_refl [simp, capture_intros]: "same_capture s s"
  by (simp add: same_capture_def)

lemma same_capture_trans: "same_capture a b \<Longrightarrow> same_capture b c \<Longrightarrow> same_capture a c"
  by (simp add: same_capture_def)

lemma same_capture_do_actions [simp, capture_intros]: "same_capture s (do_actions acts s)"
  by (simp add: same_capture_def do_actions_def)

lemma same_capture_flagError [simp, capture_intros]: "same_capture s (flagError (set_msg m s))"
  by (simp add: same_capture_def do_actions_def flagError_def set_msg_def)

lemma flagError_flags [simp]: "errorFlag (flagError s)"
  by (simp add: flagError_def)

lemma errorFlag_do_actions [simp]: "errorFlag (do_actions acts s) = errorFlag s"
  by (simp add: do_actions_def)

lemma check_low:
  "same_capture s (checkPreBitLowPulse p i s)"
  "errorFlag (checkPreBitLowPulse p i s) \<longleftrightarrow> errorFlag s \<or> \<not> low_ok p"
  "low_ok p \<Longrightarrow> checkPreBitLowPulse p i s = s"
  by (auto simp: checkPreBitLowPulse_def low_ok_def)

lemma shift_bit:
  "same_capture s (snd (shiftNextBit r p i s))"
  "errorFlag (snd (shiftNextBit r p i s)) \<longleftrightarrow> errorFlag s \<or> pulse_bit p = None"
  "pulse_bit p = Some b \<Longrightarrow> shiftNextBit r p i s = (push_bit 1 r OR of_bool b, s)"
  by (auto simp: shiftNextBit_def pulse_bit_def split: if_splits)

lemma readnbits_Suc:
  "readnbits (Suc k) i r s =
     (let s1 = checkPreBitLowPulse (timings s ! i) i s;
          x = shiftNextBit r (timings s ! (i + 1)) (i + 1) s1
      in readnbits k (i + 2) (fst x) (snd x))"
  using check_low(1)[of s "timings s ! i" i]
  by (simp add: Let_def case_prod_beta same_capture_def)

lemma readnbits_ok:
  "frame_bits (timings s) i k = Some bs \<Longrightarrow>
     readnbits k i r s = (shift_in r bs, i + 2 * k, s)"
  by (induction k arbitrary: i r bs)
    (auto simp: readnbits_Suc check_low(3) shift_bit(3) shift_in_Cons
      simp del: readnbits.simps(2) split: if_splits option.splits)

lemma readnbits_index: "fst (snd (readnbits k i r s)) = i + 2 * k"
  by (induction k arbitrary: i r s) (auto simp: readnbits_Suc Let_def simp del: readnbits.simps(2))

lemma readnbits_capture: "same_capture s (snd (snd (readnbits k i r s)))"
proof (induction k arbitrary: i r s)
  case (Suc k)
  then show ?case
    by (simp add: readnbits_Suc Let_def del: readnbits.simps(2))
      (meson check_low(1) shift_bit(1) same_capture_trans)
qed simp

lemma readnbits_error:
  "errorFlag (snd (snd (readnbits k i r s))) \<longleftrightarrow>
     errorFlag s \<or> frame_bits (timings s) i k = None"
proof (induction k arbitrary: i r s)
  case (Suc k)
  define s1 where "s1 = checkPreBitLowPulse (timings s ! i) i s"
  define x where "x = shiftNextBit r (timings s ! (i + 1)) (i + 1) s1"
  have t: "timings (snd x) = timings s"
    using check_low(1)[of s "timings s ! i" i] shift_bit(1)[of s1 r "timings s ! (i + 1)" "i + 1"]
    by (simp add: s1_def x_def same_capture_def)
  have e: "errorFlag (snd x) \<longleftrightarrow>
      errorFlag s \<or> \<not> low_ok (timings s ! i) \<or> pulse_bit (timings s ! (i + 1)) = None"
    by (auto simp: x_def s1_def shift_bit(2) check_low(2))
  have "readnbits (Suc k) i r s = readnbits k (i + 2) (fst x) (snd x)"
    by (simp only: readnbits_Suc Let_def x_def s1_def)
  then show ?case
    using Suc.IH[of "i + 2" "fst x" "snd x"] t e
    by (auto split: option.splits)
qed simp

section \<open>The whole frame\<close>

text \<open>The decoded words of a frame, and the test that accepts it.\<close>

definition frame_words :: "avr_int list \<Rightarrow> (avr_int \<times> avr_int \<times> avr_int) option" where
  "frame_words ts =
     (case (frame_bits ts 5 16, frame_bits ts 37 16, frame_bits ts 69 8) of
        (Some a, Some b, Some c) \<Rightarrow> Some (shift_in 0 a, shift_in 0 b, shift_in 0 c)
      | _ \<Rightarrow> None)"

definition frame_reading :: "avr_int list \<Rightarrow> reading option" where
  "frame_reading ts =
     (case frame_words ts of
        None \<Rightarrow> None
      | Some (h, t, c) \<Rightarrow>
          if ucast (checksum h t) = c
          then Some \<lparr>temperature_decidegrees_c = signed_temperature t,
                     rel_humidity_decipercent = h\<rparr>
          else None)"

lemma frame_words_sent:
  assumes "frame_bits ts 5 40 = Some (sent_frame h t c)"
  shows "frame_words ts = Some (h, t, ucast c)"
proof -
  have "frame_bits ts 5 (16 + (16 + 8)) = Some (word_bits 16 h @ word_bits 16 t @ word_bits 8 c)"
    using assms by (simp add: sent_frame_def)
  then obtain a b d where f: "frame_bits ts 5 16 = Some a" "frame_bits ts 37 16 = Some b"
      "frame_bits ts 69 8 = Some d"
    and e: "a @ b @ d = word_bits 16 h @ word_bits 16 t @ word_bits 8 c"
    unfolding frame_bits_append by (auto split: option.splits)
  have "a = word_bits 16 h \<and> b = word_bits 16 t \<and> d = word_bits 8 c"
    using e f[THEN frame_bits_length] by simp
  then show ?thesis
    using f by (simp add: frame_words_def shift_in_16 shift_in_8)
qed

lemma analyse_ok:
  assumes "frame_words (timings s) = Some (h, t, c)" and "\<not> errorFlag s"
    and "ucast (checksum h t) = c"
  shows "analyseTimings s r = (s, \<lparr>temperature_decidegrees_c = signed_temperature t,
           rel_humidity_decipercent = h\<rparr>)"
proof -
  obtain a b d where f: "frame_bits (timings s) 5 16 = Some a"
      "frame_bits (timings s) 37 16 = Some b" "frame_bits (timings s) 69 8 = Some d"
    and e: "h = shift_in 0 a" "t = shift_in 0 b" "c = shift_in 0 d"
    using assms(1) by (auto simp: frame_words_def split: option.splits)
  show ?thesis
    using f[THEN readnbits_ok, of 0] assms(2,3) by (simp add: analyseTimings_def e)
qed

lemma analyse_bad:
  assumes "frame_reading (timings s) = None"
  shows "errorFlag (fst (analyseTimings s r)) \<and> snd (analyseTimings s r) = r"
proof -
  obtain h s1 where r1: "readnbits 16 5 0 s = (h, 37, s1)"
    using readnbits_index[of 16 5 0 s] by (cases "readnbits 16 5 0 s") auto
  obtain t s2 where r2: "readnbits 16 37 0 s1 = (t, 69, s2)"
    using readnbits_index[of 16 37 0 s1] by (cases "readnbits 16 37 0 s1") auto
  obtain c i s3 where r3: "readnbits 8 69 0 s2 = (c, i, s3)"
    by (cases "readnbits 8 69 0 s2") auto
  have ts: "timings s1 = timings s" "timings s2 = timings s"
    using readnbits_capture[of s 16 5 0] readnbits_capture[of s1 16 37 0] r1 r2
    by (simp_all add: same_capture_def)
  have e1: "errorFlag s1 \<longleftrightarrow> errorFlag s \<or> frame_bits (timings s) 5 16 = None"
    using readnbits_error[of 16 5 0 s] r1 by simp
  have e2: "errorFlag s2 \<longleftrightarrow> errorFlag s1 \<or> frame_bits (timings s) 37 16 = None"
    using readnbits_error[of 16 37 0 s1] r2 ts by simp
  have e3: "errorFlag s3 \<longleftrightarrow> errorFlag s2 \<or> frame_bits (timings s) 69 8 = None"
    using readnbits_error[of 8 69 0 s2] r3 ts by simp
  have "ucast (checksum h t) \<noteq> c" if ok: "\<not> errorFlag s3"
  proof -
    obtain a b d where f: "frame_bits (timings s) 5 16 = Some a"
        "frame_bits (timings s) 37 16 = Some b" "frame_bits (timings s) 69 8 = Some d"
      using ok e1 e2 e3 by auto
    have "h = shift_in 0 a"
      using readnbits_ok[OF f(1), of 0] r1 by simp
    moreover have "t = shift_in 0 b"
      using readnbits_ok[of s1 37 16 b 0] f(2) ts(1) r2 by simp
    moreover have "c = shift_in 0 d"
      using readnbits_ok[of s2 69 8 d 0] f(3) ts(2) r3 by simp
    ultimately have "frame_words (timings s) = Some (h, t, c)"
      using f by (simp add: frame_words_def)
    then show ?thesis
      using assms by (simp add: frame_reading_def split: if_splits)
  qed
  then show ?thesis
    by (simp add: analyseTimings_def r1 r2 r3)
qed

lemma analyse_flagged:
  assumes "errorFlag s"
  shows "errorFlag (fst (analyseTimings s r)) \<and> snd (analyseTimings s r) = r"
proof -
  obtain h i s1 where "readnbits 16 5 0 s = (h, i, s1)"
    by (cases "readnbits 16 5 0 s") auto
  moreover from this have "errorFlag s1"
    using readnbits_error[of 16 5 0 s] assms by simp
  ultimately show ?thesis by (simp add: analyseTimings_def)
qed

section \<open>The interrupts\<close>

text \<open>\<open>room i s\<close>: the capture has recorded \<open>i\<close> line changes into the 88 timings.\<close>

definition recorded :: "nat \<Rightarrow> sensor \<Rightarrow> bool" where
  "recorded i s \<longleftrightarrow> signalLineChanges s = of_nat i \<and> i \<le> 88 \<and> length (timings s) = 88"

lemma sint_small: "i < 32768 \<Longrightarrow> sint (of_nat i :: avr_int) = int i"
  by (subst sint_uint) (simp add: signed_take_bit_int_eq_self unsigned_of_nat take_bit_nat_eq_self)

lemma recorded_step:
  assumes "recorded i s"
  shows "sensorLineChange e s =
     (if i < 88 then Inr (s\<lparr>lastTransitionMicros := snd e,
         timings := (timings s)[i := ucast (fst e - lastTransitionMicros s)],
         signalLineChanges := of_nat (Suc i)\<rparr>) else Inl Undefined)"
  using assms
  by (auto simp: recorded_def sensorLineChange_def case_prod_beta sint_small Let_def)

lemma line_changes_capacity:
  "recorded i s \<Longrightarrow>
     (if i + length es \<le> 88
      then \<exists>s'. line_changes es s = Inr s' \<and> recorded (i + length es) s'
      else line_changes es s = Inl Undefined)"
proof (induction es arbitrary: i s)
  case Nil
  then show ?case by (auto simp: recorded_def)
next
  case (Cons e es)
  show ?case
  proof (cases "i < 88")
    case True
    let ?s = "s\<lparr>lastTransitionMicros := snd e,
         timings := (timings s)[i := ucast (fst e - lastTransitionMicros s)],
         signalLineChanges := of_nat (Suc i)\<rparr>"
    have "recorded (Suc i) ?s" using Cons.prems True by (simp add: recorded_def)
    from Cons.IH[OF this] show ?thesis
      using recorded_step[OF Cons.prems, of e] True by (simp del: of_nat_Suc split: if_splits)
  next
    case False
    then show ?thesis using recorded_step[OF Cons.prems, of e] by simp
  qed
qed

lemma recorded_init: "length (timings s) = 88 \<Longrightarrow> recorded 0 (initState now s)"
  by (simp add: recorded_def initState_def do_actions_def detachInterrupt_def)

text \<open>The pulse lengths: each one from the previous interrupt's second reading of the clock.\<close>

fun pulse_lengths :: "avr_long \<Rightarrow> (avr_long \<times> avr_long) list \<Rightarrow> avr_int list" where
  "pulse_lengths prev [] = []"
| "pulse_lengths prev (e # es) = ucast (fst e - prev) # pulse_lengths (snd e) es"

lemma length_pulse_lengths [simp]: "length (pulse_lengths t es) = length es"
  by (induction es arbitrary: t) simp_all

lemma line_changes_timings:
  "recorded i s \<Longrightarrow> line_changes es s = Inr s' \<Longrightarrow>
     timings s' = take i (timings s) @ pulse_lengths (lastTransitionMicros s) es @
                  drop (i + length es) (timings s)"
proof (induction es arbitrary: i s)
  case (Cons e es)
  then have i: "i < 88" "length (timings s) = 88"
    using recorded_step[OF Cons.prems(1), of e] by (auto simp: recorded_def split: if_splits)
  let ?s = "s\<lparr>lastTransitionMicros := snd e,
         timings := (timings s)[i := ucast (fst e - lastTransitionMicros s)],
         signalLineChanges := of_nat (Suc i)\<rparr>"
  have "recorded (Suc i) ?s" using Cons.prems i by (simp add: recorded_def)
  moreover have "line_changes es ?s = Inr s'"
    using Cons.prems recorded_step[OF Cons.prems(1), of e] i by simp
  ultimately have "timings s' = take (Suc i) (timings ?s) @ pulse_lengths (snd e) es @
      drop (Suc i + length es) (timings ?s)"
    using Cons.IH by fastforce
  then show ?case
    using i by (simp add: take_Suc_conv_app_nth)
qed simp

section \<open>A nominal frame\<close>

definition nominal :: "bool list \<Rightarrow> avr_int list" where
  "nominal bs = concat (map (\<lambda>b. [50, if b then 70 else 25]) bs)"

lemma nominal_Cons: "nominal (b # bs) = 50 # (if b then 70 else 25) # nominal bs"
  by (simp add: nominal_def)

lemma frame_bits_nominal:
  "frame_bits (pre @ nominal bs @ post) (length pre) (length bs) = Some bs"
proof (induction bs arbitrary: pre)
  case (Cons b bs)
  have "frame_bits ((pre @ [50, if b then 70 else 25]) @ nominal bs @ post)
      (length (pre @ [50 :: avr_int, if b then 70 else 25])) (length bs) = Some bs"
    by (rule Cons.IH)
  then show ?case
    by (simp add: nominal_Cons nth_append low_ok_def pulse_bit_def)
qed simp

lemma length_nominal [simp]: "length (nominal bs) = 2 * length bs"
  by (induction bs) (simp_all add: nominal_Cons, simp add: nominal_def)

lemma length_sent_frame [simp]: "length (sent_frame h t c) = 40"
  by (simp add: sent_frame_def)

definition nominal_capture :: "avr_int \<Rightarrow> avr_int \<Rightarrow> byte \<Rightarrow> avr_int list" where
  "nominal_capture h t c = [7000, 30, 30, 80, 80] @ nominal (sent_frame h t c) @ [50, 0, 0]"

lemma frame_bits_capture:
  "frame_bits (nominal_capture h t c) 5 40 = Some (sent_frame h t c)"
  using frame_bits_nominal[of "[7000, 30, 30, 80, 80]" "sent_frame h t c" "[50, 0, 0]"]
  by (simp add: nominal_capture_def numeral_nat del: frame_bits.simps)

section \<open>The checksum sees every single-bit error\<close>

definition high_byte :: "avr_int \<Rightarrow> byte" where
  "high_byte w = ucast (signed_drop_bit 8 w)"

definition low_byte :: "avr_int \<Rightarrow> byte" where
  "low_byte w = ucast (w AND 0xFF)"

lemma bit_high_byte: "bit (high_byte w) n \<longleftrightarrow> n < 8 \<and> bit w (8 + n)"
  by (auto simp: high_byte_def bit_simps min_def add.commute dest: bit_imp_le_length)

lemma bit_low_byte: "bit (low_byte w) n \<longleftrightarrow> n < 8 \<and> bit w n"
proof -
  have "w AND 0xFF = take_bit 8 w" by (simp add: take_bit_eq_mask mask_eq_exp_minus_1)
  then show ?thesis by (auto simp: low_byte_def bit_simps)
qed

lemma checksum_bytes:
  "checksum h t = (high_byte h + low_byte h) + (high_byte t + low_byte t)"
  by (simp add: checksum_def high_byte_def low_byte_def)

lemma byte_sum_flip:
  assumes "n < 16"
  shows "high_byte (flip_bit n w) + low_byte (flip_bit n w) \<noteq> high_byte w + low_byte w"
proof (cases "n < 8")
  case True
  then have "high_byte (flip_bit n w) = high_byte w"
    by (auto intro!: bit_word_eqI simp: bit_high_byte bit_flip_bit_iff)
  moreover have "bit (low_byte (flip_bit n w)) n \<noteq> bit (low_byte w) n"
    using True by (simp add: bit_low_byte bit_flip_bit_iff)
  ultimately show ?thesis by auto
next
  case False
  then have "low_byte (flip_bit n w) = low_byte w"
    by (auto intro!: bit_word_eqI simp: bit_low_byte bit_flip_bit_iff)
  moreover have "bit (high_byte (flip_bit n w)) (n - 8) \<noteq> bit (high_byte w) (n - 8)"
    using assms False by (auto simp: bit_high_byte bit_flip_bit_iff)
  ultimately show ?thesis by auto
qed

lemma checksum_flip:
  assumes "n < 16"
  shows "checksum (flip_bit n h) t \<noteq> checksum h t" and "checksum h (flip_bit n t) \<noteq> checksum h t"
  using byte_sum_flip[OF assms] by (auto simp: checksum_bytes)

lemma ucast_byte_eq: "(ucast (a :: byte) :: avr_int) = ucast b \<longleftrightarrow> a = b"
proof
  assume e: "(ucast a :: avr_int) = ucast b"
  show "a = b"
  proof (rule bit_word_eqI)
    fix n assume "n < LENGTH(8)"
    then show "bit a n \<longleftrightarrow> bit b n"
      using arg_cong[OF e, of "\<lambda>w. bit w n"] by (simp add: bit_simps)
  qed
qed simp

section \<open>The polling loop\<close>

lemma wait_loop_ends:
  assumes "\<And>j. 100 * (j + 1) \<le> elapsed (env j)"
  shows "k + fuel = 10 \<Longrightarrow> 0 < fuel \<Longrightarrow> wait_loop fuel env k s \<noteq> None"
proof (induction fuel arbitrary: k s)
  case (Suc fuel)
  have "\<not> elapsed (env k) < sensorReadTimeoutMillis" if "fuel = 0"
    using assms[of k] Suc.prems that by (simp add: sensorReadTimeoutMillis_def)
  then show ?case
    using Suc by (cases fuel) (auto split: sum.split)
qed simp

section \<open>From the line to the reading\<close>

lemma frame_bits_prefix:
  "i + 2 * k \<le> length xs \<Longrightarrow> frame_bits (xs @ ys) i k = frame_bits xs i k"
  by (induction k arbitrary: i) (auto simp: nth_append)

lemma request_capture: "same_capture s (snd (requestSensorRead hi l h s))"
  by (simp add: requestSensorRead_def Let_def)
    (meson same_capture_trans same_capture_do_actions same_capture_flagError)

lemma request_ok:
  assumes "(ucast l :: avr_int) \<noteq> 0" and "(ucast h :: avr_int) \<noteq> 0"
  shows "\<exists>s'. requestSensorRead True l h s = (True, s') \<and> same_capture s s' \<and>
           errorFlag s' = errorFlag s"
  using assms request_capture[of s True l h] by (simp add: requestSensorRead_def Let_def)

lemma line_changes_append:
  "line_changes (a @ b) s = rbind (line_changes a s) (line_changes b)"
proof (induction a arbitrary: s)
  case (Cons e a)
  then show ?case by (cases "sensorLineChange e s") simp_all
qed simp

lemma line_changes_keeps:
  "line_changes es s = Inr s' \<Longrightarrow> errorFlag s' = errorFlag s \<and> attached s' = attached s"
proof (induction es arbitrary: s)
  case (Cons e es)
  then obtain s1 where "sensorLineChange e s = Inr s1" "line_changes es s1 = Inr s'"
    by (auto simp: rbind_eq_Inr)
  with Cons.IH[of s1] show ?case
    by (auto simp: sensorLineChange_def case_prod_beta Let_def split: if_splits)
qed simp

definition last_edge :: "avr_long \<Rightarrow> (avr_long \<times> avr_long) list \<Rightarrow> avr_long" where
  "last_edge t es = foldl (\<lambda>_ e. snd e) t es"

lemma pulse_lengths_append:
  "pulse_lengths t (a @ b) = pulse_lengths t a @ pulse_lengths (last_edge t a) b"
  by (induction a arbitrary: t) (simp_all add: last_edge_def)

lemma line_changes_last:
  "line_changes es s = Inr s' \<Longrightarrow>
     lastTransitionMicros s' = last_edge (lastTransitionMicros s) es"
proof (induction es arbitrary: s)
  case (Cons e es)
  then obtain s1 where "sensorLineChange e s = Inr s1" "line_changes es s1 = Inr s'"
    by (auto simp: rbind_eq_Inr)
  with Cons.IH[of s1] show ?case
    by (auto simp: sensorLineChange_def case_prod_beta Let_def last_edge_def split: if_splits)
qed (simp add: last_edge_def)

text \<open>Edges that make given pulse lengths.\<close>

fun edges_of :: "avr_long \<Rightarrow> avr_int list \<Rightarrow> (avr_long \<times> avr_long) list" where
  "edges_of t [] = []"
| "edges_of t (p # ps) = (t + ucast p, t + ucast p) # edges_of (t + ucast p) ps"

lemma ucast_long_int [simp]: "(ucast (ucast (p :: avr_int) :: avr_long) :: avr_int) = p"
  by (rule bit_word_eqI) (simp add: bit_simps)

lemma pulse_lengths_edges_of [simp]: "pulse_lengths t (edges_of t ps) = ps"
  by (induction ps arbitrary: t) simp_all

lemma length_edges_of [simp]: "length (edges_of t ps) = length ps"
  by (induction ps arbitrary: t) simp_all

section \<open>The sign of the temperature\<close>

lemma sint_of_int_small:
  "- 32768 \<le> k \<Longrightarrow> k < 32768 \<Longrightarrow> sint (word_of_int k :: avr_int) = k"
  by (simp add: signed_of_int signed_take_bit_int_eq_self)

lemma sign_test: "(t :: avr_int) AND push_bit 15 1 \<noteq> 0 \<longleftrightarrow> bit t 15"
  by (auto simp: bit_iff_and_push_bit_not_eq_0)

lemma magnitude: "(t :: avr_int) AND NOT (push_bit 15 1) = take_bit 15 t"
  unfolding unset_bit_def [symmetric]
  by (rule bit_word_eqI) (auto simp: bit_unset_bit_iff bit_take_bit_iff)

lemma uint_magnitude: "uint (take_bit 15 (t :: avr_int)) < 32768"
  using take_bit_int_less_exp[of 15 "uint t"] by (simp add: unsigned_take_bit_eq)

lemma sint_signed_temperature:
  "sint (signed_temperature t) =
     (if bit t 15 then - uint (take_bit 15 t) else uint (take_bit 15 t))"
proof -
  let ?m = "take_bit 15 t"
  have b: "0 \<le> uint ?m" "uint ?m < 32768" using uint_magnitude by simp_all
  have neg: "- ?m = word_of_int (- uint ?m)" by simp
  show ?thesis
  proof (cases "bit t 15")
    case True
    then have "signed_temperature t = word_of_int (- uint ?m)"
      using neg by (simp only: signed_temperature_def sign_test magnitude if_True)
    moreover have "- 32768 \<le> - uint ?m" "- uint ?m < 32768" using b by linarith+
    ultimately show ?thesis
      using True sint_of_int_small[of "- uint ?m"] by (simp del: of_int_minus)
  next
    case False
    have "?m = t"
      using False by (auto intro!: bit_word_eqI simp: bit_simps less_Suc_eq numeral_nat)
    moreover have "signed_temperature t = t"
      using False by (simp only: signed_temperature_def sign_test if_False)
    moreover have "- 32768 \<le> uint ?m" using b by linarith
    ultimately show ?thesis
      using False b sint_of_int_small[of "uint ?m"] by simp
  qed
qed

section \<open>A whole read\<close>

lemma same_captureD:
  "same_capture s s' \<Longrightarrow> timings s' = timings s \<and>
     signalLineChanges s' = signalLineChanges s \<and>
     lastTransitionMicros s' = lastTransitionMicros s \<and> attached s' = attached s"
  by (simp add: same_capture_def)

lemma finish_cases:
  assumes "finish_capture s r = (s', r')"
  shows "if errorFlag s' then r' = r
         else signalLineChanges s' = 86 \<and> \<not> attached s' \<and> frame_reading (timings s') = Some r'"
proof (cases "signalLineChanges s = 86")
  case False
  then show ?thesis
    using assms by (auto simp: finish_capture_def detachInterrupt_def do_actions_def)
next
  case True
  let ?d = "detachInterrupt s"
  have a: "analyseTimings ?d r = (s', r')" and d: "signalLineChanges ?d = 86" "\<not> attached ?d"
    using assms True by (auto simp: finish_capture_def detachInterrupt_def do_actions_def)
  show ?thesis
  proof (cases "frame_reading (timings ?d)")
    case None
    then show ?thesis using analyse_bad[of ?d r] a by simp
  next
    case (Some x)
    then obtain h t c where w: "frame_words (timings ?d) = Some (h, t, c)"
        "ucast (checksum h t) = c" "x = \<lparr>temperature_decidegrees_c = signed_temperature t,
                     rel_humidity_decipercent = h\<rparr>"
      by (auto simp: frame_reading_def split: option.splits if_splits)
    show ?thesis
    proof (cases "errorFlag ?d")
      case False
      then show ?thesis using analyse_ok[OF w(1) _ w(2), of r] a w(3) Some d by simp
    next
      case True
      then show ?thesis using analyse_flagged[OF True, of r] a by simp
    qed
  qed
qed

lemma wait_loop_one:
  assumes "attached s" and "line_changes (edges (env k)) (do_actions [Delay 100] s) = Inr s'"
    and "86 \<le> sint (signalLineChanges s')"
  shows "wait_loop (Suc fuel) env k s = Some (Inr s')"
  using assms by (simp add: deliver_def do_actions_def)

lemma capture_split:
  assumes "recorded 0 s" and "line_changes es0 s = Inr s1" and "same_capture s1 s2"
    and "length es0 + length es1 \<le> 88"
  shows "\<exists>s3. line_changes es1 s2 = Inr s3 \<and> recorded (length es0 + length es1) s3 \<and>
           errorFlag s3 = errorFlag s2 \<and>
           timings s3 = pulse_lengths (lastTransitionMicros s) (es0 @ es1) @
             drop (length es0 + length es1) (timings s)"
proof -
  have r1: "recorded (length es0) s1"
    using line_changes_capacity[OF assms(1), of es0] assms(2,4) by auto
  have r2: "recorded (length es0) s2"
    using r1 same_captureD[OF assms(3)] by (simp add: recorded_def)
  obtain s3 where s3: "line_changes es1 s2 = Inr s3" "recorded (length es0 + length es1) s3"
    using line_changes_capacity[OF r2, of es1] assms(4) by auto
  have t1: "timings s1 = pulse_lengths (lastTransitionMicros s) es0 @ drop (length es0) (timings s)"
    using line_changes_timings[OF assms(1,2)] by simp
  have "lastTransitionMicros s2 = last_edge (lastTransitionMicros s) es0"
    using line_changes_last[OF assms(2)] same_captureD[OF assms(3)] by simp
  then have "timings s3 = pulse_lengths (lastTransitionMicros s) (es0 @ es1) @
      drop (length es0 + length es1) (timings s)"
    using line_changes_timings[OF r2 s3(1)] t1 same_captureD[OF assms(3)]
    by (simp add: pulse_lengths_append add.commute)
  then show ?thesis using s3 line_changes_keeps[OF s3(1)] by blast
qed


section \<open>Debug output\<close>

lemma timing_text_fits: "i < 100 \<Longrightarrow> length (timing_text i v) < 24"
proof -
  assume i: "i < 100"
  have "length (show_int (int i)) \<le> 2"
    using i length_show_base [of i 2] by (simp add: show_int_def)
  moreover have "\<bar>sint v\<bar> < 10 ^ 5" using sint_range_size [of v] by (simp add: word_size abs_less_iff)
  then have "length (show_int (sint v)) \<le> 6" using length_show_int [of "sint v" 5] by simp
  ultimately show ?thesis by (simp add: timing_text_def Let_def) linarith
qed

text \<open>The buffer of \<open>debugPrintTimings\<close> is large enough for every capture.\<close>

lemma debugPrintTimings_ends: "\<exists>out. debugPrintTimings s = Inr out"
proof -
  have "list_all (\<lambda>i. i < 100) is \<Longrightarrow> \<exists>out. print_timings is s = Inr out" for "is" :: "nat list"
    by (induction "is") (auto simp: Let_def timing_text_fits)
  then show ?thesis by (simp add: debugPrintTimings_def list_all_iff)
qed

end
