(* ===== verification/Dht22_Properties.thy ===== *)
theory Dht22_Properties
  imports Dht22_Laws
begin

text \<open>
  The properties of the humidity and temperature reader: what a well-formed frame decodes to,
  when a capture is rejected, what a failed read leaves alone, how much the interrupt routine can
  record, that the polling loop ends, and what the sketch prints.
\<close>

unbundle bit_operations_syntax

text \<open>An idle sensor record, for the concrete instances.\<close>

definition idle_sensor :: "avr_int list \<Rightarrow> sensor" where
  "idle_sensor ts = \<lparr>timings = ts, signalLineChanges = 86, lastTransitionMicros = 0,
     errorMsgBuf = [], errorFlag = False, attached = False, actions = []\<rparr>"

definition no_reading :: reading where
  "no_reading = \<lparr>temperature_decidegrees_c = 0, rel_humidity_decipercent = 0\<rparr>"

text \<open>C4: A capture whose pulses encode a humidity, a raw temperature and their checksum is decoded
  to that humidity and to the temperature with bit 15 as its sign and the other bits as its
  magnitude; nothing is reported and nothing else of the state changes.\<close>

theorem analyse_decodes_frame:
  assumes "frame_bits (timings s) 5 40 = Some (sent_frame h t (checksum h t))"
    and "\<not> errorFlag s"
  shows "analyseTimings s r = (s, \<lparr>temperature_decidegrees_c = signed_temperature t,
             rel_humidity_decipercent = h\<rparr>) \<and>
         sint (signed_temperature t) =
           (if bit t 15 then - uint (take_bit 15 t) else uint (take_bit 15 t))"
  using analyse_ok[OF frame_words_sent[OF assms(1)] assms(2) refl] sint_signed_temperature
  by simp

text \<open>The data sheet's example: humidity 65.2 and a temperature of -10.1 degrees.\<close>

theorem analyse_decodes_frame_witness:
  "snd (analyseTimings (idle_sensor (nominal_capture 652 0x8065 (checksum 652 0x8065))) no_reading) =
     \<lparr>temperature_decidegrees_c = signed_temperature 0x8065, rel_humidity_decipercent = 652\<rparr> \<and>
   sint (signed_temperature 0x8065) = -101"
  using analyse_decodes_frame[of "idle_sensor (nominal_capture 652 0x8065 (checksum 652 0x8065))"
      652 "0x8065" no_reading]
  by (simp add: idle_sensor_def frame_bits_capture)




text \<open>C24: \<open>readSensor\<close> keeps its promise to its caller: when it returns false the two readings are
  as they were, and when it returns true the capture had exactly 86 line changes, the readings are
  those of the captured frame and the interrupt routine is no longer attached.\<close>

theorem readSensor_contract:
  assumes "readSensor fuel env s r = Some (Inr (ok, s', r'))"
  shows "if ok then signalLineChanges s' = 86 \<and> \<not> attached s' \<and>
                    frame_reading (timings s') = Some r'
         else r' = r"
proof -
  obtain s1 where s1: "deliver (ev_request_edges env)
      (attachInterrupt (initState (ev_now env) s)) = Inr s1"
    using assms by (auto simp: readSensor_def split: sum.splits)
  obtain q s2 where q: "requestSensorRead (ev_line_high env) (ev_low env) (ev_high env) s1 = (q, s2)"
    by force
  show ?thesis
  proof (cases q)
    case False
    then show ?thesis using assms s1 q by (auto simp: readSensor_def Let_def)
  next
    case True
    then obtain s3 where "wait_loop fuel (ev_poll env) 0 s2 = Some (Inr s3)"
      using assms s1 q by (auto simp: readSensor_def split: option.splits sum.splits)
    then have "finish_capture s3 r = (s', r')" "ok \<longleftrightarrow> \<not> errorFlag s'"
      using assms s1 q True by (auto simp: readSensor_def split: prod.splits)
    then show ?thesis using finish_cases[of s3 r s' r'] by simp
  qed
qed

text \<open>A capture of two pulses only, seen while the line does not answer: the read fails.\<close>

theorem readSensor_contract_witness:
  "\<exists>s'. readSensor 0 \<lparr>ev_now = 0, ev_line_high = False, ev_low = 0, ev_high = 0,
       ev_request_edges = [(10, 10), (20, 20)], ev_idle_edges = [],
       ev_poll = (\<lambda>k. \<lparr>edges = [], elapsed = 100\<rparr>)\<rparr> (idle_sensor (replicate 88 0)) no_reading =
     Some (Inr (False, s', no_reading)) \<and> signalLineChanges s' = 2"
proof -
  let ?env = "\<lparr>ev_now = 0, ev_line_high = False, ev_low = 0, ev_high = 0,
       ev_request_edges = [(10, 10), (20, 20)], ev_idle_edges = [],
       ev_poll = (\<lambda>k. \<lparr>edges = [], elapsed = 100\<rparr>)\<rparr>"
  obtain s' r' where s': "readSensor 0 ?env (idle_sensor (replicate 88 0)) no_reading =
      Some (Inr (False, s', r'))" "signalLineChanges s' = 2"
    by (simp add: readSensor_def deliver_def attachInterrupt_def initState_def detachInterrupt_def
        do_actions_def sensorLineChange_def requestSensorRead_def flagError_def set_msg_def
        idle_sensor_def Let_def)
  then have "r' = no_reading" using readSensor_contract[OF s'(1)] by simp
  then show ?thesis using s' by simp
qed

text \<open>A sensor that answers: the first five pulses are seen during the request.\<close>

definition answering :: "avr_int list \<Rightarrow> environment" where
  "answering ps =
     (let es = edges_of 0 ps in
      \<lparr>ev_now = 0, ev_line_high = True, ev_low = 80, ev_high = 80,
       ev_request_edges = take 5 es, ev_idle_edges = [],
       ev_poll = (\<lambda>k. \<lparr>edges = if k = 0 then drop 5 es else [], elapsed = 100 * (k + 1)\<rparr>)\<rparr>)"

lemma answering_fields:
  "ev_now (answering ps) = 0" "ev_line_high (answering ps)"
  "ev_low (answering ps) = 80" "ev_high (answering ps) = 80"
  "ev_request_edges (answering ps) = take 5 (edges_of 0 ps)"
  "edges (ev_poll (answering ps) 0) = drop 5 (edges_of 0 ps)"
  by (simp_all add: answering_def Let_def)

text \<open>C5: End to end: when the line is high, the sensor answers the request, and the interrupts
  during the request and the first pause are 86 whose pulse lengths encode a frame,
  \<open>readSensor\<close> returns true with the encoded humidity and temperature, for every clock value at
  the start and every earlier state.\<close>

theorem readSensor_end_to_end:
  assumes "length (timings s) = 88" and "ev_line_high env"
    and "(ucast (ev_low env) :: avr_int) \<noteq> 0" and "(ucast (ev_high env) :: avr_int) \<noteq> 0"
    and "es = ev_request_edges env @ edges (ev_poll env 0)" and "length es = 86"
    and "frame_bits (pulse_lengths (ev_now env) es) 5 40 =
           Some (sent_frame h t (checksum h t))"
  shows "\<exists>s'. readSensor (Suc fuel) env s r = Some (Inr (True, s',
           \<lparr>temperature_decidegrees_c = signed_temperature t, rel_humidity_decipercent = h\<rparr>))"
proof -
  let ?s0 = "attachInterrupt (initState (ev_now env) s)"
  have r0: "recorded 0 ?s0" "attached ?s0" "\<not> errorFlag ?s0"
      "lastTransitionMicros ?s0 = ev_now env"
    using recorded_init[OF assms(1), of "ev_now env"]
    by (simp_all add: recorded_def attachInterrupt_def do_actions_def initState_def)
  obtain s1 where s1: "line_changes (ev_request_edges env) ?s0 = Inr s1"
    using line_changes_capacity[OF r0(1), of "ev_request_edges env"] assms(5,6) by auto
  then have k1: "attached s1" "\<not> errorFlag s1" using line_changes_keeps[OF s1] r0 by simp_all
  obtain s2 where q: "requestSensorRead True (ev_low env) (ev_high env) s1 = (True, s2)"
      "same_capture s1 s2" "errorFlag s2 = errorFlag s1"
    using request_ok[OF assms(3,4), of s1] by blast
  have c: "same_capture s1 (do_actions [Delay 100] s2)"
    using q(2) same_capture_do_actions same_capture_trans by blast
  have n: "length (ev_request_edges env) + length (edges (ev_poll env 0)) = 86"
    using assms(5,6) by simp
  obtain s3 where s3: "line_changes (edges (ev_poll env 0)) (do_actions [Delay 100] s2) = Inr s3"
      "recorded 86 s3" "\<not> errorFlag s3"
      "timings s3 = pulse_lengths (ev_now env) es @ drop 86 (timings ?s0)"
    using capture_split[OF r0(1) s1 c, of "edges (ev_poll env 0)"] n k1(2) q(3) r0(4) assms(5)
    by auto
  have f: "frame_bits (timings s3) 5 40 = Some (sent_frame h t (checksum h t))"
    using s3(4) assms(6,7) by (simp add: frame_bits_prefix)
  have "sint (signalLineChanges s3) = 86"
    using s3(2) sint_small[of 86] by (simp add: recorded_def)
  moreover have "attached s2" using same_captureD[OF q(2)] k1(1) by simp
  ultimately have w: "wait_loop (Suc fuel) (ev_poll env) 0 s2 = Some (Inr s3)"
    using wait_loop_one[where env = "ev_poll env" and k = 0, OF _ s3(1)] by simp
  let ?e = "detachInterrupt s3"
  have e: "timings ?e = timings s3" "\<not> errorFlag ?e" "signalLineChanges ?e = 86"
    using s3(2,3) by (simp_all add: detachInterrupt_def do_actions_def recorded_def)
  then have "finish_capture s3 r = (?e, \<lparr>temperature_decidegrees_c = signed_temperature t,
      rel_humidity_decipercent = h\<rparr>)"
    using analyse_ok[OF frame_words_sent, of ?e h t "checksum h t" r] f
    by (simp add: finish_capture_def)
  then show ?thesis
    using r0(2) s1 q(1) w assms(2) e(2)
    by (simp add: readSensor_def deliver_def del: wait_loop.simps)
qed

theorem readSensor_end_to_end_witness:
  "\<exists>s'. readSensor 1 (answering (take 86 (nominal_capture 652 351 (checksum 652 351))))
      (idle_sensor (replicate 88 0)) no_reading =
    Some (Inr (True, s', \<lparr>temperature_decidegrees_c = signed_temperature 351,
      rel_humidity_decipercent = 652\<rparr>))"
proof -
  have gen: "\<exists>s'. readSensor 1 (answering ps) (idle_sensor (replicate 88 0)) no_reading =
      Some (Inr (True, s', \<lparr>temperature_decidegrees_c = signed_temperature t,
        rel_humidity_decipercent = h\<rparr>))"
    if "length ps = 86" "frame_bits ps 5 40 = Some (sent_frame h t (checksum h t))" for ps h t
  proof -
    have "\<exists>s'. readSensor (Suc 0) (answering ps) (idle_sensor (replicate 88 0)) no_reading =
      Some (Inr (True, s', \<lparr>temperature_decidegrees_c = signed_temperature t,
        rel_humidity_decipercent = h\<rparr>))"
      by (rule readSensor_end_to_end[where es = "edges_of 0 ps"])
        (simp_all only: answering_fields length_edges_of pulse_lengths_edges_of that
          append_take_drop_id, simp_all add: idle_sensor_def)
    then show ?thesis by simp
  qed
  have n: "length (nominal_capture h t c) = 88" for h t c
    by (simp add: nominal_capture_def)
  have "frame_bits (take 86 (nominal_capture h t c)) 5 40 = Some (sent_frame h t c)" for h t c
    using frame_bits_prefix[of 5 40 "take 86 (nominal_capture h t c)"
        "drop 86 (nominal_capture h t c)"] n
    by (simp add: frame_bits_capture)
  then show ?thesis using gen n by simp
qed

text \<open>C32: The interrupt routine can record 88 line changes after \<open>initState\<close> and no more: up to 88
  it stores each pulse length in its own entry, in order, and the next one writes past the array.\<close>

theorem isr_capacity:
  assumes "length (timings s) = 88"
  shows "if length es \<le> 88
         then \<exists>s'. line_changes es (initState now s) = Inr s' \<and>
                signalLineChanges s' = of_nat (length es) \<and>
                take (length es) (timings s') = pulse_lengths now es
         else line_changes es (initState now s) = Inl Undefined"
proof -
  have r: "recorded 0 (initState now s)" by (rule recorded_init[OF assms])
  have l: "lastTransitionMicros (initState now s) = now" by (simp add: initState_def)
  show ?thesis
    using line_changes_capacity[OF r, of es] line_changes_timings[OF r, of es]
    by (auto simp: recorded_def l)
qed

theorem isr_capacity_witness:
  "line_changes (replicate 89 (0, 0)) (initState 0 (idle_sensor (replicate 88 0))) = Inl Undefined"
  using isr_capacity[of "idle_sensor (replicate 88 0)" "replicate 89 (0, 0)" 0]
  by (simp add: idle_sensor_def)

text \<open>C33: The polling loop ends: with \<open>delay(100)\<close> waiting at least 100 milliseconds each time, ten
  turns are enough, whatever the interrupts do; so every read returns or stops.\<close>

theorem readSensor_returns:
  assumes "\<And>k. 100 * (k + 1) \<le> elapsed (ev_poll env k)"
  shows "readSensor 10 env s r \<noteq> None"
proof -
  have "wait_loop 10 (ev_poll env) 0 x \<noteq> None" for x
    using wait_loop_ends[of "ev_poll env" 0 10] assms by simp
  then show ?thesis
    by (simp add: readSensor_def Let_def split: sum.split prod.split option.split
        del: not_None_eq)
qed

theorem readSensor_returns_witness:
  "readSensor 10 (answering []) (idle_sensor (replicate 88 0)) no_reading \<noteq> None"
  using readSensor_returns[of "answering []"] by (simp add: answering_def)

text \<open>The printed reading loses the sign of a temperature between -0.9 and -0.1 degrees: it is
  printed as the same temperature above zero.\<close>

lemma format_loses_sign:
  assumes "0 < t" and "t < 10"
  shows "format_reading (- t) h = format_reading t h"
  using assms by (simp add: format_reading_def c_div_def c_mod_def)

end
