(* ===== verification/Proc_Report.thy ===== *)
theory Proc_Report
  imports C_Prelude
begin

text \<open>
  The report that \<open>postgresql/memory_accounting_demos/fork_cow_demo.c\<close> prints about the memory
  of its processes (\<open>print_proc_statm\<close>, \<open>print_proc_smaps\<close>, \<open>print_proc_status\<close> and
  \<open>report_memory_use\<close>): what it reads under \<open>/proc\<close>, the C library's line and number input,
  and the text it writes.  The files are a parameter: the content of a path, or None where
  \<open>fopen\<close> fails, after which the code reads through a null stream.
\<close>

type_synonym proc_files = "string \<Rightarrow> string option"

section \<open>Line input and padded output\<close>

text \<open>
  \<open>fgets(buf, n, f)\<close> takes up to and including the next newline, but at most \<open>n - 1\<close>
  characters; at the end of the file it gives nothing.
\<close>

fun fgets_len :: "nat \<Rightarrow> string \<Rightarrow> nat" where
  "fgets_len 0 s = 0"
| "fgets_len (Suc k) [] = 0"
| "fgets_len (Suc k) (c # s) = (if c = NL then 1 else Suc (fgets_len k s))"

definition fgets :: "nat \<Rightarrow> string \<Rightarrow> (string \<times> string) option" where
  "fgets n s =
     (if s = [] then None
      else Some (take (fgets_len (n - 1) s) s, drop (fgets_len (n - 1) s) s))"

lemma fgets_len_le: "fgets_len k s \<le> k \<and> fgets_len k s \<le> length s"
  by (induction k s rule: fgets_len.induct) auto

lemma fgets_len_pos: "0 < k \<Longrightarrow> s \<noteq> [] \<Longrightarrow> 0 < fgets_len k s"
  by (cases k; cases s) simp_all

text \<open>The loops \<open>while ((line = fgets(...)) != NULL)\<close>; the buffers have room for two or more.\<close>

function fgets_all :: "nat \<Rightarrow> string \<Rightarrow> string list" where
  "fgets_all n s =
     (if n < 2 then []
      else case fgets n s of None \<Rightarrow> [] | Some (line, rest) \<Rightarrow> line # fgets_all n rest)"
  by pat_completeness auto
termination
proof (relation "measure (\<lambda>(n, s). length s)", simp)
  fix n :: nat and s :: string and x line rest
  assume "\<not> n < 2" and f: "fgets n s = Some x" "(line, rest) = x"
  have "s \<noteq> []" using f by (auto simp: fgets_def split: if_splits)
  moreover have "0 < fgets_len (n - 1) s"
    using \<open>\<not> n < 2\<close> calculation by (intro fgets_len_pos) simp_all
  ultimately show "((n, rest), (n, s)) \<in> measure (\<lambda>(n, s). length s)"
    using f by (auto simp: fgets_def split: if_splits)
qed

declare fgets_all.simps [simp del]

definition pad_left :: "nat \<Rightarrow> string \<Rightarrow> string" where
  "pad_left n s = replicate (n - length s) CHR '' '' @ s"

definition pad_right :: "nat \<Rightarrow> string \<Rightarrow> string" where
  "pad_right n s = s @ replicate (n - length s) CHR '' ''"

text \<open>\<open>printf("%10d %-10s %s", pid, label, line)\<close>.\<close>

definition labelled :: "int \<Rightarrow> string \<Rightarrow> string \<Rightarrow> string" where
  "labelled pid label line =
     pad_left 10 (show_int pid) @ '' '' @ pad_right 10 label @ '' '' @ line"

section \<open>The three files\<close>

text \<open>
  \<open>snprintf(path, n, "/proc/%u/...", pid)\<close>: the process id is printed as unsigned; the buffer
  keeps \<open>n - 1\<close> characters.
\<close>

definition proc_path :: "nat \<Rightarrow> int \<Rightarrow> string \<Rightarrow> string" where
  "proc_path n pid file =
     fst (snprintf n (''/proc/'' @ show_int (uint (word_of_int pid :: 32 word)) @ ''/'' @ file))"

text \<open>
  \<open>fscanf("%lu ...")\<close>: \<open>k\<close> numbers, each after optional white space; None when one of
  them does not match.
\<close>

fun scan_lu :: "nat \<Rightarrow> string \<Rightarrow> nat list option" where
  "scan_lu 0 s = Some []"
| "scan_lu (Suc k) s =
     (let t = dropWhile is_space s;
          ds = takeWhile (is_digit 10) t
      in if ds = [] then None
         else map_option ((#) (digits_value 10 ds)) (scan_lu k (dropWhile (is_digit 10) t)))"

definition times_page_kb :: "nat \<Rightarrow> nat" where
  "times_page_kb n = unat (of_nat n * 4 :: 64 word)"

definition show_nat :: "nat \<Rightarrow> string" where
  "show_nat n = show_base 10 n"

definition print_proc_statm_header :: string where
  "print_proc_statm_header =
     pad_left 10 ''pid'' @ '' '' @ pad_right 10 ''process'' @ '' '' @ pad_left 10 ''size'' @ '' '' @
     pad_left 10 ''resident'' @ '' '' @ pad_left 10 ''shared'' @ '' '' @ pad_left 10 ''text'' @
     '' '' @ pad_left 10 ''data'' @ [NL]"

definition statm_line :: "int \<Rightarrow> string \<Rightarrow> nat list \<Rightarrow> string" where
  "statm_line pid label ns =
     labelled pid label
       (concat (map (\<lambda>n. pad_left 10 (show_nat (times_page_kb n)) @ '' '') (butlast ns)) @
        pad_left 10 (show_nat (times_page_kb (last ns)))) @ [NL]"

text \<open>Of the seven fields, \<open>lib\<close> (the fifth) and \<open>dt\<close> (the last) are not printed.\<close>

definition print_proc_statm :: "proc_files \<Rightarrow> int \<Rightarrow> string \<Rightarrow> string res" where
  "print_proc_statm fs pid label =
     (case fs (proc_path 40 pid ''statm'') of
        None \<Rightarrow> Inl Undefined
      | Some s \<Rightarrow>
          (case scan_lu 7 s of
             Some [sz, resident, shared, tx, lib, dat, dt] \<Rightarrow>
               Inr (statm_line pid label [sz, resident, shared, tx, dat])
           | _ \<Rightarrow> Inl (Exit 1)))"

definition print_lines :: "int \<Rightarrow> string \<Rightarrow> string list \<Rightarrow> string" where
  "print_lines pid label ls = concat (map (labelled pid label) ls) @ [NL]"

definition print_proc_smaps :: "proc_files \<Rightarrow> int \<Rightarrow> string \<Rightarrow> string res" where
  "print_proc_smaps fs pid label =
     (case fs (proc_path 40 pid ''smaps_rollup'') of
        None \<Rightarrow> Inl Undefined
      | Some s \<Rightarrow>
          let rest = (case fgets 100 s of None \<Rightarrow> s | Some (_, r) \<Rightarrow> r) in
          Inr (print_lines pid label (fgets_all 100 rest)))"

definition print_proc_status :: "proc_files \<Rightarrow> int \<Rightarrow> string \<Rightarrow> string res" where
  "print_proc_status fs pid label =
     (case fs (proc_path 40 pid ''status'') of
        None \<Rightarrow> Inl Undefined
      | Some s \<Rightarrow> Inr (print_lines pid label (fgets_all 2048 s)))"

section \<open>The whole report\<close>

text \<open>
  What the report does: text written to the standard output and commands given to \<open>system\<close>.
\<close>

datatype report_out = Text string | System string

definition ps_command :: "int \<Rightarrow> int \<Rightarrow> string" where
  "ps_command parent_pid child_pid =
     fst (snprintf 100 (''ps  -o pid,ppid,pmem,rss,size,vsz,drs,sz -p '' @ show_int parent_pid @
       '' -p '' @ show_int (if 0 < child_pid then child_pid else parent_pid)))"

text \<open>A block of the report: one printer for the parent, and for the child when there is one.\<close>

definition for_both ::
    "(int \<Rightarrow> string \<Rightarrow> string res) \<Rightarrow> int \<Rightarrow> int \<Rightarrow> string res" where
  "for_both p parent_pid child_pid =
     rbind (p parent_pid ''parent'') (\<lambda>a.
       if 0 < child_pid then rbind (p child_pid ''child'') (\<lambda>b. Inr (a @ b)) else Inr a)"

definition report_memory_use :: "proc_files \<Rightarrow> int \<Rightarrow> int \<Rightarrow> report_out list res" where
  "report_memory_use fs parent_pid child_pid =
     rbind (for_both (print_proc_statm fs) parent_pid child_pid) (\<lambda>statm.
     rbind (for_both (print_proc_smaps fs) parent_pid child_pid) (\<lambda>smaps.
     rbind (for_both (print_proc_status fs) parent_pid child_pid) (\<lambda>status.
       Inr [Text (NL # ''# ps output:'' @ [NL]),
            System (ps_command parent_pid child_pid),
            Text (NL # ''# /proc/$pid/statm info:'' @ [NL] @ print_proc_statm_header @ statm @ [NL] @
              ''# /proc/$pid/smaps_rollup info:'' @ [NL] @ smaps @
              ''# /proc/$pid/status info:'' @ [NL] @ status @ [NL] @
              ''free -k after fork() and CoW overwrite:'' @ [NL]),
            System ''free -k''])))"

section \<open>Lemmas\<close>

lemma fgets_all_concat: "2 \<le> n \<Longrightarrow> concat (fgets_all n s) = s"
proof (induction n s rule: fgets_all.induct)
  case (1 n s)
  show ?case
  proof (cases "fgets n s")
    case None
    then show ?thesis by (subst fgets_all.simps) (simp add: fgets_def split: if_splits)
  next
    case (Some p)
    then have "p = (take (fgets_len (n - 1) s) s, drop (fgets_len (n - 1) s) s)"
      by (simp add: fgets_def split: if_splits)
    then show ?thesis using 1 Some by (subst fgets_all.simps) simp
  qed
qed

lemma fgets_all_bound: "line \<in> set (fgets_all n s) \<Longrightarrow> length line \<le> n - 1"
proof (induction n s rule: fgets_all.induct)
  case (1 n s)
  show ?case
  proof (cases "n < 2 \<or> fgets n s = None")
    case True
    then show ?thesis using 1(2) by (subst (asm) fgets_all.simps) (auto split: if_splits)
  next
    case False
    then have f: "fgets n s = Some (take (fgets_len (n - 1) s) s, drop (fgets_len (n - 1) s) s)"
      by (simp add: fgets_def split: if_splits)
    have "fgets_all n s = take (fgets_len (n - 1) s) s #
        fgets_all n (drop (fgets_len (n - 1) s) s)"
      using False f by (subst fgets_all.simps) simp
    then show ?thesis
      using 1 False f fgets_len_le[of "n - 1" s] by auto
  qed
qed

text \<open>A line short enough for the buffer is read whole.\<close>

lemma fgets_len_line:
  "NL \<notin> set l \<Longrightarrow> length l < k \<Longrightarrow> fgets_len k (l @ NL # r) = Suc (length l)"
proof (induction l arbitrary: k)
  case Nil
  then show ?case by (cases k) simp_all
next
  case (Cons c l)
  then show ?case by (cases k) auto
qed

lemma fgets_line:
  assumes "NL \<notin> set l" and "Suc (length l) < n"
  shows "fgets n (l @ NL # r) = Some (l @ [NL], r)"
  using fgets_len_line[of l "n - 1" r] assms by (simp add: fgets_def)

lemma fgets_all_lines:
  "2 \<le> n \<Longrightarrow> \<forall>l \<in> set ls. NL \<notin> set l \<and> Suc (length l) < n \<Longrightarrow>
     fgets_all n (concat (map (\<lambda>l. l @ [NL]) ls)) = map (\<lambda>l. l @ [NL]) ls"
proof (induction ls)
  case Nil
  then show ?case by (subst fgets_all.simps) (simp add: fgets_def)
next
  case (Cons l ls)
  then show ?case by (subst fgets_all.simps) (simp add: fgets_line)
qed

lemma not_digit_separator: "\<not> is_digit 10 CHR '' ''" "\<not> is_digit 10 NL"
  by (simp_all add: is_digit_def digit_val_def)

lemma scan_lu_number:
  assumes "r = [] \<or> \<not> is_digit 10 (hd r)" and "is_space w"
  shows "scan_lu (Suc k) (w # show_base 10 n @ r) = map_option ((#) n) (scan_lu k r)"
    and "scan_lu (Suc k) (show_base 10 n @ r) = map_option ((#) n) (scan_lu k r)"
proof -
  have d: "list_all (is_digit 10) (show_base 10 n)" by (rule show_base_digits) simp_all
  then have "is_digit 10 (hd (show_base 10 n))" by (cases "show_base 10 n") simp_all
  then have "\<not> is_space (hd (show_base 10 n))" by (simp add: digit_not_space_sign)
  then have s: "dropWhile is_space (show_base 10 n @ r) = show_base 10 n @ r"
    by (cases "show_base 10 n") simp_all
  have t: "takeWhile (is_digit 10) (show_base 10 n @ r) = show_base 10 n"
      "dropWhile (is_digit 10) (show_base 10 n @ r) = r"
    using d assms(1) by (cases r; simp add: list_all_iff takeWhile_append dropWhile_append)+
  show "scan_lu (Suc k) (show_base 10 n @ r) = map_option ((#) n) (scan_lu k r)"
    by (simp add: s t Let_def digits_value_show_base)
  then show "scan_lu (Suc k) (w # show_base 10 n @ r) = map_option ((#) n) (scan_lu k r)"
    using assms(2) by simp
qed

end
