(* ===== verification/Fork_Cow.thy ===== *)
theory Fork_Cow
  imports Proc_Report
begin

text \<open>
  \<open>postgresql/memory_accounting_demos/fork_cow_demo.c\<close>: the arguments, the heap and shared
  memory chunks the parent writes, the copy-on-write child, the numbers that are reported, the
  request to page out, the two wait loops and the clean-up.  The kernel is a parameter (what
  \<open>malloc\<close>, \<open>mmap\<close>, \<open>shm_open\<close>, \<open>ftruncate\<close>, \<open>fork\<close> and \<open>madvise\<close> return, the process
  ids, the files under \<open>/proc\<close>, the user's keys); sizes are 64-bit words.  The
  handshake by SIGUSR1 between the two processes is the theory \<open>Fork_Signal\<close>.
\<close>

type_synonym size = "64 word"

datatype chunk =
  Heap_untouched | Heap_parent_dirty | Heap_cow | Shm_untouched | Shm_parent_dirty | Shm_cow

text \<open>A pointer to a shared chunk: 0, \<open>MAP_FAILED\<close>, or a mapping of some bytes.\<close>

datatype shm_ptr = Null | Map_failed | Mapped nat

datatype event =
    Printed string "int list"
  | Shm_unlink | Shm_open | Ftruncate int
  | Oom_score string
  | Malloc chunk nat | Mmap chunk nat
  | Madvise chunk nat
  | Report report_out
  | Kill int string
  | Free chunk | Munmap chunk nat

text \<open>One process: its private chunks (None before \<open>malloc\<close> and for a failed one; a byte that was
  never written is None), its pointers into the shared segment, and what it did.\<close>

record process =
  heap :: "chunk \<Rightarrow> 8 word option list option"
  shm :: "chunk \<Rightarrow> shm_ptr"
  trace :: "event list"

text \<open>The bytes of the POSIX shared memory segment belong to every process that maps them.\<close>

record system =
  proc :: process
  segment :: "8 word list"

datatype key = Key char | End_of_input

record kernel =
  k_malloc :: "chunk \<Rightarrow> bool"
  k_mmap :: "chunk \<Rightarrow> bool"
  k_shm_open :: int
  k_ftruncate :: "int \<Rightarrow> bool"
  k_oom_file :: bool
  k_after_literal :: string
  k_oom_write :: bool
  k_getpid :: int
  k_fork :: int
  k_child_getppid :: int
  k_madvise :: "chunk \<Rightarrow> bool"
  k_files :: proc_files
  k_sigusr1 :: bool
  k_isatty :: bool
  k_key :: "nat \<Rightarrow> key"
  k_sigint :: "nat \<Rightarrow> bool"
  k_sighup :: "nat \<Rightarrow> bool"

definition log_event :: "event \<Rightarrow> system \<Rightarrow> system" where
  "log_event e s = s\<lparr>proc := (proc s)\<lparr>trace := trace (proc s) @ [e]\<rparr>\<rparr>"

definition log_events :: "event list \<Rightarrow> system \<Rightarrow> system" where
  "log_events es s = s\<lparr>proc := (proc s)\<lparr>trace := trace (proc s) @ es\<rparr>\<rparr>"

section \<open>Arguments\<close>

record config =
  chunk_size_bytes :: size
  shm_chunk_size_bytes :: size
  fork_child :: "32 word"
  pageout :: "32 word"
  wait_signal :: "32 word"
  shm_fd :: int

text \<open>Lines 155-161 and 174-180: every failure is \<open>usage_die\<close>, which ends with \<open>exit(1)\<close>.\<close>

definition parse_chunk_size :: "string \<Rightarrow> size res" where
  "parse_chunk_size arg =
     (let r = strtol arg 10 in
      if st_rest r \<noteq> [] then Inl (Exit 1)
      else if st_value r \<le> 0 then Inl (Exit 1)
      else Inr (word_of_int (st_value r)))"

definition untouched_size :: "size \<Rightarrow> size" where "untouched_size c = c"
definition parent_dirty_size :: "size \<Rightarrow> size" where "parent_dirty_size c = 2 * c"
definition cow_size :: "size \<Rightarrow> size" where "cow_size c = 4 * c"

definition total_bytes :: "size \<Rightarrow> int" where
  "total_bytes c = sint (untouched_size c + parent_dirty_size c + cow_size c)"

definition setup_shmem :: "kernel \<Rightarrow> int \<Rightarrow> system \<Rightarrow> (int \<times> system) res" where
  "setup_shmem k nbytes s =
     (if k_shm_open k < 0 then Inl (Exit 1)
      else if \<not> k_ftruncate k nbytes then Inl (Exit 1)
      else Inr (k_shm_open k,
        (log_events [Shm_unlink, Shm_open, Ftruncate nbytes] s)\<lparr>segment := replicate (nat nbytes) 0\<rparr>))"

text \<open>Lines 150-212; \<open>argv\<close> is the whole array, the program's name included.\<close>

definition parse_args :: "kernel \<Rightarrow> string list \<Rightarrow> system \<Rightarrow> (config \<times> system) res" where
  "parse_args k argv s =
     (let argc = length argv in
      if argc < 2 \<or> 6 < argc then Inl (Exit 1)
      else rbind (parse_chunk_size (argv ! 1)) (\<lambda>c.
        let s1 = log_event (Printed ''private bytes'' [total_bytes c]) s in
        rbind (if 3 \<le> argc
               then rbind (parse_chunk_size (argv ! 2)) (\<lambda>d.
                      rbind (setup_shmem k (total_bytes d)
                               (log_event (Printed ''shared bytes'' [total_bytes d]) s1))
                        (\<lambda>(fd, s2). Inr (d, fd, s2)))
               else Inr (0, 0, s1)) (\<lambda>(d, fd, s2).
          let cfg = \<lparr>chunk_size_bytes = c, shm_chunk_size_bytes = d,
                     fork_child = (if 4 \<le> argc then atoi (argv ! 3) else 1),
                     pageout = (if 5 \<le> argc then atoi (argv ! 4) else 0),
                     wait_signal = (if 6 \<le> argc then atoi (argv ! 5) else 1),
                     shm_fd = fd\<rparr>
          in Inr (cfg, log_event (Printed ''Configuration'' [sint c, sint d, sint (fork_child cfg),
               sint (pageout cfg), sint (wait_signal cfg)]) s2))))"

text \<open>
  \<open>oom_adjust\<close>: \<open>sizeof(score_adj_val)\<close> is the size of the pointer, eight, so the three bytes
  that lie behind the literal in memory are written too.
\<close>

definition oom_adjust :: "kernel \<Rightarrow> system \<Rightarrow> system res" where
  "oom_adjust k s =
     (if \<not> k_oom_file k then Inl (Exit 1)
      else if \<not> k_oom_write k then Inl (Exit 1)
      else Inr (log_event (Oom_score (take 8 (''800'' @ [NL, NUL] @ k_after_literal k))) s))"

section \<open>Memory\<close>

definition malloc_chunk :: "kernel \<Rightarrow> chunk \<Rightarrow> size \<Rightarrow> system \<Rightarrow> system" where
  "malloc_chunk k ch n s =
     log_event (Malloc ch (unat n))
       (s\<lparr>proc := (proc s)\<lparr>heap := (heap (proc s))(ch :=
          (if k_malloc k ch then Some (replicate (unat n) None) else None))\<rparr>\<rparr>)"

text \<open>Writing no bytes is harmless whatever the pointer; writing through 0 is undefined.\<close>

definition memset_heap :: "chunk \<Rightarrow> 8 word \<Rightarrow> size \<Rightarrow> system \<Rightarrow> system res" where
  "memset_heap ch v n s =
     (if n = 0 then Inr s
      else case heap (proc s) ch of
          None \<Rightarrow> Inl Undefined
        | Some bs \<Rightarrow>
            check (unat n \<le> length bs) Undefined
              (Inr (s\<lparr>proc := (proc s)\<lparr>heap := (heap (proc s))(ch :=
                 Some (replicate (unat n) (Some v) @ drop (unat n) bs))\<rparr>\<rparr>)))"

text \<open>
  \<open>shm_alloc\<close> maps from offset 0 every time.  \<open>mmap\<close> reports failure as \<open>MAP_FAILED\<close> and
  never returns 0, so the test of line 613 is never true; a length of 0 always fails.
\<close>

definition mmap_result :: "kernel \<Rightarrow> chunk \<Rightarrow> size \<Rightarrow> shm_ptr" where
  "mmap_result k ch n = (if n = 0 \<or> \<not> k_mmap k ch then Map_failed else Mapped (unat n))"

definition shm_alloc :: "kernel \<Rightarrow> chunk \<Rightarrow> size \<Rightarrow> system \<Rightarrow> system res" where
  "shm_alloc k ch n s =
     (let mem = mmap_result k ch n in
      if mem = Null then Inl (Exit 1)
      else Inr (log_event (Mmap ch (unat n))
             (s\<lparr>proc := (proc s)\<lparr>shm := (shm (proc s))(ch := mem)\<rparr>\<rparr>)))"

definition memset_shm :: "chunk \<Rightarrow> 8 word \<Rightarrow> size \<Rightarrow> system \<Rightarrow> system res" where
  "memset_shm ch v n s =
     (if n = 0 then Inr s
      else case shm (proc s) ch of
          Mapped m \<Rightarrow>
            check (unat n \<le> m \<and> unat n \<le> length (segment s)) Undefined
              (Inr (s\<lparr>segment := replicate (unat n) v @ drop (unat n) (segment s)\<rparr>))
        | _ \<Rightarrow> Inl Undefined)"

definition print_kb :: "string \<Rightarrow> size \<Rightarrow> system \<Rightarrow> system" where
  "print_kb label n = log_event (Printed label [uint (n div 1024)])"

text \<open>Lines 227-249.\<close>

definition alloc_heap :: "kernel \<Rightarrow> config \<Rightarrow> system \<Rightarrow> system res" where
  "alloc_heap k cfg s =
     (let c = chunk_size_bytes cfg;
          s1 = print_kb ''heap_untouched kb'' (untouched_size c)
                 (malloc_chunk k Heap_untouched (untouched_size c) s)
      in rbind (memset_heap Heap_parent_dirty 0x7f (parent_dirty_size c)
                  (malloc_chunk k Heap_parent_dirty (parent_dirty_size c) s1)) (\<lambda>s2.
         rbind (memset_heap Heap_cow 0x7f (cow_size c)
                  (malloc_chunk k Heap_cow (cow_size c)
                     (print_kb ''heap_parent_dirty kb'' (parent_dirty_size c) s2))) (\<lambda>s3.
           Inr (print_kb ''heap_cow kb'' (cow_size c) s3))))"

text \<open>Lines 251-266; without a second argument \<open>shm_fd\<close> is 0, which is taken as a segment.\<close>

definition alloc_shm :: "kernel \<Rightarrow> config \<Rightarrow> system \<Rightarrow> system res" where
  "alloc_shm k cfg s =
     (let d = shm_chunk_size_bytes cfg in
      if shm_fd cfg \<ge> 0
      then rbind (shm_alloc k Shm_untouched (untouched_size d) s) (\<lambda>s1.
           rbind (shm_alloc k Shm_parent_dirty (parent_dirty_size d)
                    (print_kb ''shm_untouched kb'' (untouched_size d) s1)) (\<lambda>s2.
           rbind (memset_shm Shm_parent_dirty 0x7f (parent_dirty_size d) s2) (\<lambda>s3.
           rbind (shm_alloc k Shm_cow (cow_size d)
                    (print_kb ''shm_parent_dirty kb'' (parent_dirty_size d) s3)) (\<lambda>s4.
           rbind (memset_shm Shm_cow 0x7f (cow_size d) s4) (\<lambda>s5.
             Inr (print_kb ''shm_cow kb'' (cow_size d) s5))))))
      else Inr s)"

definition dirty_private :: "config \<Rightarrow> size" where
  "dirty_private cfg = parent_dirty_size (chunk_size_bytes cfg) + cow_size (chunk_size_bytes cfg)"

definition dirty_shared :: "config \<Rightarrow> size" where
  "dirty_shared cfg =
     parent_dirty_size (shm_chunk_size_bytes cfg) + cow_size (shm_chunk_size_bytes cfg)"

definition print_dirty :: "string \<Rightarrow> size \<Rightarrow> size \<Rightarrow> system \<Rightarrow> system" where
  "print_dirty label private shared =
     log_event (Printed label [sint (private + shared), sint private, sint shared])"

section \<open>Paging out\<close>

definition pageout_chunk :: "kernel \<Rightarrow> chunk \<Rightarrow> size \<Rightarrow> system \<Rightarrow> system res" where
  "pageout_chunk k ch n s =
     (if shm (proc s) ch = Map_failed \<or> \<not> k_madvise k ch then Inl (Exit 1)
      else Inr (log_event (Madvise ch (unat n)) s))"

definition pageout_shm :: "kernel \<Rightarrow> config \<Rightarrow> system \<Rightarrow> system res" where
  "pageout_shm k cfg s =
     (let d = shm_chunk_size_bytes cfg in
      rbind (pageout_chunk k Shm_untouched (untouched_size d) s) (\<lambda>s1.
      rbind (pageout_chunk k Shm_parent_dirty (parent_dirty_size d) s1) (\<lambda>s2.
        pageout_chunk k Shm_cow (cow_size d) s2)))"

text \<open>Lines 325-342, with a C library that has \<open>MADV_PAGEOUT\<close>.\<close>

definition parent_pageout :: "kernel \<Rightarrow> config \<Rightarrow> system \<Rightarrow> system res" where
  "parent_pageout k cfg s =
     (if pageout cfg \<noteq> 0
      then rbind (pageout_shm k cfg s) (\<lambda>s1.
             if 0 < shm_fd cfg then pageout_shm k cfg s1 else Inr s1)
      else Inr s)"

section \<open>The child\<close>

definition child_pageout :: "kernel \<Rightarrow> config \<Rightarrow> system \<Rightarrow> system res" where
  "child_pageout k cfg s =
     (let n = cow_size (shm_chunk_size_bytes cfg) in
      if pageout cfg \<noteq> 0
      then rbind (pageout_chunk k Shm_cow n s) (\<lambda>s1.
             if shm (proc s1) Shm_cow \<noteq> Null then pageout_chunk k Shm_cow n s1 else Inr s1)
      else Inr s)"

text \<open>
  \<open>child_main\<close> up to its signal to the parent; afterwards it sleeps until it is killed.  It
  works on its own copy of the private chunks and on the shared segment.
\<close>

definition child_main :: "kernel \<Rightarrow> config \<Rightarrow> system \<Rightarrow> system res" where
  "child_main k cfg s =
     check (k_getpid k = k_child_getppid k) AssertFail
      (rbind (memset_heap Heap_cow 0x8f (cow_size (chunk_size_bytes cfg)) s) (\<lambda>s1.
       rbind (if shm (proc s1) Shm_cow \<noteq> Null
              then memset_shm Shm_cow 0x7f (cow_size (shm_chunk_size_bytes cfg)) s1
              else Inr s1) (\<lambda>s2.
       rbind (child_pageout k cfg s2) (\<lambda>s3.
         Inr (log_event (Kill (k_getpid k) ''SIGUSR1'') s3)))))"

text \<open>
  \<open>fork\<close> gives the child a copy of the private memory; the segment stays shared, so what the
  child writes there is what the parent finds.
\<close>

definition fork_system :: "system \<Rightarrow> system" where
  "fork_system s = s\<lparr>proc := (proc s)\<lparr>trace := []\<rparr>\<rparr>"

record run =
  parent :: system
  child :: "process option"
  child_pid :: int

text \<open>
  Lines 283-311.  When the fork fails there is no child and -1 is kept as its process id.
  \<open>wait_for_sigusr1\<close> returns only when a signal arrives after the flag was cleared
  (\<open>k_sigusr1\<close>; see \<open>Fork_Signal\<close>); None is a parent that waits for ever.  A child that
  stops before its signal sends none.
\<close>

definition fork_phase :: "kernel \<Rightarrow> config \<Rightarrow> system \<Rightarrow> run res option" where
  "fork_phase k cfg s =
     (let report = print_dirty ''child dirtied'' (cow_size (chunk_size_bytes cfg))
                     (cow_size (shm_chunk_size_bytes cfg))
      in if fork_child cfg = 0
         then Some (Inr \<lparr>parent = s, child = None, child_pid = 0\<rparr>)
         else if k_fork k < 0
         then (if k_sigusr1 k
               then Some (Inr \<lparr>parent = report s, child = None, child_pid = k_fork k\<rparr>) else None)
         else (case child_main k cfg (fork_system s) of
                 Inl _ \<Rightarrow> None
               | Inr c \<Rightarrow>
                   if k_sigusr1 k
                   then Some (Inr \<lparr>parent = report (s\<lparr>segment := segment c\<rparr>),
                                   child = Some (proc c), child_pid = k_fork k\<rparr>)
                   else None))"

section \<open>Waiting for the user\<close>

definition report_now :: "kernel \<Rightarrow> int \<Rightarrow> system \<Rightarrow> system res" where
  "report_now k pid s =
     rbind (report_memory_use (k_files k) (k_getpid k) pid)
       (\<lambda>out. Inr (log_events (map Report out) s))"

text \<open>
  Lines 350-370, on fuel, since nothing but \<open>q\<close> or SIGINT ends the loop; \<open>k_sigint k n\<close> says
  that the handler has run by the \<open>n\<close>-th test.  At the end of the input \<open>getc\<close> returns -1, which
  the \<open>char c\<close> takes as one more unknown command.
\<close>

fun tty_loop :: "nat \<Rightarrow> kernel \<Rightarrow> int \<Rightarrow> nat \<Rightarrow> system \<Rightarrow> system res option" where
  "tty_loop 0 k pid n s = None"
| "tty_loop (Suc fuel) k pid n s =
     (if k_sigint k n then Some (Inr s)
      else case k_key k n of
          End_of_input \<Rightarrow> tty_loop fuel k pid (Suc n) (log_event (Printed ''Unknown command'' [-1]) s)
        | Key c \<Rightarrow>
            if c = CHR 0x0D \<or> c = NL \<or> c = CHR '' ''
            then (case report_now k pid (log_event (Printed ''Updated memory info'' []) s) of
                    Inl e \<Rightarrow> Some (Inl e)
                  | Inr s' \<Rightarrow> tty_loop fuel k pid (Suc n) s')
            else if c = CHR ''q''
            then Some (Inr (log_event (Printed ''Exiting'' []) s))
            else tty_loop fuel k pid (Suc n)
                   (log_event (Printed ''Unknown command'' [int (of_char c)]) s))"

text \<open>One turn of the loop of lines 379-385, which never ends: a report when SIGHUP asked for one.\<close>

definition daemon_turn :: "kernel \<Rightarrow> int \<Rightarrow> nat \<Rightarrow> system \<Rightarrow> system res" where
  "daemon_turn k pid n s = (if k_sighup k n then report_now k pid s else Inr s)"

fun daemon_turns :: "nat \<Rightarrow> kernel \<Rightarrow> int \<Rightarrow> nat \<Rightarrow> system \<Rightarrow> system res" where
  "daemon_turns 0 k pid n s = Inr s"
| "daemon_turns (Suc m) k pid n s = rbind (daemon_turn k pid n s) (daemon_turns m k pid (Suc n))"

text \<open>
  Lines 346-388.  As a daemon the program stops only when a report does, or by a signal; None is
  both "not within the fuel" and "never".
\<close>

definition wait_phase :: "nat \<Rightarrow> kernel \<Rightarrow> config \<Rightarrow> int \<Rightarrow> system \<Rightarrow> system res option" where
  "wait_phase fuel k cfg pid s =
     (if wait_signal cfg = 0 then Some (Inr s)
      else if k_isatty k then tty_loop fuel k pid 0 s
      else (case daemon_turns fuel k pid 0 s of Inl e \<Rightarrow> Some (Inl e) | Inr _ \<Rightarrow> None))"

section \<open>The end\<close>

definition cleanup :: "config \<Rightarrow> int \<Rightarrow> system \<Rightarrow> system" where
  "cleanup cfg pid s =
     (let d = shm_chunk_size_bytes cfg in
      log_events ((if pid \<noteq> 0 then [Kill pid ''SIGTERM''] else []) @
        [Free Heap_untouched, Free Heap_parent_dirty, Free Heap_cow] @
        (if 0 < shm_fd cfg
         then [Munmap Shm_untouched (unat (untouched_size d)),
               Munmap Shm_parent_dirty (unat (parent_dirty_size d)),
               Munmap Shm_cow (unat (cow_size d))] else [])) s)"

definition start_system :: system where
  "start_system = \<lparr>proc = \<lparr>heap = (\<lambda>_. None), shm = (\<lambda>_. Null), trace = []\<rparr>, segment = []\<rparr>"

text \<open>Lines 214-276: what the parent does before the fork.\<close>

definition before_fork :: "kernel \<Rightarrow> config \<Rightarrow> system \<Rightarrow> system res" where
  "before_fork k cfg s =
     rbind (oom_adjust k (log_event (Report (System ''free -k'')) s)) (\<lambda>s1.
     rbind (alloc_heap k cfg s1) (\<lambda>s2.
     rbind (alloc_shm k cfg s2) (\<lambda>s3.
       Inr (log_event (Report (System ''free -k''))
              (print_dirty ''Parent dirtied'' (dirty_private cfg) (dirty_shared cfg) s3)))))"

text \<open>Lines 313-402: what it does once the child is ready.\<close>

definition after_fork :: "nat \<Rightarrow> kernel \<Rightarrow> config \<Rightarrow> run \<Rightarrow> run res option" where
  "after_fork fuel k cfg r =
     (let forked = fork_child cfg \<noteq> 0;
          private = dirty_private cfg + (if forked then cow_size (chunk_size_bytes cfg) else 0);
          shared = dirty_shared cfg + (if forked then cow_size (shm_chunk_size_bytes cfg) else 0);
          s1 = print_dirty ''Parent + child dirtied'' private shared (parent r)
      in case rbind (parent_pageout k cfg s1) (report_now k (child_pid r)) of
           Inl e \<Rightarrow> Some (Inl e)
         | Inr s2 \<Rightarrow>
             map_option (\<lambda>x. rbind x (\<lambda>s3. Inr (r\<lparr>parent := cleanup cfg (child_pid r) s3\<rparr>)))
               (wait_phase fuel k cfg (child_pid r) s2))"

definition main :: "nat \<Rightarrow> kernel \<Rightarrow> string list \<Rightarrow> run res option" where
  "main fuel k argv =
     (case parse_args k argv start_system of
        Inl e \<Rightarrow> Some (Inl e)
      | Inr (cfg, s) \<Rightarrow>
          (case before_fork k cfg s of
             Inl e \<Rightarrow> Some (Inl e)
           | Inr s1 \<Rightarrow>
               (case fork_phase k cfg s1 of
                  None \<Rightarrow> None
                | Some (Inl e) \<Rightarrow> Some (Inl e)
                | Some (Inr r) \<Rightarrow> after_fork fuel k cfg r)))"

end
