(* ===== verification/Fork_Cow_Laws.thy ===== *)
theory Fork_Cow_Laws
  imports Fork_Cow
begin

text \<open>
  Lemmas about the copy-on-write demo: sizes that do not wrap, what each memory operation changes
  when it succeeds, the layout of the shared segment, the child's own copy of the private chunks,
  the interactive loop, and what a process
  takes and gives back.
\<close>

section \<open>Sizes\<close>

lemma sint_size: "0 \<le> n \<Longrightarrow> n < 9223372036854775808 \<Longrightarrow> sint (word_of_int n :: size) = n"
  by (simp add: signed_of_int signed_take_bit_int_eq_self)

lemma total_bytes_small:
  assumes "0 \<le> n" and "7 * n < 9223372036854775808"
  shows "total_bytes (word_of_int n) = 7 * n"
proof -
  have "c + 2 * c + 4 * c = 7 * c" for c :: size by simp
  then have "untouched_size (word_of_int n) + parent_dirty_size (word_of_int n) +
      cow_size (word_of_int n) = (word_of_int (7 * n) :: size)"
    by (simp only: untouched_size_def parent_dirty_size_def cow_size_def of_int_mult
        of_int_numeral)
  then show ?thesis using assms by (simp only: total_bytes_def sint_size)
qed

lemma unat_times_small: "k < 2 ^ 64 \<Longrightarrow> k * unat d < 2 ^ 64 \<Longrightarrow> unat (of_nat k * d :: size) = k * unat d"
  by (subst unat_mult_lem [THEN iffD1]) (auto simp: unsigned_of_nat take_bit_nat_def)

lemma parse_chunk_size_show:
  assumes "LONG_MIN \<le> n" and "n \<le> LONG_MAX"
  shows "parse_chunk_size (show_int n) = (if 0 < n then Inr (word_of_int n) else Inl (Exit 1))"
  using strtol_show_int[OF assms] by (simp add: parse_chunk_size_def)

section \<open>Memory\<close>

lemma log_event_simps [simp]:
  "segment (log_event e s) = segment s" "heap (proc (log_event e s)) = heap (proc s)"
  "shm (proc (log_event e s)) = shm (proc s)"
  "segment (print_kb l n s) = segment s" "heap (proc (print_kb l n s)) = heap (proc s)"
  "shm (proc (print_kb l n s)) = shm (proc s)"
  "segment (print_dirty l a b s) = segment s" "heap (proc (print_dirty l a b s)) = heap (proc s)"
  "shm (proc (print_dirty l a b s)) = shm (proc s)"
  by (simp_all add: log_event_def print_kb_def print_dirty_def)

lemma malloc_chunk_simps [simp]:
  "segment (malloc_chunk k ch n s) = segment s" "shm (proc (malloc_chunk k ch n s)) = shm (proc s)"
  "heap (proc (malloc_chunk k ch n s)) = (heap (proc s))(ch :=
     (if k_malloc k ch then Some (replicate (unat n) None) else None))"
  by (simp_all add: malloc_chunk_def)

lemma memset_heap_Inr:
  "memset_heap ch v n s = Inr s' \<Longrightarrow>
     segment s' = segment s \<and> shm (proc s') = shm (proc s) \<and>
     (if n = 0 then s' = s
      else \<exists>bs. heap (proc s) ch = Some bs \<and> unat n \<le> length bs \<and>
             heap (proc s') = (heap (proc s))(ch :=
               Some (replicate (unat n) (Some v) @ drop (unat n) bs)))"
  by (auto simp: memset_heap_def check_eq_Inr split: if_splits option.splits)

lemma memset_shm_Inr:
  "memset_shm ch v n s = Inr s' \<Longrightarrow>
     proc s' = proc s \<and>
     (if n = 0 then s' = s
      else \<exists>m. shm (proc s) ch = Mapped m \<and> unat n \<le> m \<and> unat n \<le> length (segment s) \<and>
             segment s' = replicate (unat n) v @ drop (unat n) (segment s))"
  by (auto simp: memset_shm_def check_eq_Inr split: if_splits shm_ptr.splits)

lemma shm_alloc_Inr:
  "shm_alloc k ch n s = Inr s' \<Longrightarrow>
     segment s' = segment s \<and> heap (proc s') = heap (proc s) \<and>
     shm (proc s') = (shm (proc s))(ch := mmap_result k ch n)"
  by (auto simp: shm_alloc_def Let_def split: if_splits)

lemma alloc_heap_Inr:
  assumes "alloc_heap k cfg s = Inr s'" and "cow_size (chunk_size_bytes cfg) \<noteq> 0"
  shows "segment s' = segment s \<and> shm (proc s') = shm (proc s) \<and>
    heap (proc s') Heap_cow =
      Some (replicate (unat (cow_size (chunk_size_bytes cfg))) (Some 0x7f))"
  using assms
  by (auto simp: alloc_heap_def Let_def rbind_eq_Inr dest!: memset_heap_Inr split: if_splits)

lemma alloc_shm_heap:
  "alloc_shm k cfg s = Inr s' \<Longrightarrow> heap (proc s') = heap (proc s)"
  by (auto simp: alloc_shm_def Let_def rbind_eq_Inr
      dest!: memset_shm_Inr shm_alloc_Inr split: if_splits)

text \<open>The bytes a process sees through its pointer to a shared chunk.\<close>

definition shm_view :: "system \<Rightarrow> chunk \<Rightarrow> 8 word list option" where
  "shm_view s ch = (case shm (proc s) ch of Mapped m \<Rightarrow> Some (take m (segment s)) | _ \<Rightarrow> None)"

lemma alloc_shm_Inr:
  assumes a: "alloc_shm k cfg s = Inr s'" and fd: "0 \<le> shm_fd cfg"
    and d: "0 < n" "7 * n < 2 ^ 63" "unat (shm_chunk_size_bytes cfg) = n"
  shows "segment s' = replicate (4 * n) 0x7f @ drop (4 * n) (segment s) \<and>
    4 * n \<le> length (segment s) \<and>
    shm (proc s') Shm_parent_dirty = Mapped (2 * n) \<and> shm (proc s') Shm_cow = Mapped (4 * n) \<and>
    shm (proc s') Shm_untouched = mmap_result k Shm_untouched (shm_chunk_size_bytes cfg)"
proof -
  let ?d = "shm_chunk_size_bytes cfg"
  have u: "unat (2 * ?d) = 2 * n" "unat (4 * ?d) = 4 * n"
    using unat_times_small[of 2 ?d] unat_times_small[of 4 ?d] d by simp_all
  then have z: "2 * ?d \<noteq> 0" "4 * ?d \<noteq> 0" using d(1) by auto
  obtain s1 s2 s3 s4 s5 where st:
    "shm_alloc k Shm_untouched ?d s = Inr s1"
    "shm_alloc k Shm_parent_dirty (2 * ?d) (print_kb ''shm_untouched kb'' ?d s1) = Inr s2"
    "memset_shm Shm_parent_dirty 0x7f (2 * ?d) s2 = Inr s3"
    "shm_alloc k Shm_cow (4 * ?d) (print_kb ''shm_parent_dirty kb'' (2 * ?d) s3) = Inr s4"
    "memset_shm Shm_cow 0x7f (4 * ?d) s4 = Inr s5" "s' = print_kb ''shm_cow kb'' (4 * ?d) s5"
    using a fd
    by (auto simp: alloc_shm_def Let_def rbind_eq_Inr untouched_size_def parent_dirty_size_def
        cow_size_def)
  have p1: "shm (proc s1) = (shm (proc s))(Shm_untouched := mmap_result k Shm_untouched ?d)"
      "segment s1 = segment s"
    using shm_alloc_Inr[OF st(1)] by simp_all
  have p2: "shm (proc s2) = (shm (proc s1))(Shm_parent_dirty := mmap_result k Shm_parent_dirty (2 * ?d))"
      "segment s2 = segment s"
    using shm_alloc_Inr[OF st(2)] p1 by simp_all
  have p3: "shm (proc s3) = shm (proc s2)" "shm (proc s2) Shm_parent_dirty = Mapped (2 * n)"
      "segment s3 = replicate (2 * n) 0x7f @ drop (2 * n) (segment s)"
    using memset_shm_Inr[OF st(3)] z(1) u(1) p2 by (auto simp: mmap_result_def split: if_splits)
  have p4: "shm (proc s4) = (shm (proc s3))(Shm_cow := mmap_result k Shm_cow (4 * ?d))"
      "segment s4 = segment s3"
    using shm_alloc_Inr[OF st(4)] by simp_all
  have p5: "shm (proc s5) = shm (proc s4)" "shm (proc s4) Shm_cow = Mapped (4 * n)"
      "4 * n \<le> length (segment s3)"
      "segment s5 = replicate (4 * n) 0x7f @ drop (4 * n) (segment s3)"
    using memset_shm_Inr[OF st(5)] z(2) u(2) p4 by (auto simp: mmap_result_def split: if_splits)
  have l: "4 * n \<le> length (segment s)" using p5(3) p3(3) by simp
  have "segment s5 = replicate (4 * n) 0x7f @ drop (4 * n) (segment s)"
    using p5(4) p3(3) by (simp add: min_def)
  then show ?thesis using l p1 p2 p3 p4 p5 st(6) by simp
qed

lemma pageout_chunk_Inr:
  "pageout_chunk k ch n s = Inr s' \<Longrightarrow>
     segment s' = segment s \<and> heap (proc s') = heap (proc s) \<and> shm (proc s') = shm (proc s)"
  by (auto simp: pageout_chunk_def split: if_splits)

lemma child_main_Inr:
  assumes c: "child_main k cfg s = Inr s'"
    and n: "cow_size (chunk_size_bytes cfg) \<noteq> 0"
      "heap (proc s) Heap_cow = Some (replicate (unat (cow_size (chunk_size_bytes cfg))) v)"
  shows "heap (proc s') = (heap (proc s))(Heap_cow :=
           Some (replicate (unat (cow_size (chunk_size_bytes cfg))) (Some 0x8f)))"
proof -
  obtain s1 s2 s3 where st:
    "memset_heap Heap_cow 0x8f (cow_size (chunk_size_bytes cfg)) s = Inr s1"
    "(if shm (proc s1) Shm_cow \<noteq> Null
      then memset_shm Shm_cow 0x7f (cow_size (shm_chunk_size_bytes cfg)) s1 else Inr s1) = Inr s2"
    "child_pageout k cfg s2 = Inr s3" "s' = log_event (Kill (k_getpid k) ''SIGUSR1'') s3"
    using c by (auto simp: child_main_def check_eq_Inr rbind_eq_Inr)
  have "heap (proc s1) = (heap (proc s))(Heap_cow :=
           Some (replicate (unat (cow_size (chunk_size_bytes cfg))) (Some 0x8f)))"
    using memset_heap_Inr[OF st(1)] n by auto
  moreover have "proc s2 = proc s1" using st(2) by (auto dest: memset_shm_Inr split: if_splits)
  moreover have "heap (proc s3) = heap (proc s2)"
    using st(3)
    by (auto simp: child_pageout_def Let_def rbind_eq_Inr dest!: pageout_chunk_Inr split: if_splits)
  ultimately show ?thesis using st(4) by simp
qed

section \<open>The interactive loop\<close>

definition reports :: "kernel \<Rightarrow> int \<Rightarrow> bool" where
  "reports k pid \<longleftrightarrow> (\<exists>out. report_memory_use (k_files k) (k_getpid k) pid = Inr out)"

lemma reports_now: "reports k pid \<Longrightarrow> \<exists>s'. report_now k pid s = Inr s'"
  by (auto simp: reports_def report_now_def)

lemma reports_constI:
  assumes "k_files k = (\<lambda>_. Some a)" and "scan_lu 7 a = Some [x1, x2, x3, x4, x5, x6, x7]"
  shows "reports k pid"
  using assms
  by (simp add: reports_def report_memory_use_def for_both_def print_proc_statm_def
      print_proc_smaps_def print_proc_status_def Let_def)

definition ends_at :: "kernel \<Rightarrow> nat \<Rightarrow> bool" where
  "ends_at k n \<longleftrightarrow> k_sigint k n \<or> k_key k n = Key CHR ''q''"

lemma tty_loop_only_ends:
  assumes "reports k pid"
  shows "tty_loop fuel k pid n s \<noteq> None \<Longrightarrow> \<exists>m \<ge> n. ends_at k m"
proof (induction fuel arbitrary: n s)
  case (Suc fuel)
  show ?case
  proof (cases "ends_at k n")
    case False
    then obtain s' where "tty_loop fuel k pid (Suc n) s' \<noteq> None"
      using Suc.prems reports_now[OF assms, of "log_event (Printed ''Updated memory info'' []) s"]
      by (auto simp: ends_at_def split: key.splits if_splits)
    then show ?thesis using Suc.IH[of "Suc n" s'] by (meson Suc_leD)
  qed auto
qed simp

lemma tty_loop_ends:
  assumes "reports k pid"
  shows "ends_at k (n + j) \<Longrightarrow> tty_loop (Suc j) k pid n s \<noteq> None"
proof (induction j arbitrary: n s)
  case 0
  then show ?case by (auto simp: ends_at_def split: key.splits)
next
  case (Suc j)
  have IH: "tty_loop (Suc j) k pid (Suc n) s' \<noteq> None" for s'
    using Suc.IH[of "Suc n"] Suc.prems by simp
  show ?case
  proof (cases "k_sigint k n")
    case True
    then show ?thesis by simp
  next
    case False
    then show ?thesis
      using IH reports_now[OF assms, of "log_event (Printed ''Updated memory info'' []) s"]
      by (auto simp del: tty_loop.simps simp: tty_loop.simps(2)[of "Suc j"] split: key.splits)
  qed
qed

section \<open>What a process holds\<close>

text \<open>The events that take and give back memory or a process.\<close>

fun holds :: "event \<Rightarrow> bool" where
  "holds (Malloc _ _) = True" | "holds (Mmap _ _) = True" | "holds (Free _) = True"
| "holds (Munmap _ _) = True" | "holds (Kill _ _) = True" | "holds _ = False"

definition held :: "system \<Rightarrow> event list" where
  "held s = filter holds (trace (proc s))"

lemma held_log [simp]:
  "held (log_event e s) = held s @ (if holds e then [e] else [])"
  "held (log_events es s) = held s @ filter holds es"
  "held (print_kb l n s) = held s" "held (print_dirty l a b s) = held s"
  "held (s\<lparr>segment := seg\<rparr>) = held s"
  "held (malloc_chunk k ch n s) = held s @ [Malloc ch (unat n)]"
  by (simp_all add: held_def log_event_def log_events_def print_kb_def print_dirty_def malloc_chunk_def)

lemma held_reports [simp]: "filter holds (map Report out) = []"
  by (induction out) simp_all

lemma held_memset_heap: "memset_heap ch v n s = Inr s' \<Longrightarrow> held s' = held s"
  by (auto simp: memset_heap_def held_def check_eq_Inr split: if_splits option.splits)

lemma held_memset_shm: "memset_shm ch v n s = Inr s' \<Longrightarrow> held s' = held s"
  by (drule memset_shm_Inr) (simp add: held_def)

lemma held_shm_alloc: "shm_alloc k ch n s = Inr s' \<Longrightarrow> held s' = held s @ [Mmap ch (unat n)]"
  by (auto simp: shm_alloc_def held_def log_event_def Let_def split: if_splits)

lemma held_pageout_chunk: "pageout_chunk k ch n s = Inr s' \<Longrightarrow> held s' = held s"
  by (auto simp: pageout_chunk_def split: if_splits)

lemma held_parent_pageout: "parent_pageout k cfg s = Inr s' \<Longrightarrow> held s' = held s"
  by (auto simp: parent_pageout_def pageout_shm_def Let_def rbind_eq_Inr
      dest!: held_pageout_chunk split: if_splits)

lemma held_report_now: "report_now k pid s = Inr s' \<Longrightarrow> held s' = held s"
  by (auto simp: report_now_def rbind_eq_Inr)

lemma held_oom_adjust: "oom_adjust k s = Inr s' \<Longrightarrow> held s' = held s"
  by (auto simp: oom_adjust_def split: if_splits)

lemmas held_ops = held_memset_heap held_memset_shm held_shm_alloc held_oom_adjust

text \<open>What the chunks of a configuration cost, and what gives them back.\<close>

definition heap_taken :: "config \<Rightarrow> event list" where
  "heap_taken cfg = (let c = chunk_size_bytes cfg in
     [Malloc Heap_untouched (unat (untouched_size c)),
      Malloc Heap_parent_dirty (unat (parent_dirty_size c)), Malloc Heap_cow (unat (cow_size c))])"

definition shm_events :: "(chunk \<Rightarrow> nat \<Rightarrow> event) \<Rightarrow> config \<Rightarrow> event list" where
  "shm_events ev cfg = (let d = shm_chunk_size_bytes cfg in
     [ev Shm_untouched (unat (untouched_size d)), ev Shm_parent_dirty (unat (parent_dirty_size d)),
      ev Shm_cow (unat (cow_size d))])"

lemma held_alloc_heap: "alloc_heap k cfg s = Inr s' \<Longrightarrow> held s' = held s @ heap_taken cfg"
  by (auto simp: alloc_heap_def heap_taken_def Let_def rbind_eq_Inr dest!: held_ops)

lemma held_alloc_shm:
  "alloc_shm k cfg s = Inr s' \<Longrightarrow>
     held s' = held s @ (if 0 \<le> shm_fd cfg then shm_events Mmap cfg else [])"
  by (auto simp: alloc_shm_def shm_events_def Let_def rbind_eq_Inr dest!: held_ops split: if_splits)

lemma held_before_fork:
  assumes "before_fork k cfg s = Inr s'"
  shows "held s' = held s @ heap_taken cfg @
    (if 0 \<le> shm_fd cfg then shm_events Mmap cfg else [])"
proof -
  obtain s1 s2 s3 where
    "oom_adjust k (log_event (Report (System ''free -k'')) s) = Inr s1"
    "alloc_heap k cfg s1 = Inr s2" "alloc_shm k cfg s2 = Inr s3" "held s' = held s3"
    using assms by (auto simp: before_fork_def rbind_eq_Inr)
  then show ?thesis
    by (auto dest!: held_oom_adjust held_alloc_heap held_alloc_shm)
qed

lemma held_fork_phase:
  "fork_phase k cfg s = Some (Inr r) \<Longrightarrow>
     held (parent r) = held s \<and> child_pid r = (if fork_child cfg = 0 then 0 else k_fork k)"
  by (auto simp: fork_phase_def Let_def split: if_splits sum.splits)

lemma held_tty_loop: "tty_loop fuel k pid n s = Some (Inr s') \<Longrightarrow> held s' = held s"
proof (induction fuel arbitrary: n s)
  case (Suc fuel)
  then show ?case
    by (auto split: if_splits key.splits sum.splits dest!: held_report_now)
qed simp

lemma held_wait_phase: "wait_phase fuel k cfg pid s = Some (Inr s') \<Longrightarrow> held s' = held s"
  by (auto simp: wait_phase_def split: if_splits sum.splits dest!: held_tty_loop)

lemma held_cleanup:
  "held (cleanup cfg pid s) = held s @ (if pid \<noteq> 0 then [Kill pid ''SIGTERM''] else []) @
     [Free Heap_untouched, Free Heap_parent_dirty, Free Heap_cow] @
     (if 0 < shm_fd cfg then shm_events Munmap cfg else [])"
  by (simp add: cleanup_def shm_events_def Let_def)

lemma held_after_fork:
  "after_fork fuel k cfg r = Some (Inr r') \<Longrightarrow>
     child_pid r' = child_pid r \<and> held (parent r') = held (cleanup cfg (child_pid r) (parent r))"
  by (auto simp: after_fork_def Let_def rbind_eq_Inr held_cleanup split: sum.splits
      dest!: held_parent_pageout held_report_now held_wait_phase)

lemma parse_args_shm:
  "parse_args k argv s = Inr (cfg, s') \<Longrightarrow>
     held s' = held s \<and> shm_fd cfg = (if 3 \<le> length argv then k_shm_open k else 0) \<and> 0 \<le> shm_fd cfg"
  by (auto simp: parse_args_def setup_shmem_def Let_def rbind_eq_Inr split: if_splits prod.splits)

end
