(* ===== verification/Transition.thy ===== *)
theory Transition
  imports Main
begin

text \<open>
  Reachable states of a step relation, and the contract of an inductive invariant: it holds at the
  start and every step keeps it, so it holds wherever the system can get.  Then infinite runs, weak
  fairness, and the contract of an action that helps from one predicate to another.
\<close>

inductive reach :: "('s \<Rightarrow> bool) \<Rightarrow> ('s \<Rightarrow> 's \<Rightarrow> bool) \<Rightarrow> 's \<Rightarrow> bool"
  for init :: "'s \<Rightarrow> bool" and step :: "'s \<Rightarrow> 's \<Rightarrow> bool" where
  reach_init: "init s \<Longrightarrow> reach init step s"
| reach_step: "reach init step s \<Longrightarrow> step s s' \<Longrightarrow> reach init step s'"

text \<open>An infinite run, in which the system may also rest.\<close>

definition runs :: "('s \<Rightarrow> 's \<Rightarrow> bool) \<Rightarrow> (nat \<Rightarrow> 's) \<Rightarrow> bool" where
  "runs step \<sigma> \<longleftrightarrow> (\<forall>i. \<sigma> (Suc i) = \<sigma> i \<or> step (\<sigma> i) (\<sigma> (Suc i)))"

locale inductive_invariant =
  fixes init :: "'s \<Rightarrow> bool" and step :: "'s \<Rightarrow> 's \<Rightarrow> bool" and inv :: "'s \<Rightarrow> bool"
  assumes init_inv: "init s \<Longrightarrow> inv s"
    and step_inv: "inv s \<Longrightarrow> step s s' \<Longrightarrow> inv s'"
begin

lemma reach_inv: "reach init step s \<Longrightarrow> inv s"
  by (induction rule: reach.induct) (blast intro: init_inv step_inv)+

lemma run_inv: "runs step \<sigma> \<Longrightarrow> inv (\<sigma> i) \<Longrightarrow> i \<le> j \<Longrightarrow> inv (\<sigma> j)"
proof (induction j)
  case (Suc j)
  then show ?case using step_inv [of "\<sigma> j" "\<sigma> (Suc j)"] by (auto simp: runs_def le_Suc_eq dest: spec [of _ j])
qed simp

lemma star_inv: "step\<^sup>*\<^sup>* s s' \<Longrightarrow> inv s \<Longrightarrow> inv s'"
  by (induction rule: rtranclp_induct) (blast intro: step_inv)+

end

section \<open>Fair runs\<close>

text \<open>Weak fairness: an action that stays possible is taken.\<close>

definition weakly_fair :: "('s \<Rightarrow> 's \<Rightarrow> bool) \<Rightarrow> (nat \<Rightarrow> 's) \<Rightarrow> bool" where
  "weakly_fair act \<sigma> \<longleftrightarrow>
     (\<forall>i. (\<forall>j\<ge>i. \<exists>t. act (\<sigma> j) t) \<longrightarrow> (\<exists>j\<ge>i. act (\<sigma> j) (\<sigma> (Suc j))))"

text \<open>
  The contract of a helpful action: while \<open>p\<close> holds the action is possible, every step keeps
  \<open>p\<close> or gives \<open>q\<close>, and the action gives \<open>q\<close>.  Then a fair run gets from \<open>p\<close> to \<open>q\<close>.
\<close>

locale helpful_action =
  fixes step :: "'s \<Rightarrow> 's \<Rightarrow> bool" and act :: "'s \<Rightarrow> 's \<Rightarrow> bool" and p q :: "'s \<Rightarrow> bool"
  assumes stays: "p s \<Longrightarrow> step s s' \<Longrightarrow> p s' \<or> q s'"
    and possible: "p s \<Longrightarrow> \<exists>t. act s t"
    and helps: "p s \<Longrightarrow> act s s' \<Longrightarrow> q s'"
begin

lemma p_until_q:
  assumes "runs step \<sigma>" and "p (\<sigma> i)" and "\<forall>j\<ge>i. \<not> q (\<sigma> j)" and "i \<le> j"
  shows "p (\<sigma> j)"
  using assms(4)
proof (induction j rule: dec_induct)
  case base
  show ?case by (rule assms(2))
next
  case (step n)
  then show ?case
    using assms(1,3) stays [of "\<sigma> n" "\<sigma> (Suc n)"] by (auto simp: runs_def dest: spec [of _ n])
qed

lemma leads_to:
  assumes "runs step \<sigma>" and "weakly_fair act \<sigma>" and "p (\<sigma> i)"
  shows "\<exists>j\<ge>i. q (\<sigma> j)"
proof (rule ccontr)
  assume "\<not> (\<exists>j\<ge>i. q (\<sigma> j))"
  then have nq: "\<forall>j\<ge>i. \<not> q (\<sigma> j)" by blast
  then have ps: "p (\<sigma> j)" if "i \<le> j" for j using p_until_q [OF assms(1,3)] that by blast
  then have "\<forall>j\<ge>i. \<exists>t. act (\<sigma> j) t" using possible by blast
  then obtain j where "i \<le> j" "act (\<sigma> j) (\<sigma> (Suc j))" using assms(2) unfolding weakly_fair_def by blast
  with helps [OF ps] nq show False by (meson le_SucI)
qed

end

end
