(* ===== verification/Fork_Signal.thy ===== *)
theory Fork_Signal
  imports Transition
begin

text \<open>
  The handshake of \<open>fork_cow_demo.c\<close>: after \<open>fork\<close> the child writes its chunks and sends
  SIGUSR1; the parent, in \<open>wait_for_sigusr1\<close> (lines 557-565), installs the handler, clears the
  flag and loops on it around \<open>sleep\<close>.  The two processes run at the same time, so the model is a
  step relation that interleaves them; a signal is delivered where the parent is.
\<close>

datatype parent_pc =
    Before_signal   \<comment> \<open>fork has returned, \<open>signal()\<close> not yet called\<close>
  | Before_reset    \<comment> \<open>the handler is installed, the flag not yet cleared\<close>
  | Testing         \<comment> \<open>at the test of the loop\<close>
  | About_to_sleep  \<comment> \<open>the test has found the flag clear, \<open>sleep\<close> not yet called\<close>
  | Sleeping        \<comment> \<open>in \<open>sleep(1000)\<close>\<close>
  | Passed          \<comment> \<open>\<open>wait_for_sigusr1\<close> has returned\<close>
  | Killed          \<comment> \<open>SIGUSR1 met its default action\<close>

datatype child_pc = Writing | Written | Signalled | Child_dead

record handshake =
  ppc :: parent_pc
  cpc :: child_pc
  got_sigusr1 :: bool

definition start :: "handshake \<Rightarrow> bool" where
  "start h \<longleftrightarrow> h = \<lparr>ppc = Before_signal, cpc = Writing, got_sigusr1 = False\<rparr>"

text \<open>\<open>sigusr1_handler\<close> sets the flag, and a sleeping parent wakes up.\<close>

definition deliver_sigusr1 :: "handshake \<Rightarrow> handshake" where
  "deliver_sigusr1 h =
     (if ppc h = Before_signal then h\<lparr>ppc := Killed\<rparr>
      else if ppc h = Killed then h
      else h\<lparr>got_sigusr1 := True, ppc := (if ppc h = Sleeping then Testing else ppc h)\<rparr>)"

inductive step :: "handshake \<Rightarrow> handshake \<Rightarrow> bool" where
  install: "ppc h = Before_signal \<Longrightarrow> step h (h\<lparr>ppc := Before_reset\<rparr>)"
| reset: "ppc h = Before_reset \<Longrightarrow> step h (h\<lparr>ppc := Testing, got_sigusr1 := False\<rparr>)"
| leave_loop: "ppc h = Testing \<Longrightarrow> got_sigusr1 h \<Longrightarrow> step h (h\<lparr>ppc := Passed\<rparr>)"
| go_to_sleep: "ppc h = Testing \<Longrightarrow> \<not> got_sigusr1 h \<Longrightarrow> step h (h\<lparr>ppc := About_to_sleep\<rparr>)"
| fall_asleep: "ppc h = About_to_sleep \<Longrightarrow> step h (h\<lparr>ppc := Sleeping\<rparr>)"
| sleep_over: "ppc h = Sleeping \<Longrightarrow> step h (h\<lparr>ppc := Testing\<rparr>)"
| write_chunks: "cpc h = Writing \<Longrightarrow> step h (h\<lparr>cpc := Written\<rparr>)"
| child_stops: "cpc h = Writing \<Longrightarrow> step h (h\<lparr>cpc := Child_dead\<rparr>)"
| send: "cpc h = Written \<Longrightarrow> step h ((deliver_sigusr1 h)\<lparr>cpc := Signalled\<rparr>)"

inductive_cases step_cases: "step h h'"

inductive_simps signalled_step: "step \<lparr>ppc = p, cpc = Signalled, got_sigusr1 = g\<rparr> h'"

text \<open>Inside the waiting loop.\<close>

fun looping :: "parent_pc \<Rightarrow> bool" where
  "looping Testing = True"
| "looping About_to_sleep = True"
| "looping Sleeping = True"
| "looping _ = False"

lemma looping_iff: "looping p \<longleftrightarrow> p = Testing \<or> p = About_to_sleep \<or> p = Sleeping"
  by (cases p) simp_all

text \<open>The invariant: the flag is set, and the wait passed, only after the child's signal.\<close>

definition ordered :: "handshake \<Rightarrow> bool" where
  "ordered h \<longleftrightarrow> (got_sigusr1 h \<or> ppc h = Passed \<longrightarrow> cpc h = Signalled)"

interpretation handshake_order: inductive_invariant start step ordered
  by unfold_locales
    (auto simp: start_def ordered_def deliver_sigusr1_def elim!: step_cases split: if_splits)

text \<open>The signal was lost: the child has sent it and the parent loops on a cleared flag.\<close>

definition lost :: "handshake \<Rightarrow> bool" where
  "lost h \<longleftrightarrow> cpc h = Signalled \<and> \<not> got_sigusr1 h \<and> looping (ppc h)"

interpretation lost_signal: inductive_invariant lost step lost
  by unfold_locales (auto simp: lost_def elim!: step_cases)

text \<open>The signal was seen: the flag is set in the loop or the loop has been left.\<close>

definition seen :: "handshake \<Rightarrow> bool" where
  "seen h \<longleftrightarrow> cpc h = Signalled \<and> (ppc h = Passed \<or> got_sigusr1 h \<and> looping (ppc h))"

interpretation seen_signal: inductive_invariant seen step seen
  by unfold_locales (auto simp: seen_def elim!: step_cases)

section \<open>Fair runs\<close>

text \<open>
  The scheduler runs both processes: a step of the parent or of the child that stays possible is
  taken.  The steps of the child are those that change its control point.
\<close>

definition child_step :: "handshake \<Rightarrow> handshake \<Rightarrow> bool" where
  "child_step h h' \<longleftrightarrow> step h h' \<and> cpc h' \<noteq> cpc h"

definition parent_step :: "handshake \<Rightarrow> handshake \<Rightarrow> bool" where
  "parent_step h h' \<longleftrightarrow> step h h' \<and> cpc h' = cpc h"

definition fair_run :: "(nat \<Rightarrow> handshake) \<Rightarrow> bool" where
  "fair_run \<sigma> \<longleftrightarrow>
     start (\<sigma> 0) \<and> runs step \<sigma> \<and> weakly_fair child_step \<sigma> \<and> weakly_fair parent_step \<sigma>"

lemma child_stepD: "child_step h h' \<Longrightarrow> step h h' \<and> cpc h' \<noteq> cpc h"
  by (simp add: child_step_def)

lemma parent_stepD: "parent_step h h' \<Longrightarrow> step h h' \<and> cpc h' = cpc h"
  by (simp add: parent_step_def)

lemma child_enabled: "(\<exists>h'. child_step h h') \<longleftrightarrow> cpc h = Writing \<or> cpc h = Written"
proof
  show "\<exists>h'. child_step h h' \<Longrightarrow> cpc h = Writing \<or> cpc h = Written"
    by (auto simp: child_step_def elim!: step_cases)
  have "child_step h (h\<lparr>cpc := Written\<rparr>)" if "cpc h = Writing"
    using that by (simp add: child_step_def write_chunks)
  moreover have "child_step h ((deliver_sigusr1 h)\<lparr>cpc := Signalled\<rparr>)" if "cpc h = Written"
    using that send [of h] by (simp add: child_step_def)
  ultimately show "cpc h = Writing \<or> cpc h = Written \<Longrightarrow> \<exists>h'. child_step h h'" by blast
qed

lemma parent_enabled: "(\<exists>h'. parent_step h h') \<longleftrightarrow> ppc h \<noteq> Passed \<and> ppc h \<noteq> Killed"
proof
  show "\<exists>h'. parent_step h h' \<Longrightarrow> ppc h \<noteq> Passed \<and> ppc h \<noteq> Killed"
    by (auto simp: parent_step_def elim!: step_cases)
  show "ppc h \<noteq> Passed \<and> ppc h \<noteq> Killed \<Longrightarrow> \<exists>h'. parent_step h h'"
    using install [of h] reset [of h] leave_loop [of h] go_to_sleep [of h] fall_asleep [of h]
      sleep_over [of h]
    by (cases "ppc h") (fastforce simp: parent_step_def)+
qed

definition writing :: "handshake \<Rightarrow> bool" where "writing h \<longleftrightarrow> cpc h = Writing"
definition written :: "handshake \<Rightarrow> bool" where "written h \<longleftrightarrow> cpc h = Written"
definition signalled :: "handshake \<Rightarrow> bool" where "signalled h \<longleftrightarrow> cpc h = Signalled"
definition child_dead :: "handshake \<Rightarrow> bool" where "child_dead h \<longleftrightarrow> cpc h = Child_dead"
definition wait_passed :: "handshake \<Rightarrow> bool" where "wait_passed h \<longleftrightarrow> ppc h = Passed"
definition killed :: "handshake \<Rightarrow> bool" where "killed h \<longleftrightarrow> ppc h = Killed"

text \<open>The flag is set and the parent is at the given point of the loop.\<close>

definition seen_at :: "parent_pc \<Rightarrow> handshake \<Rightarrow> bool" where
  "seen_at p h \<longleftrightarrow> cpc h = Signalled \<and> got_sigusr1 h \<and> ppc h = p"

text \<open>The parent has installed its handler, received the signal, and is about to forget it.\<close>

definition forgetting :: "handshake \<Rightarrow> bool" where
  "forgetting h \<longleftrightarrow> cpc h = Signalled \<and> ppc h = Before_reset"

lemmas handshake_points =
  writing_def written_def signalled_def child_dead_def wait_passed_def killed_def seen_at_def
  forgetting_def lost_def seen_def

interpretation child_dead_stays: inductive_invariant child_dead step child_dead
  by unfold_locales (auto simp: handshake_points elim!: step_cases)

interpretation wait_passed_stays: inductive_invariant wait_passed step wait_passed
  by unfold_locales (auto simp: handshake_points deliver_sigusr1_def elim!: step_cases)

interpretation killed_stays: inductive_invariant killed step killed
  by unfold_locales (auto simp: handshake_points deliver_sigusr1_def elim!: step_cases)

text \<open>What the child's progress gives.\<close>

interpretation child_writes: helpful_action step child_step writing "\<lambda>h. written h \<or> child_dead h"
  by unfold_locales
    (auto simp: handshake_points child_enabled dest!: child_stepD parent_stepD elim!: step_cases)

interpretation child_sends: helpful_action step child_step written signalled
  by unfold_locales
    (auto simp: handshake_points child_enabled deliver_sigusr1_def dest!: child_stepD parent_stepD elim!: step_cases)

text \<open>What the parent's progress gives.\<close>

interpretation parent_forgets: helpful_action step parent_step forgetting lost
  by unfold_locales
    (auto simp: handshake_points parent_enabled dest!: child_stepD parent_stepD elim!: step_cases)

interpretation parent_dozes: helpful_action step parent_step "seen_at About_to_sleep" "seen_at Sleeping"
  by unfold_locales
    (auto simp: handshake_points parent_enabled dest!: child_stepD parent_stepD elim!: step_cases)

interpretation parent_wakes: helpful_action step parent_step "seen_at Sleeping" "seen_at Testing"
  by unfold_locales
    (auto simp: handshake_points parent_enabled dest!: child_stepD parent_stepD elim!: step_cases)

interpretation parent_leaves: helpful_action step parent_step "seen_at Testing" wait_passed
  by unfold_locales
    (auto simp: handshake_points parent_enabled dest!: child_stepD parent_stepD elim!: step_cases)

lemma seen_leads_to_wait_passed:
  assumes "fair_run \<sigma>" and "seen (\<sigma> i)"
  shows "\<exists>j\<ge>i. wait_passed (\<sigma> j)"
proof -
  have f: "runs step \<sigma>" "weakly_fair parent_step \<sigma>" using assms(1) by (simp_all add: fair_run_def)
  have t: "\<exists>j\<ge>k. wait_passed (\<sigma> j)" if "seen_at Testing (\<sigma> k)" for k
    by (rule parent_leaves.leads_to [OF f that])
  have s: "\<exists>j\<ge>k. wait_passed (\<sigma> j)" if "seen_at Sleeping (\<sigma> k)" for k
    using parent_wakes.leads_to [OF f that] t by (meson order_trans)
  have a: "\<exists>j\<ge>k. wait_passed (\<sigma> j)" if "seen_at About_to_sleep (\<sigma> k)" for k
    using parent_dozes.leads_to [OF f that] s by (meson order_trans)
  consider "wait_passed (\<sigma> i)" | "seen_at Testing (\<sigma> i)" | "seen_at About_to_sleep (\<sigma> i)"
    | "seen_at Sleeping (\<sigma> i)"
    using assms(2) by (auto simp: handshake_points looping_iff)
  then show ?thesis using t s a by cases auto
qed

text \<open>\<open>Before_signal\<close> after the child's signal does not occur: the signal has killed the parent.\<close>

definition handler_first :: "handshake \<Rightarrow> bool" where
  "handler_first h \<longleftrightarrow> (cpc h = Signalled \<longrightarrow> ppc h \<noteq> Before_signal)"

interpretation handler_order: inductive_invariant start step handler_first
  by unfold_locales
    (auto simp: start_def handler_first_def deliver_sigusr1_def dest!: child_stepD parent_stepD elim!: step_cases split: if_splits)

lemma signalled_cases:
  "signalled h \<Longrightarrow> handler_first h \<Longrightarrow> wait_passed h \<or> killed h \<or> lost h \<or> seen h \<or> forgetting h"
  by (cases "ppc h") (auto simp: handshake_points handler_first_def)

lemma signalled_settles:
  assumes "fair_run \<sigma>" and "signalled (\<sigma> i)"
  shows "\<exists>j\<ge>i. wait_passed (\<sigma> j) \<or> killed (\<sigma> j) \<or> lost (\<sigma> j)"
proof -
  have f: "runs step \<sigma>" "weakly_fair parent_step \<sigma>" "start (\<sigma> 0)"
    using assms(1) by (simp_all add: fair_run_def)
  have "handler_first (\<sigma> i)"
    by (rule handler_order.run_inv [OF f(1) handler_order.init_inv [OF f(3)]]) simp
  with signalled_cases [OF assms(2)] consider "wait_passed (\<sigma> i) \<or> killed (\<sigma> i) \<or> lost (\<sigma> i)"
    | "seen (\<sigma> i)" | "forgetting (\<sigma> i)" by blast
  then show ?thesis
    using seen_leads_to_wait_passed [OF assms(1)] parent_forgets.leads_to [OF f(1,2)] by cases auto
qed

text \<open>From a parent in its loop and a child about to signal, a fair run gets to a seen signal.\<close>

definition in_time :: "handshake \<Rightarrow> bool" where
  "in_time h \<longleftrightarrow> cpc h = Written \<and> looping (ppc h) \<and> \<not> got_sigusr1 h"

interpretation child_in_time: helpful_action step child_step in_time seen
  by unfold_locales
    (auto simp: in_time_def seen_def child_enabled deliver_sigusr1_def looping_iff
      dest!: child_stepD parent_stepD elim!: step_cases split: if_splits)

text \<open>Three interleavings: a lost signal, a killed parent, a good run.\<close>

lemma start_reached: "reach start step \<lparr>ppc = Before_signal, cpc = Writing, got_sigusr1 = False\<rparr>"
  by (rule reach_init) (simp add: start_def)

lemma written_early: "reach start step \<lparr>ppc = Before_signal, cpc = Written, got_sigusr1 = False\<rparr>"
  using reach_step[OF start_reached write_chunks] by simp

lemma reach_killed: "reach start step \<lparr>ppc = Killed, cpc = Signalled, got_sigusr1 = False\<rparr>"
  using reach_step[OF written_early send] by (simp add: deliver_sigusr1_def)

lemma reach_reset: "reach start step \<lparr>ppc = Before_reset, cpc = Written, got_sigusr1 = False\<rparr>"
  using reach_step[OF written_early install] by simp

lemma reach_signalled_before_reset:
  "reach start step \<lparr>ppc = Before_reset, cpc = Signalled, got_sigusr1 = True\<rparr>"
  using reach_step[OF reach_reset send] by (simp add: deliver_sigusr1_def)

lemma reach_lost: "reach start step \<lparr>ppc = Testing, cpc = Signalled, got_sigusr1 = False\<rparr>"
  using reach_step[OF reach_signalled_before_reset reset] by simp

lemma reach_testing: "reach start step \<lparr>ppc = Testing, cpc = Written, got_sigusr1 = False\<rparr>"
  using reach_step[OF reach_reset reset] by simp

lemma reach_seen: "reach start step \<lparr>ppc = Testing, cpc = Signalled, got_sigusr1 = True\<rparr>"
  using reach_step[OF reach_testing send] by (simp add: deliver_sigusr1_def)

text \<open>The flag is set between the test and the call of \<open>sleep\<close>, which nothing then cuts short.\<close>

lemma reach_slept_through: "reach start step \<lparr>ppc = Sleeping, cpc = Signalled, got_sigusr1 = True\<rparr>"
proof -
  have "reach start step \<lparr>ppc = About_to_sleep, cpc = Written, got_sigusr1 = False\<rparr>"
    using reach_step[OF reach_testing go_to_sleep] by simp
  from reach_step[OF this send]
  have "reach start step \<lparr>ppc = About_to_sleep, cpc = Signalled, got_sigusr1 = True\<rparr>"
    by (simp add: deliver_sigusr1_def)
  from reach_step[OF this fall_asleep] show ?thesis by simp
qed

lemma reach_passed: "reach start step \<lparr>ppc = Passed, cpc = Signalled, got_sigusr1 = True\<rparr>"
  using reach_step[OF reach_seen leave_loop] by simp

end
