(* ===== verification/Fork_Sighup.thy ===== *)
theory Fork_Sighup
  imports Transition
begin

text \<open>
  The daemon loop of \<open>fork_cow_demo.c\<close> (lines 371-387) and its handler: SIGHUP sets a flag, and
  the loop writes a report and clears the flag when it finds it set.  \<open>Fork_Cow.daemon_turn\<close> runs
  the loop with the flag given; here the signal may come between any two steps.  The report is one
  step, since what it does is modelled there; \<open>sleep\<close> ends when its time is over or a signal comes.
\<close>

datatype daemon_pc =
    No_handler      \<comment> \<open>\<open>signal()\<close> not yet called\<close>
  | Checking        \<comment> \<open>at the test of the flag\<close>
  | Reporting       \<comment> \<open>in \<open>report_memory_use\<close>\<close>
  | Clearing        \<comment> \<open>the report is written, the flag not yet cleared\<close>
  | Dozing          \<comment> \<open>before the call of \<open>sleep\<close>\<close>
  | Asleep          \<comment> \<open>in \<open>sleep(3600)\<close>\<close>
  | Hung_up         \<comment> \<open>SIGHUP met its default action\<close>

record daemon =
  dpc :: daemon_pc
  parent_stats_update_requested :: bool
  reports_written :: nat

definition daemon_start :: "daemon \<Rightarrow> bool" where
  "daemon_start d \<longleftrightarrow> d = \<lparr>dpc = No_handler, parent_stats_update_requested = False, reports_written = 0\<rparr>"

text \<open>The handler sets the flag; a signal ends \<open>sleep\<close>, and before \<open>signal()\<close> the process.\<close>

definition parent_sighup_handler :: "daemon \<Rightarrow> daemon" where
  "parent_sighup_handler d =
     (if dpc d = No_handler then d\<lparr>dpc := Hung_up\<rparr>
      else if dpc d = Hung_up then d
      else d\<lparr>parent_stats_update_requested := True,
             dpc := (if dpc d = Asleep then Checking else dpc d)\<rparr>)"

text \<open>The steps of the loop itself.\<close>

inductive loop_step :: "daemon \<Rightarrow> daemon \<Rightarrow> bool" where
  install_hup: "dpc d = No_handler \<Longrightarrow> loop_step d (d\<lparr>dpc := Checking\<rparr>)"
| requested: "dpc d = Checking \<Longrightarrow> parent_stats_update_requested d \<Longrightarrow> loop_step d (d\<lparr>dpc := Reporting\<rparr>)"
| not_requested: "dpc d = Checking \<Longrightarrow> \<not> parent_stats_update_requested d \<Longrightarrow> loop_step d (d\<lparr>dpc := Dozing\<rparr>)"
| report: "dpc d = Reporting \<Longrightarrow> loop_step d (d\<lparr>dpc := Clearing, reports_written := Suc (reports_written d)\<rparr>)"
| clear: "dpc d = Clearing \<Longrightarrow> loop_step d (d\<lparr>dpc := Dozing, parent_stats_update_requested := False\<rparr>)"
| doze: "dpc d = Dozing \<Longrightarrow> loop_step d (d\<lparr>dpc := Asleep\<rparr>)"
| wake: "dpc d = Asleep \<Longrightarrow> loop_step d (d\<lparr>dpc := Checking\<rparr>)"

inductive daemon_step :: "daemon \<Rightarrow> daemon \<Rightarrow> bool" where
  loop: "loop_step d d' \<Longrightarrow> daemon_step d d'"
| hup: "daemon_step d (parent_sighup_handler d)"

inductive_cases loop_stepE: "loop_step d d'"
inductive_cases daemon_stepE: "daemon_step d d'"

text \<open>The loop on its own, with no further signal.\<close>

fun loop_next :: "daemon \<Rightarrow> daemon" where
  "loop_next d =
     (case dpc d of
        No_handler \<Rightarrow> d\<lparr>dpc := Checking\<rparr>
      | Checking \<Rightarrow> d\<lparr>dpc := (if parent_stats_update_requested d then Reporting else Dozing)\<rparr>
      | Reporting \<Rightarrow> d\<lparr>dpc := Clearing, reports_written := Suc (reports_written d)\<rparr>
      | Clearing \<Rightarrow> d\<lparr>dpc := Dozing, parent_stats_update_requested := False\<rparr>
      | Dozing \<Rightarrow> d\<lparr>dpc := Asleep\<rparr>
      | Asleep \<Rightarrow> d\<lparr>dpc := Checking\<rparr>
      | Hung_up \<Rightarrow> d)"

lemma loop_next_step: "dpc d \<noteq> Hung_up \<Longrightarrow> loop_step d (loop_next d) \<and> dpc (loop_next d) \<noteq> Hung_up"
  by (cases "dpc d"; cases "parent_stats_update_requested d")
    (simp_all add: install_hup requested not_requested report clear doze wake)

lemma loop_enabled: "dpc d \<noteq> Hung_up \<Longrightarrow> \<exists>d'. loop_step d d'"
  using loop_next_step by blast

section \<open>A request is answered\<close>

text \<open>A request is pending at a point of the loop, after \<open>n\<close> reports.\<close>

definition pending_at :: "daemon_pc \<Rightarrow> nat \<Rightarrow> daemon \<Rightarrow> bool" where
  "pending_at p n d \<longleftrightarrow> dpc d = p \<and> parent_stats_update_requested d \<and> reports_written d = n"

definition answered :: "nat \<Rightarrow> daemon \<Rightarrow> bool" where
  "answered n d \<longleftrightarrow> n < reports_written d"

lemmas pending_defs = pending_at_def answered_def parent_sighup_handler_def

interpretation dozer: helpful_action daemon_step loop_step "pending_at Dozing n" "pending_at Asleep n" for n
  by unfold_locales
    (auto simp: pending_defs loop_enabled elim!: loop_stepE daemon_stepE)

interpretation sleeper: helpful_action daemon_step loop_step "pending_at Asleep n" "pending_at Checking n" for n
  by unfold_locales
    (auto simp: pending_defs loop_enabled elim!: loop_stepE daemon_stepE)

interpretation checker: helpful_action daemon_step loop_step "pending_at Checking n" "pending_at Reporting n" for n
  by unfold_locales
    (auto simp: pending_defs loop_enabled elim!: loop_stepE daemon_stepE)

interpretation reporter: helpful_action daemon_step loop_step "pending_at Reporting n" "answered n" for n
  by unfold_locales
    (auto simp: pending_defs loop_enabled elim!: loop_stepE daemon_stepE)

lemma pending_leads_to_answer:
  assumes "runs daemon_step \<sigma>" and "weakly_fair loop_step \<sigma>"
    and "pending_at p n (\<sigma> i)" and "p \<in> {Dozing, Asleep, Checking, Reporting}"
  shows "\<exists>j\<ge>i. answered n (\<sigma> j)"
proof -
  note f = assms(1,2)
  have r: "\<exists>j\<ge>k. answered n (\<sigma> j)" if "pending_at Reporting n (\<sigma> k)" for k
    by (rule reporter.leads_to [OF f that])
  have c: "\<exists>j\<ge>k. answered n (\<sigma> j)" if "pending_at Checking n (\<sigma> k)" for k
    using checker.leads_to [OF f that] r by (meson order_trans)
  have a: "\<exists>j\<ge>k. answered n (\<sigma> j)" if "pending_at Asleep n (\<sigma> k)" for k
    using sleeper.leads_to [OF f that] c by (meson order_trans)
  have d: "\<exists>j\<ge>k. answered n (\<sigma> j)" if "pending_at Dozing n (\<sigma> k)" for k
    using dozer.leads_to [OF f that] a by (meson order_trans)
  from assms(3,4) r c a d show ?thesis by auto
qed

text \<open>A request that arrives after the report has been written, before the flag is cleared.\<close>

lemma reach_clearing:
  "reach daemon_start daemon_step \<lparr>dpc = Clearing, parent_stats_update_requested = True, reports_written = 1\<rparr>"
proof -
  have "reach daemon_start daemon_step \<lparr>dpc = No_handler, parent_stats_update_requested = False, reports_written = 0\<rparr>"
    by (rule reach_init) (simp add: daemon_start_def)
  from reach_step [OF this loop [OF install_hup]]
  have "reach daemon_start daemon_step \<lparr>dpc = Checking, parent_stats_update_requested = False, reports_written = 0\<rparr>"
    by simp
  from reach_step [OF this hup]
  have "reach daemon_start daemon_step \<lparr>dpc = Checking, parent_stats_update_requested = True, reports_written = 0\<rparr>"
    by (simp add: parent_sighup_handler_def)
  from reach_step [OF this loop [OF requested]]
  have "reach daemon_start daemon_step \<lparr>dpc = Reporting, parent_stats_update_requested = True, reports_written = 0\<rparr>"
    by simp
  from reach_step [OF this loop [OF report]] show ?thesis by simp
qed

text \<open>Such a request is forgotten.\<close>

lemma sighup_forgotten:
  "\<exists>d d'. reach daemon_start daemon_step d \<and> daemon_step d (parent_sighup_handler d) \<and>
    loop_step (parent_sighup_handler d) d' \<and> \<not> parent_stats_update_requested d' \<and> reports_written d' = reports_written d"
proof -
  let ?d = "\<lparr>dpc = Clearing, parent_stats_update_requested = True, reports_written = 1\<rparr>"
  have "parent_sighup_handler ?d = ?d" by (simp add: parent_sighup_handler_def)
  moreover from this have "daemon_step ?d ?d" using hup [of ?d] by simp
  ultimately show ?thesis
    using reach_clearing clear [of ?d]
    by (intro exI [of _ ?d] exI [of _ "?d\<lparr>dpc := Dozing, parent_stats_update_requested := False\<rparr>"]) simp
qed

text \<open>The run of the loop on its own, with no further signal, from a given state.\<close>

primrec undisturbed :: "daemon \<Rightarrow> nat \<Rightarrow> daemon" where
  "undisturbed d 0 = d"
| "undisturbed d (Suc i) = loop_next (undisturbed d i)"

lemma undisturbed_runs:
  assumes "dpc d \<noteq> Hung_up"
  shows "runs daemon_step (undisturbed d)" and "weakly_fair loop_step (undisturbed d)"
proof -
  have "dpc (undisturbed d i) \<noteq> Hung_up" for i
    by (induction i) (use assms loop_next_step in \<open>simp_all del: loop_next.simps\<close>)
  then have s: "loop_step (undisturbed d i) (undisturbed d (Suc i))" for i
    using loop_next_step by (simp del: loop_next.simps)
  then show "runs daemon_step (undisturbed d)" by (simp add: runs_def loop del: undisturbed.simps)
  show "weakly_fair loop_step (undisturbed d)" using s unfolding weakly_fair_def by blast
qed

end
