(* ===== verification/Fork_Cow_Properties.thy ===== *)
theory Fork_Cow_Properties
  imports Fork_Cow_Laws Fork_Signal Fork_Sighup
begin

text \<open>
  The properties of the copy-on-write demo: what the arguments mean, that parent and child have
  their own copies of the private chunks after the fork, how the shared chunks overlap, when the
  interactive loop ends, what the status report prints, what a whole run gives back, the
  handshake by signal with its races and its fair runs, and the answer to SIGHUP.
\<close>

text \<open>A kernel where everything succeeds, for the concrete instances.\<close>

definition friendly :: kernel where
  "friendly = \<lparr>k_malloc = (\<lambda>_. True), k_mmap = (\<lambda>_. True), k_shm_open = 3,
     k_ftruncate = (\<lambda>_. True), k_oom_file = True, k_after_literal = ''abc'', k_oom_write = True,
     k_getpid = 100, k_fork = 101, k_child_getppid = 100, k_madvise = (\<lambda>_. True),
     k_files = (\<lambda>_. Some ''1 2 3 4 5 6 7''), k_sigusr1 = True, k_isatty = True,
     k_key = (\<lambda>_. Key CHR ''q''), k_sigint = (\<lambda>_. False), k_sighup = (\<lambda>_. False)\<rparr>"

lemma friendly_reports: "reports (friendly\<lparr>k_key := key\<rparr>) pid"
proof (rule reports_constI)
  show "scan_lu 7 ''1 2 3 4 5 6 7'' = Some [1, 2, 3, 4, 5, 6, 7]"
    by (simp add: eval_nat_numeral is_digit_def digit_val_def is_space_def digits_value_def)
qed (simp add: friendly_def)

definition small_config :: config where
  "small_config = \<lparr>chunk_size_bytes = 1, shm_chunk_size_bytes = 1, fork_child = 1, pageout = 0,
     wait_signal = 0, shm_fd = 3\<rparr>"



text \<open>C10: Copy on write: when the program forks, the parent's copy-on-write heap chunk still holds
  what the parent wrote, the child's holds what the child wrote, and every other private chunk is
  the same in both.\<close>

theorem fork_isolates_heap:
  assumes "before_fork k cfg s = Inr s1" and "fork_phase k cfg s1 = Some (Inr r)"
    and "child r = Some p" and "cow_size (chunk_size_bytes cfg) \<noteq> 0"
  shows "let n = unat (cow_size (chunk_size_bytes cfg)) in
     heap (proc (parent r)) = heap (proc s1) \<and>
     heap (proc (parent r)) Heap_cow = Some (replicate n (Some 0x7f)) \<and>
     heap p = (heap (proc s1))(Heap_cow := Some (replicate n (Some 0x8f)))"
proof -
  obtain s2 s3 s4 where "alloc_heap k cfg s2 = Inr s3" "alloc_shm k cfg s3 = Inr s4"
      "heap (proc s1) = heap (proc s4)"
    using assms(1) by (auto simp: before_fork_def rbind_eq_Inr)
  then have h: "heap (proc s1) Heap_cow =
      Some (replicate (unat (cow_size (chunk_size_bytes cfg))) (Some 0x7f))"
    using alloc_heap_Inr[OF _ assms(4)] alloc_shm_heap by metis
  obtain c where c: "child_main k cfg (fork_system s1) = Inr c" "p = proc c"
      "heap (proc (parent r)) = heap (proc s1)"
    using assms(2,3) by (auto simp: fork_phase_def Let_def split: if_splits sum.splits)
  have "heap (proc (fork_system s1)) = heap (proc s1)" by (simp add: fork_system_def)
  then have "heap p = (heap (proc s1))(Heap_cow :=
      Some (replicate (unat (cow_size (chunk_size_bytes cfg))) (Some 0x8f)))"
    using child_main_Inr[OF c(1) assms(4), of "Some 0x7f"] h c(2) by simp
  then show ?thesis using h c(3) by (simp add: Let_def)
qed

theorem fork_isolates_heap_witness:
  "\<exists>s1 r p. before_fork friendly small_config (start_system\<lparr>segment := replicate 7 0\<rparr>) = Inr s1 \<and>
     fork_phase friendly small_config s1 = Some (Inr r) \<and> child r = Some p \<and>
     heap (proc (parent r)) Heap_cow \<noteq> heap p Heap_cow"
proof -
  let ?s = "start_system\<lparr>segment := replicate 7 0\<rparr>"
  have "case before_fork friendly small_config ?s of Inl _ \<Rightarrow> False
    | Inr s1 \<Rightarrow> (case fork_phase friendly small_config s1 of
        Some (Inr r) \<Rightarrow> (case child r of None \<Rightarrow> False | Some _ \<Rightarrow> True) | _ \<Rightarrow> False)"
    by (simp add: before_fork_def fork_phase_def oom_adjust_def alloc_heap_def alloc_shm_def
        memset_heap_def memset_shm_def shm_alloc_def mmap_result_def child_main_def
        child_pageout_def fork_system_def malloc_chunk_def print_kb_def print_dirty_def
        log_event_def friendly_def small_config_def start_system_def untouched_size_def
        parent_dirty_size_def cow_size_def Let_def)
  then obtain s1 where s1: "before_fork friendly small_config ?s = Inr s1"
      "case fork_phase friendly small_config s1 of
        Some (Inr r) \<Rightarrow> (case child r of None \<Rightarrow> False | Some _ \<Rightarrow> True) | _ \<Rightarrow> False"
    by (cases "before_fork friendly small_config ?s") simp_all
  from s1(2) obtain x where x: "fork_phase friendly small_config s1 = Some x"
      "case x of Inr r \<Rightarrow> (case child r of None \<Rightarrow> False | Some _ \<Rightarrow> True) | Inl _ \<Rightarrow> False"
    by (cases "fork_phase friendly small_config s1") simp_all
  then obtain r p where "x = Inr r" "child r = Some p"
    by (cases x) (auto split: option.splits)
  then have r: "before_fork friendly small_config ?s = Inr s1"
      "fork_phase friendly small_config s1 = Some (Inr r)" "child r = Some p"
    using s1(1) x(1) by simp_all
  moreover have "cow_size (chunk_size_bytes small_config) = 4"
    by (simp add: small_config_def cow_size_def)
  ultimately have "heap (proc (parent r)) Heap_cow = Some (replicate 4 (Some 0x7f))"
      "heap p Heap_cow = Some (replicate 4 (Some 0x8f))"
    using fork_isolates_heap[OF r] by (auto simp: Let_def)
  then have "heap (proc (parent r)) Heap_cow \<noteq> heap p Heap_cow"
    by (simp add: replicate_eq_replicate)
  then show ?thesis using r by blast
qed

text \<open>C27: The three shared chunks are mapped from the same offset, so they overlap: after the parent's
  writes only four of the seven chunk sizes of the segment are dirty, although six are reported,
  and the chunk that is meant to stay untouched is dirty from end to end.\<close>

theorem shared_chunks_overlap:
  assumes "alloc_shm k cfg s = Inr s'" and "0 \<le> shm_fd cfg" and "k_mmap k Shm_untouched"
    and "unat (shm_chunk_size_bytes cfg) = n" and "0 < n" and "7 * n < 2 ^ 63"
  shows "segment s' = replicate (4 * n) 0x7f @ drop (4 * n) (segment s) \<and>
     unat (dirty_shared cfg) = 6 * n \<and>
     shm_view s' Shm_untouched = Some (replicate n 0x7f)"
proof -
  note r = alloc_shm_Inr[OF assms(1,2,5,6,4)]
  have "shm_chunk_size_bytes cfg \<noteq> 0" using assms(4,5) by auto
  then have "shm (proc s') Shm_untouched = Mapped n"
    using r assms(3,4) by (simp add: mmap_result_def)
  moreover have "dirty_shared cfg = of_nat 6 * shm_chunk_size_bytes cfg"
    by (simp add: dirty_shared_def parent_dirty_size_def cow_size_def)
  then have "unat (dirty_shared cfg) = 6 * n"
    using unat_times_small[of 6 "shm_chunk_size_bytes cfg"] assms(4,6) by simp
  ultimately show ?thesis using r by (simp add: shm_view_def min_def)
qed

theorem shared_chunks_overlap_witness:
  "\<exists>s'. alloc_shm friendly small_config (start_system\<lparr>segment := replicate 7 0\<rparr>) = Inr s' \<and>
     shm_view s' Shm_untouched = Some [0x7f] \<and> segment s' = [0x7f, 0x7f, 0x7f, 0x7f, 0, 0, 0]"
proof -
  let ?s = "start_system\<lparr>segment := replicate 7 0\<rparr>"
  have "case alloc_shm friendly small_config ?s of Inl _ \<Rightarrow> False | Inr _ \<Rightarrow> True"
    by (simp add: alloc_shm_def memset_shm_def shm_alloc_def mmap_result_def print_kb_def
        log_event_def friendly_def small_config_def start_system_def untouched_size_def
        parent_dirty_size_def cow_size_def Let_def)
  then obtain s' where a: "alloc_shm friendly small_config ?s = Inr s'"
    by (auto split: sum.splits)
  have n: "unat (shm_chunk_size_bytes small_config) = 1" by (simp add: small_config_def)
  have "segment s' = replicate (4 * 1) 0x7f @ drop (4 * 1) (replicate 7 0) \<and>
      shm_view s' Shm_untouched = Some (replicate 1 0x7f)"
    using shared_chunks_overlap[OF a _ _ n] by (simp add: small_config_def friendly_def)
  then show ?thesis using a by (simp add: numeral_eq_Suc)
qed

text \<open>C38: The interactive loop ends exactly when the user types \<open>q\<close> or interrupts it; in
  particular it never ends when the input does first.\<close>

theorem tty_loop_ends_iff:
  assumes "reports k pid"
  shows "(\<exists>fuel. tty_loop fuel k pid 0 s \<noteq> None) \<longleftrightarrow>
         (\<exists>n. k_sigint k n \<or> k_key k n = Key CHR ''q'')"
proof
  assume "\<exists>fuel. tty_loop fuel k pid 0 s \<noteq> None"
  then show "\<exists>n. k_sigint k n \<or> k_key k n = Key CHR ''q''"
    using tty_loop_only_ends[OF assms] unfolding ends_at_def by blast
next
  assume "\<exists>n. k_sigint k n \<or> k_key k n = Key CHR ''q''"
  then obtain n where "ends_at k (0 + n)" by (auto simp: ends_at_def)
  then show "\<exists>fuel. tty_loop fuel k pid 0 s \<noteq> None"
    using tty_loop_ends[OF assms] by blast
qed

theorem tty_loop_ends_iff_witness:
  "\<not> (\<exists>fuel. tty_loop fuel (friendly\<lparr>k_key := \<lambda>_. End_of_input\<rparr>) 0 0 start_system \<noteq> None)"
  using tty_loop_ends_iff[OF friendly_reports, of "\<lambda>_. End_of_input" 0 start_system]
  by (simp add: friendly_def)

text \<open>The status report prints every line of \<open>/proc/PID/status\<close> exactly once, in order, each
  behind the process id and the label, when the lines are shorter than the buffer.\<close>

lemma status_lines_labelled:
  assumes "fs (proc_path 40 pid ''status'') = Some (concat (map (\<lambda>l. l @ [NL]) ls))"
    and "\<forall>l \<in> set ls. NL \<notin> set l \<and> length l < 2047"
  shows "print_proc_status fs pid label =
           Inr (concat (map (\<lambda>l. labelled pid label l @ [NL]) ls) @ [NL])"
proof -
  have "fgets_all 2048 (concat (map (\<lambda>l. l @ [NL]) ls)) = map (\<lambda>l. l @ [NL]) ls"
    using assms(2) by (intro fgets_all_lines) auto
  then show ?thesis
    using assms(1)
    by (simp add: print_proc_status_def print_lines_def labelled_def comp_def)
qed

text \<open>C36: A run of the program that returns gives back what it took: the three heap chunks it
  allocated are each freed once; the three mappings of the shared segment are unmapped with their
  own sizes exactly when the segment's descriptor is positive, so a run without a second argument
  leaves its mappings behind; and SIGTERM goes once to what \<open>fork\<close> returned, to every process when
  that is -1, and to nobody when the program did not fork.\<close>

theorem main_gives_back:
  assumes "main fuel k argv = Some (Inr r)"
  shows "\<exists>cfg s. parse_args k argv start_system = Inr (cfg, s) \<and>
    held (parent r) = heap_taken cfg @ shm_events Mmap cfg @
      (if fork_child cfg \<noteq> 0 \<and> k_fork k \<noteq> 0 then [Kill (k_fork k) ''SIGTERM''] else []) @
      [Free Heap_untouched, Free Heap_parent_dirty, Free Heap_cow] @
      (if 3 \<le> length argv \<and> 0 < k_shm_open k then shm_events Munmap cfg else [])"
proof -
  obtain cfg s s1 r1 where run: "parse_args k argv start_system = Inr (cfg, s)"
      "before_fork k cfg s = Inr s1" "fork_phase k cfg s1 = Some (Inr r1)"
      "after_fork fuel k cfg r1 = Some (Inr r)"
    using assms by (auto simp: main_def split: sum.splits option.splits)
  have "held start_system = []" by (simp add: held_def start_system_def)
  then show ?thesis
    using run parse_args_shm[OF run(1)] held_before_fork[OF run(2)] held_fork_phase[OF run(3)]
      held_after_fork[OF run(4)]
    by (auto simp: held_cleanup)
qed

text \<open>With a terminal, one turn of the loop is enough for a user who types \<open>q\<close>.\<close>

lemma after_fork_quits:
  assumes "pageout cfg = 0" and "reports k (child_pid r)" and "k_isatty k"
    and "k_key k 0 = Key CHR ''q''"
  shows "\<exists>r'. after_fork 1 k cfg r = Some (Inr r')"
proof -
  obtain s' where "report_now k (child_pid r) (print_dirty ''Parent + child dirtied''
      (dirty_private cfg + (if fork_child cfg \<noteq> 0 then cow_size (chunk_size_bytes cfg) else 0))
      (dirty_shared cfg + (if fork_child cfg \<noteq> 0 then cow_size (shm_chunk_size_bytes cfg) else 0))
      (parent r)) = Inr s'"
    using reports_now[OF assms(2)] by metis
  then show ?thesis
    using assms by (simp add: after_fork_def parent_pageout_def wait_phase_def Let_def)
qed

theorem main_gives_back_witness:
  "\<exists>r. main 1 friendly [''demo'', show_int 1] = Some (Inr r) \<and>
     Kill 101 ''SIGTERM'' \<in> set (held (parent r)) \<and>
     Mmap Shm_cow 0 \<in> set (held (parent r)) \<and>
     (\<forall>ch n. Munmap ch n \<notin> set (held (parent r)))"
proof -
  let ?argv = "[''demo'', show_int 1]"
  let ?cfg = "\<lparr>chunk_size_bytes = 1, shm_chunk_size_bytes = 0, fork_child = 1, pageout = 0,
    wait_signal = 1, shm_fd = 0\<rparr> :: config"
  obtain s where p: "parse_args friendly ?argv start_system = Inr (?cfg, s)"
    by (simp add: parse_args_def parse_chunk_size_show LONG_MIN_def LONG_MAX_def Let_def)
  have "\<exists>s1 r1. before_fork friendly ?cfg s = Inr s1 \<and> fork_phase friendly ?cfg s1 = Some (Inr r1)"
    by (simp add: before_fork_def fork_phase_def oom_adjust_def alloc_heap_def alloc_shm_def
        memset_heap_def memset_shm_def shm_alloc_def mmap_result_def child_main_def
        child_pageout_def fork_system_def malloc_chunk_def print_kb_def print_dirty_def
        log_event_def friendly_def untouched_size_def parent_dirty_size_def cow_size_def Let_def)
  then obtain s1 r1 where f: "before_fork friendly ?cfg s = Inr s1"
      "fork_phase friendly ?cfg s1 = Some (Inr r1)" by blast
  have "reports friendly pid" for pid
    using friendly_reports[of "k_key friendly" pid] by simp
  then obtain r where "after_fork 1 friendly ?cfg r1 = Some (Inr r)"
    using after_fork_quits[of ?cfg friendly r1] by (auto simp: friendly_def)
  then have r: "main 1 friendly ?argv = Some (Inr r)" using p f by (simp add: main_def)
  show ?thesis
    using r p main_gives_back[OF r]
    by (auto simp: friendly_def heap_taken_def shm_events_def cow_size_def Let_def)
qed

text \<open>C11: The parent never measures too early: in every interleaving, \<open>wait_for_sigusr1\<close> returns only
  after the child has written its chunks and sent its signal.\<close>

theorem parent_waits_for_child:
  assumes "reach start step h" and "ppc h = Passed"
  shows "cpc h = Signalled"
  using handshake_order.reach_inv[OF assms(1)] assms(2) by (simp add: ordered_def)

theorem parent_waits_for_child_witness:
  "\<exists>h. reach start step h \<and> ppc h = Passed \<and> cpc h = Signalled"
  using parent_waits_for_child[OF reach_passed] reach_passed by auto



text \<open>C12: Under a scheduler that is fair to both processes every run settles: for ever the parent has
  passed the wait, or has been killed by the signal, or loops on a lost signal, or the child died
  before it could signal.  And once the parent is in its loop with a clear flag before the child
  signals, it does get past the wait.\<close>

theorem fair_handshake_settles:
  assumes "fair_run \<sigma>"
  shows "(\<exists>i. (\<forall>j\<ge>i. ppc (\<sigma> j) = Passed) \<or> (\<forall>j\<ge>i. ppc (\<sigma> j) = Killed) \<or>
      (\<forall>j\<ge>i. lost (\<sigma> j)) \<or> (\<forall>j\<ge>i. cpc (\<sigma> j) = Child_dead)) \<and>
    (\<forall>i. in_time (\<sigma> i) \<longrightarrow> (\<exists>j\<ge>i. ppc (\<sigma> j) = Passed))"
proof (intro conjI allI impI)
  have f: "runs step \<sigma>" "weakly_fair child_step \<sigma>" "start (\<sigma> 0)"
    using assms by (simp_all add: fair_run_def)
  have "writing (\<sigma> 0)" using f(3) by (simp add: start_def writing_def)
  then obtain i where "written (\<sigma> i) \<or> child_dead (\<sigma> i)"
    using child_writes.leads_to [OF f(1,2)] by blast
  then obtain j where "child_dead (\<sigma> j) \<or> wait_passed (\<sigma> j) \<or> killed (\<sigma> j) \<or> lost (\<sigma> j)"
    using child_sends.leads_to [OF f(1,2)] signalled_settles [OF assms] by blast
  then show "\<exists>i. (\<forall>j\<ge>i. ppc (\<sigma> j) = Passed) \<or> (\<forall>j\<ge>i. ppc (\<sigma> j) = Killed) \<or>
      (\<forall>j\<ge>i. lost (\<sigma> j)) \<or> (\<forall>j\<ge>i. cpc (\<sigma> j) = Child_dead)"
    using child_dead_stays.run_inv [OF f(1)] wait_passed_stays.run_inv [OF f(1)]
      killed_stays.run_inv [OF f(1)] lost_signal.run_inv [OF f(1)]
    unfolding child_dead_def wait_passed_def killed_def by meson
next
  fix i
  assume "in_time (\<sigma> i)"
  then obtain k where "i \<le> k" "seen (\<sigma> k)"
    using assms child_in_time.leads_to unfolding fair_run_def by blast
  then show "\<exists>j\<ge>i. ppc (\<sigma> j) = Passed"
    using seen_leads_to_wait_passed [OF assms] unfolding wait_passed_def by (meson order_trans)
qed

text \<open>A run in which the parent waits in time: install, reset, write, signal, leave.\<close>

definition good_run :: "nat \<Rightarrow> handshake" where
  "good_run i =
     (if i = 0 then \<lparr>ppc = Before_signal, cpc = Writing, got_sigusr1 = False\<rparr>
      else if i = 1 then \<lparr>ppc = Before_reset, cpc = Writing, got_sigusr1 = False\<rparr>
      else if i = 2 then \<lparr>ppc = Testing, cpc = Writing, got_sigusr1 = False\<rparr>
      else if i = 3 then \<lparr>ppc = Testing, cpc = Written, got_sigusr1 = False\<rparr>
      else if i = 4 then \<lparr>ppc = Testing, cpc = Signalled, got_sigusr1 = True\<rparr>
      else \<lparr>ppc = Passed, cpc = Signalled, got_sigusr1 = True\<rparr>)"

lemma good_run_fair: "fair_run good_run"
proof -
  have end_: "cpc (good_run (i + 5)) = Signalled" "ppc (good_run (i + 5)) = Passed" for i
    by (simp_all add: good_run_def)
  have "step (good_run 0) (good_run 1)" "step (good_run 1) (good_run 2)"
      "step (good_run 2) (good_run 3)" "step (good_run 3) (good_run 4)" "step (good_run 4) (good_run 5)"
    using install [of "good_run 0"] reset [of "good_run 1"] write_chunks [of "good_run 2"]
      send [of "good_run 3"] leave_loop [of "good_run 4"]
    by (simp_all add: good_run_def deliver_sigusr1_def)
  then have "good_run (Suc i) = good_run i \<or> step (good_run i) (good_run (Suc i))" for i
    by (cases "i < 5") (auto simp: less_Suc_eq numeral_eq_Suc, simp_all add: good_run_def)
  then have "runs step good_run" by (simp add: runs_def)
  moreover have "\<not> (\<forall>j\<ge>i. \<exists>t. child_step (good_run j) t)" for i
    unfolding child_enabled using end_(1) by (metis child_pc.distinct(3,7) le_add1)
  then have "weakly_fair child_step good_run" unfolding weakly_fair_def by blast
  moreover have "\<not> (\<forall>j\<ge>i. \<exists>t. parent_step (good_run j) t)" for i
    unfolding parent_enabled using end_(2) by (metis le_add1)
  then have "weakly_fair parent_step good_run" unfolding weakly_fair_def by blast
  ultimately show ?thesis by (simp add: fair_run_def start_def good_run_def)
qed

theorem fair_handshake_settles_witness:
  "fair_run good_run \<and> (\<exists>j\<ge>3. ppc (good_run j) = Passed)"
proof -
  have "in_time (good_run 3)" by (simp add: in_time_def good_run_def)
  then show ?thesis using good_run_fair fair_handshake_settles [OF good_run_fair] by blast
qed

text \<open>C13: A SIGHUP that the daemon receives outside its report is answered: whenever the request flag is
  set and no report is being written, a run that does not starve the loop writes another report.\<close>

theorem sighup_request_answered:
  assumes "runs daemon_step \<sigma>" and "weakly_fair loop_step \<sigma>"
    and "parent_stats_update_requested (\<sigma> i)" and "dpc (\<sigma> i) \<in> {Checking, Dozing, Asleep}"
  shows "\<exists>j\<ge>i. reports_written (\<sigma> i) < reports_written (\<sigma> j)"
proof -
  have "pending_at (dpc (\<sigma> i)) (reports_written (\<sigma> i)) (\<sigma> i)" using assms(3) by (simp add: pending_at_def)
  from pending_leads_to_answer [OF assms(1,2) this] assms(4) show ?thesis
    unfolding answered_def by blast
qed

theorem sighup_request_answered_witness:
  "\<exists>j. 0 < reports_written (undisturbed
     (parent_sighup_handler \<lparr>dpc = Asleep, parent_stats_update_requested = False, reports_written = 0\<rparr>) j)"
proof -
  let ?d = "parent_sighup_handler \<lparr>dpc = Asleep, parent_stats_update_requested = False, reports_written = 0\<rparr>"
  have d: "?d = \<lparr>dpc = Checking, parent_stats_update_requested = True, reports_written = 0\<rparr>"
    by (simp add: parent_sighup_handler_def)
  then have "dpc ?d \<noteq> Hung_up" by simp
  from sighup_request_answered [OF undisturbed_runs [OF this], of 0] show ?thesis using d by auto
qed

end
