(* ===== verification/Overcommit.thy ===== *)
theory Overcommit
  imports C_Prelude
begin

text \<open>
  \<open>postgresql/memory_accounting_demos/overcommit.c\<close>: the arguments, the children it forks, each
  of which allocates its bytes and touches the first and the last, and the clean-up.  What
  \<open>fork\<close> and \<open>malloc\<close> return is a parameter; the parent is the list of its events, a child the
  contents of its block.  Then which process ids the clean-up signals and waits for.
\<close>

datatype parent_event =
    Overcommit_setting char | Will_run int int | Would_allocate int
  | Forked int | Run string | Kill int | Wait int

text \<open>Lines 26-36: \<open>usage_die\<close> ends the program with status 1.\<close>

definition parse_positive :: "string \<Rightarrow> int res" where
  "parse_positive arg =
     (let r = strtol arg 10 in
      if st_rest r \<noteq> [] then Inl (Exit 1) else if st_value r \<le> 0 then Inl (Exit 1)
      else Inr (st_value r))"

text \<open>
  The child of \<open>fork_child\<close>: it writes at both ends of the block that \<open>malloc\<close> returned; a
  failed \<open>malloc\<close> is not checked.  The value is the block's contents afterwards.
\<close>

definition child_run :: "8 word list option \<Rightarrow> int \<Rightarrow> 8 word list res" where
  "child_run block bytesperchild =
     (case block of
        None \<Rightarrow> Inl Undefined
      | Some bs \<Rightarrow>
          check (0 < bytesperchild \<and> nat bytesperchild \<le> length bs) Undefined
            (Inr (bs[0 := 0x7f, nat (bytesperchild - 1) := 0x7f])))"

text \<open>\<open>fork_child\<close>: what the parent gets back is kept, -1 too.\<close>

fun fork_children :: "(nat \<Rightarrow> int) \<Rightarrow> nat \<Rightarrow> nat \<Rightarrow> int list" where
  "fork_children fork_result 0 childno = []"
| "fork_children fork_result (Suc n) childno =
     fork_result childno # fork_children fork_result n (Suc childno)"

definition overcommit_ps_command :: "int \<Rightarrow> string" where
  "overcommit_ps_command pid =
     fst (snprintf 100 (''ps --pid '' @ show_int pid @ '' --ppid '' @ show_int pid @
       '' -o pid,ppid,pmem,sz,rss,vsz,comm | egrep -v '' @
       [CHR 0x27] @ ''(ps|sh|grep)'' @ [CHR 0x27]))"

text \<open>
  The size of the array of process ids is an unsigned 64-bit product; an array that is missing or
  too short is written all the same.
\<close>

definition membomb :: "int \<Rightarrow> (nat \<Rightarrow> int) \<Rightarrow> bool \<Rightarrow> int \<Rightarrow> parent_event list res" where
  "membomb pid fork_result pids_allocated children =
     (if 0 < children \<and> (\<not> pids_allocated \<or> (4 * children) mod 2 ^ 64 < 4 * children)
      then Inl Undefined
      else let pids = fork_children fork_result (nat children) 0 in
        Inr ([Run ''free -k''] @ map Forked pids @ [Run ''free -k'', Run (overcommit_ps_command pid), Run ''free -h''] @
             map Kill pids @ map Wait pids))"

text \<open>
  Lines 19-53; \<open>overcommit_file\<close> is the contents of \<open>/proc/sys/vm/overcommit_memory\<close>, None if
  it cannot be opened, which is not checked.  At the end of the file \<open>fgetc\<close> returns -1, which is
  kept in a \<open>char\<close>.  The product is a signed 64-bit one, so an overflow is undefined.
\<close>

definition first_char :: "string \<Rightarrow> char" where
  "first_char contents = (case contents of [] \<Rightarrow> CHR 0xFF | c # _ \<Rightarrow> c)"

definition overcommit_main ::
    "int \<Rightarrow> (nat \<Rightarrow> int) \<Rightarrow> bool \<Rightarrow> string option \<Rightarrow> string list \<Rightarrow> parent_event list res" where
  "overcommit_main pid fork_result pids_allocated overcommit_file argv =
     (if length argv \<noteq> 3 then Inl (Exit 1)
      else rbind (parse_positive (argv ! 1)) (\<lambda>nchildren.
           rbind (parse_positive (argv ! 2)) (\<lambda>bytesperchild.
           case overcommit_file of
             None \<Rightarrow> Inl Undefined
           | Some contents \<Rightarrow>
               check (nchildren * bytesperchild \<le> LONG_MAX) Undefined
                 (rbind (membomb pid fork_result pids_allocated nchildren) (\<lambda>es.
                    Inr ([Overcommit_setting (first_char contents), Will_run nchildren bytesperchild,
                          Would_allocate (nchildren * bytesperchild)] @ es))))))"

lemma fork_children_map: "fork_children f n k = map f [k..<k + n]"
  by (induction n arbitrary: k) (simp_all add: upt_conv_Cons del: upt_Suc)

text \<open>A child that gets its block touches its first and its last byte and nothing else.\<close>

lemma child_run_touches_ends:
  assumes "0 < n" and "length bs = nat n"
  shows "\<exists>bs'. child_run (Some bs) n = Inr bs' \<and> length bs' = length bs \<and>
    (\<forall>i < length bs. bs' ! i = (if i = 0 \<or> i = length bs - 1 then 0x7f else bs ! i))"
  using assms by (auto simp: child_run_def nth_list_update nat_diff_distrib)

text \<open>The processes an event forks, signals and waits for.\<close>

fun forked :: "parent_event \<Rightarrow> int option" where
  "forked (Forked p) = Some p" | "forked _ = None"

fun killed :: "parent_event \<Rightarrow> int option" where
  "killed (Kill p) = Some p" | "killed _ = None"

fun waited :: "parent_event \<Rightarrow> int option" where
  "waited (Wait p) = Some p" | "waited _ = None"

lemma map_filter_hit: "(\<And>x. f (g x) = Some x) \<Longrightarrow> List.map_filter f (map g xs) = xs"
  by (induction xs) (simp_all add: List.map_filter_simps)

lemma map_filter_miss: "(\<And>x. f (g x) = None) \<Longrightarrow> List.map_filter f (map g xs) = []"
  by (induction xs) (simp_all add: List.map_filter_simps)

lemma map_filter_append: "List.map_filter f (xs @ ys) = List.map_filter f xs @ List.map_filter f ys"
  by (simp add: List.map_filter_def)

lemma membomb_pids:
  assumes "0 < n" and "n < 2 ^ 62"
  shows "\<exists>es. membomb pid f True n = Inr es \<and> List.map_filter forked es = map f [0..<nat n] \<and>
    List.map_filter killed es = map f [0..<nat n] \<and> List.map_filter waited es = map f [0..<nat n]"
  using assms
  by (simp add: membomb_def fork_children_map Let_def map_filter_append map_filter_hit
      map_filter_miss List.map_filter_simps del: map_map)

lemma killed_events: "Kill p \<in> set es \<longleftrightarrow> p \<in> set (List.map_filter killed es)"
proof (induction es)
  case (Cons e es)
  then show ?case by (cases e) (simp_all add: List.map_filter_simps)
qed (simp add: List.map_filter_simps)

lemma parse_positive_show:
  assumes "LONG_MIN \<le> n" and "n \<le> LONG_MAX"
  shows "parse_positive (show_int n) = (if 0 < n then Inr n else Inl (Exit 1))"
  using strtol_show_int[OF assms] by (simp add: parse_positive_def)

text \<open>C37: Two positive decimal arguments whose product fits a \<open>long\<close> make the program fork that many
  children, signal exactly the process ids that the forks returned and wait for exactly those, in
  the order of the forks; any other number ends it with status 1.  When \<open>fork\<close> returns only
  positive ids and -1, it signals nothing but its children exactly when no fork failed: a failed
  one makes it send SIGTERM to process id -1.\<close>

theorem overcommit_tidies_up:
  assumes "LONG_MIN \<le> n" and "n < 2 ^ 62" and "LONG_MIN \<le> b" and "b \<le> LONG_MAX"
    and "n * b \<le> LONG_MAX" and "\<And>k. f k = -1 \<or> 0 < f k"
  shows "if 0 < n \<and> 0 < b
    then \<exists>es. overcommit_main pid f True (Some setting) [prog, show_int n, show_int b] = Inr es \<and>
      List.map_filter forked es = map f [0..<nat n] \<and>
      List.map_filter killed es = map f [0..<nat n] \<and>
      List.map_filter waited es = map f [0..<nat n] \<and>
      ((\<forall>p. Kill p \<in> set es \<longrightarrow> 0 < p) \<longleftrightarrow> (\<forall>k < nat n. f k \<noteq> -1))
    else overcommit_main pid f True (Some setting) [prog, show_int n, show_int b] = Inl (Exit 1)"
proof -
  have "n \<le> LONG_MAX" using assms(2) by (simp add: LONG_MAX_def)
  note parse = parse_positive_show[OF assms(1) this] parse_positive_show[OF assms(3,4)]
  show ?thesis
  proof (cases "0 < n \<and> 0 < b")
    case True
    then obtain es where es: "membomb pid f True n = Inr es"
        "List.map_filter forked es = map f [0..<nat n]"
        "List.map_filter killed es = map f [0..<nat n]"
        "List.map_filter waited es = map f [0..<nat n]"
      using membomb_pids[of n pid f] assms(2) by blast
    have "0 < f k \<longleftrightarrow> f k \<noteq> -1" for k using assms(6)[of k] by auto
    moreover have "(\<forall>p. p \<in> f ` {0..<nat n} \<longrightarrow> 0 < p) \<longleftrightarrow> (\<forall>k < nat n. 0 < f k)" by auto
    ultimately have "(\<forall>p. Kill p \<in> set es \<longrightarrow> 0 < p) \<longleftrightarrow> (\<forall>k < nat n. f k \<noteq> -1)"
      by (simp add: killed_events es(3))
    then show ?thesis
      using True assms(5) parse es by (simp add: overcommit_main_def List.map_filter_simps)
  qed (use parse in \<open>auto simp: overcommit_main_def\<close>)
qed

theorem overcommit_tidies_up_witness:
  "\<exists>es. overcommit_main 50 (\<lambda>k. if k = 1 then -1 else 51 + int k) True (Some ''0'')
     [''overcommit'', show_int 3, show_int 4096] = Inr es \<and>
     List.map_filter killed es = [51, -1, 53] \<and> \<not> (\<forall>p. Kill p \<in> set es \<longrightarrow> 0 < p)"
proof -
  let ?f = "\<lambda>k :: nat. if k = 1 then -1 else 51 + int k"
  have "?f k = -1 \<or> 0 < ?f k" for k by simp
  from overcommit_tidies_up[of 3 4096 ?f 50 "''0''" "''overcommit''", OF _ _ _ _ _ this]
  obtain es where es: "overcommit_main 50 ?f True (Some ''0'')
        [''overcommit'', show_int 3, show_int 4096] = Inr es"
      "List.map_filter killed es = map ?f [0..<nat 3]"
      "(\<forall>p. Kill p \<in> set es \<longrightarrow> 0 < p) \<longleftrightarrow> (\<forall>k < nat 3. ?f k \<noteq> -1)"
    by (auto simp: LONG_MIN_def LONG_MAX_def)
  moreover have "map ?f [0..<nat 3] = [51, -1, 53]" by code_simp
  moreover have "\<not> (\<forall>k < nat 3. ?f k \<noteq> -1)" by (auto intro: exI[of _ 1])
  ultimately show ?thesis by metis
qed

end
