(* ===== verification/Scope_Stack.thy ===== *)
theory Scope_Stack
  imports C_Prelude
begin

text \<open>
  The contract of a stack of scopes: entering pushes, leaving pops, and only the scope entered last
  may be left.  The guard stack of \<open>c/clang_return_stack_checks\<close> interprets it.
\<close>

fun enter_all :: "('a \<Rightarrow> 's \<Rightarrow> 's res) \<Rightarrow> 'a list \<Rightarrow> 's \<Rightarrow> 's res" where
  "enter_all enter [] s = Inr s"
| "enter_all enter (a # as) s = rbind (enter a s) (enter_all enter as)"

locale scope_stack =
  fixes content :: "'s \<Rightarrow> 'a list \<Rightarrow> bool"
    and ready :: "'a \<Rightarrow> 's \<Rightarrow> bool"
    and enter :: "'a \<Rightarrow> 's \<Rightarrow> 's res"
    and leave :: "'a \<Rightarrow> 's \<Rightarrow> 's res"
  assumes enter_law: "content s xs \<Longrightarrow> ready a s \<Longrightarrow>
      \<exists>s'. enter a s = Inr s' \<and> content s' (a # xs) \<and> (\<forall>b. b \<noteq> a \<longrightarrow> ready b s' = ready b s)"
    and leave_law: "content s (a # xs) \<Longrightarrow> \<exists>s'. leave a s = Inr s' \<and> content s' xs"
    and leave_other: "content s (a # xs) \<Longrightarrow> b \<noteq> a \<Longrightarrow> b \<in> set xs \<Longrightarrow>
      leave b s = Inl AssertFail"
begin

lemma enter_all_law:
  "content s xs \<Longrightarrow> distinct as \<Longrightarrow> (\<And>a. a \<in> set as \<Longrightarrow> ready a s) \<Longrightarrow>
     \<exists>s'. enter_all enter as s = Inr s' \<and> content s' (rev as @ xs)"
proof (induction as arbitrary: s xs)
  case (Cons a as)
  obtain s1 where s1: "enter a s = Inr s1" "content s1 (a # xs)"
      "\<forall>b. b \<noteq> a \<longrightarrow> ready b s1 = ready b s"
    using enter_law[OF Cons.prems(1)] Cons.prems(3) by fastforce
  have "\<And>b. b \<in> set as \<Longrightarrow> ready b s1" using s1(3) Cons.prems(2,3) by (metis distinct.simps(2) list.set_intros(2))
  then obtain s' where "enter_all enter as s1 = Inr s'" "content s' (rev as @ a # xs)"
    using Cons.IH[OF s1(2)] Cons.prems(2) by auto
  then show ?case using s1(1) by simp
qed simp

lemma leave_all_law:
  "content s (as @ xs) \<Longrightarrow> \<exists>s'. enter_all leave as s = Inr s' \<and> content s' xs"
proof (induction as arbitrary: s)
  case (Cons a as)
  then obtain s1 where "leave a s = Inr s1" "content s1 (as @ xs)"
    using leave_law[of s a "as @ xs"] by auto
  then show ?case using Cons.IH[of s1] by simp
qed simp

text \<open>Entering scopes and leaving them in the opposite order restores the content.\<close>

lemma enter_leave:
  assumes "content s xs" and "distinct as" and "\<And>a. a \<in> set as \<Longrightarrow> ready a s"
  shows "\<exists>s'. rbind (enter_all enter as s) (enter_all leave (rev as)) = Inr s' \<and> content s' xs"
proof -
  obtain s1 where s1: "enter_all enter as s = Inr s1" "content s1 (rev as @ xs)"
    using enter_all_law[OF assms] by blast
  show ?thesis using leave_all_law[OF s1(2)] s1(1) by simp
qed

end

end
