(* ===== verification/Guard_Stack.thy ===== *)
theory Guard_Stack
  imports Scope_Stack
begin

text \<open>
  The guard stack of \<open>c/clang_return_stack_checks\<close>: \<open>guard.h\<close> and \<open>guard.c\<close>, and the two
  programs that put their guards on it, \<open>return_stack_escape.c\<close> and \<open>sigjmp_escape.c\<close>, with
  their compile-time switches \<open>USE_INNER_GUARDS\<close> and \<open>POP_ONLY_INNER_GUARDS\<close> as arguments
  (\<open>TRACE_GUARDS\<close> is on, as it is by default, so the messages read the names behind the
  pointers).  \<open>mask_local_escape.c\<close> is at the end.

  Automatic variables live at addresses that grow with every declaration; leaving a function
  removes those of its frame, and reading through a pointer to a removed one is undefined.
  Address 0 is the null pointer.
\<close>

record guard =
  guard_set :: "8 word"
  gname :: string
  previous :: nat

record stack_state =
  guards :: "nat \<Rightarrow> guard option"
  guard_ptr :: nat
  jbuf :: nat
  next_local :: nat
  err :: "string list"

definition start_state :: stack_state where
  "start_state = \<lparr>guards = (\<lambda>_. None), guard_ptr = 0, jbuf = 0, next_local = 1, err = []\<rparr>"

definition trace_msg :: "string \<Rightarrow> stack_state \<Rightarrow> stack_state" where
  "trace_msg m s = s\<lparr>err := err s @ [m]\<rparr>"

definition new_guard :: "string \<Rightarrow> stack_state \<Rightarrow> nat \<times> stack_state" where
  "new_guard n s = (next_local s, s\<lparr>
     guards := (guards s)(next_local s \<mapsto> \<lparr>guard_set = 0, gname = n, previous = 0\<rparr>),
     next_local := next_local s + 1\<rparr>)"

definition new_buf :: "stack_state \<Rightarrow> nat \<times> stack_state" where
  "new_buf s = (next_local s, s\<lparr>next_local := next_local s + 1\<rparr>)"

text \<open>The locals from address \<open>base\<close> on go when the function returns.\<close>

definition pop_frame :: "nat \<Rightarrow> stack_state \<Rightarrow> stack_state" where
  "pop_frame base s =
     s\<lparr>guards := (\<lambda>a. if base \<le> a then None else guards s a), next_local := base\<rparr>"

definition name_behind :: "nat \<Rightarrow> stack_state \<Rightarrow> string res" where
  "name_behind p s =
     (if p = 0 then Inr ''(nil)'' else rbind (deref (guards s) p) (\<lambda>x. Inr (gname x)))"

definition set_guard :: "nat \<Rightarrow> stack_state \<Rightarrow> stack_state res" where
  "set_guard g s =
     rbind (deref (guards s) g) (\<lambda>x.
     check (guard_set x = 0) AssertFail
      (let s1 = s\<lparr>guards := (guards s)(g \<mapsto> x\<lparr>guard_set := 1, previous := guard_ptr s\<rparr>),
                  guard_ptr := g\<rparr>
       in rbind (name_behind (guard_ptr s) s1) (\<lambda>n.
            Inr (trace_msg (''set_guard '' @ gname x @ '' pushed previous '' @ n) s1))))"

definition clear_guard :: "nat \<Rightarrow> stack_state \<Rightarrow> stack_state res" where
  "clear_guard g s =
     rbind (deref (guards s) g) (\<lambda>x.
     rbind (name_behind (previous x) s) (\<lambda>n.
       let s1 = trace_msg (''clear_guard '' @ gname x @ '' restoring previous '' @ n) s in
       check (guard_set x \<noteq> 0) AssertFail
       (check (guard_ptr s1 \<noteq> 0) AssertFail
       (check (guard_ptr s1 = g) AssertFail
         (Inr (s1\<lparr>guards := (guards s1)(g \<mapsto> x\<lparr>guard_set := 0\<rparr>), guard_ptr := previous x\<rparr>))))))"

definition check_guard :: "stack_state \<Rightarrow> bool \<times> stack_state" where
  "check_guard s = (guard_ptr s = 0,
     trace_msg (if guard_ptr s \<noteq> 0 then ''guard not ok: guard pointer''
                else ''guard ok: guard pointer empty'') s)"

section \<open>return_stack_escape.c\<close>

definition foo :: "32 word \<Rightarrow> stack_state \<Rightarrow> (32 word \<times> stack_state) res" where
  "foo do_fail s =
     (let (g, s1) = new_guard ''g'' s in
      rbind (set_guard g s1) (\<lambda>s2.
        if do_fail \<noteq> 0 then Inr (do_fail, pop_frame (next_local s) s2)
        else rbind (clear_guard g s2) (\<lambda>s3. Inr (do_fail, pop_frame (next_local s) s3))))"

definition return_stack_main :: "string list \<Rightarrow> stack_state \<Rightarrow> int res" where
  "return_stack_main argv s =
     (if length argv \<noteq> 2 then Inl (Exit 2)
      else let r = strtol (argv ! 1) 10 in
      if st_rest r \<noteq> [] then Inl (Exit 2)
      else rbind (foo (word_of_int (st_value r)) s) (\<lambda>(_, s1).
        Inr (if fst (check_guard s1) then 0 else 1)))"

section \<open>sigjmp_escape.c\<close>

text \<open>
  How a branch of \<open>test_jmp\<close> is left.  \<open>siglongjmp(*jbuf, 1)\<close> needs a buffer whose frame is
  still there.
\<close>

datatype leave = Falls_out | Jumps | Returns

definition do_a_jump :: "stack_state \<Rightarrow> (leave \<times> stack_state) res" where
  "do_a_jump s =
     (let s1 = trace_msg ''jumping to branch 1'' s in
      check (jbuf s1 \<noteq> 0 \<and> jbuf s1 < next_local s1) Undefined (Inr (Jumps, s1)))"

definition clear_if :: "bool \<Rightarrow> nat \<Rightarrow> stack_state \<Rightarrow> stack_state res" where
  "clear_if c g s = (if c then clear_guard g s else Inr s)"

definition set_inner :: "bool \<Rightarrow> string \<Rightarrow> stack_state \<Rightarrow> (nat \<times> stack_state) res" where
  "set_inner inner n s =
     (if inner then (let (g, s1) = new_guard n s in rbind (set_guard g s1) (\<lambda>s2. Inr (g, s2)))
      else Inr (0, s))"

text \<open>The early return of either branch, lines 56-87 and 103-127.\<close>

definition return_early ::
    "bool \<Rightarrow> bool \<Rightarrow> nat \<Rightarrow> nat \<Rightarrow> string \<Rightarrow> stack_state \<Rightarrow> (leave \<times> stack_state) res" where
  "return_early inner pop_only g_outer g m s =
     rbind (clear_if (inner \<and> pop_only) g s) (\<lambda>s1.
       check (inner \<and> pop_only \<longrightarrow> guard_ptr s1 = g_outer) AssertFail
         (Inr (Returns, trace_msg m s1)))"

definition branch_0 ::
    "bool \<Rightarrow> bool \<Rightarrow> bool \<Rightarrow> bool \<Rightarrow> nat \<Rightarrow> nat \<Rightarrow> stack_state \<Rightarrow> (leave \<times> stack_state) res" where
  "branch_0 inner pop_only should_jump should_return_early g_outer b s =
     rbind (set_inner inner ''g_branch_0'' s) (\<lambda>(g, s1).
     rbind (if inner then rbind (deref (guards s1) (guard_ptr s1))
                            (\<lambda>x. check (previous x = g_outer) AssertFail (Inr s1))
            else Inr s1) (\<lambda>s2.
       let s3 = trace_msg ''took branch 0'' (s2\<lparr>jbuf := b\<rparr>) in
       if should_jump then rbind (clear_if inner g s3) do_a_jump
       else if should_return_early
       then return_early inner pop_only g_outer g ''escaping branch 0 early'' s3
       else rbind (clear_if inner g s3) (\<lambda>s4. Inr (Falls_out, s4))))"

definition branch_1 ::
    "bool \<Rightarrow> bool \<Rightarrow> bool \<Rightarrow> nat \<Rightarrow> stack_state \<Rightarrow> (leave \<times> stack_state) res" where
  "branch_1 inner pop_only should_return_early g_outer s =
     rbind (set_inner inner ''g_branch_1'' s) (\<lambda>(g, s1).
       let s2 = trace_msg ''took branch 1'' s1 in
       if should_return_early
       then return_early inner pop_only g_outer g ''escaping branch 1 early'' s2
       else rbind (clear_if inner g s2) (\<lambda>s3. Inr (Falls_out, s3)))"

definition test_jmp :: "bool \<Rightarrow> bool \<Rightarrow> bool \<Rightarrow> bool \<Rightarrow> stack_state \<Rightarrow> stack_state res" where
  "test_jmp inner pop_only should_jump should_return_early s =
     (let base = next_local s; (g_outer, s0) = new_guard ''g_outer'' s in
      rbind (set_guard g_outer s0) (\<lambda>s1.
      let (b, s2) = new_buf s1 in
      rbind (rbind (branch_0 inner pop_only should_jump should_return_early g_outer b s2)
               (\<lambda>(how, s3). if how = Jumps
                  then branch_1 inner pop_only should_return_early g_outer s3
                  else Inr (how, s3))) (\<lambda>(how, s4).
        if how = Returns then Inr (pop_frame base s4)
        else rbind (clear_guard g_outer (s4\<lparr>jbuf := 0\<rparr>)) (\<lambda>s5. Inr (pop_frame base s5)))))"

definition sigjmp_escape_main :: "bool \<Rightarrow> bool \<Rightarrow> string list \<Rightarrow> stack_state \<Rightarrow> int res" where
  "sigjmp_escape_main inner pop_only argv s =
     (if length argv \<noteq> 3 then Inl (Exit 2)
      else rbind (test_jmp inner pop_only (atoi (argv ! 1) \<noteq> 0) (atoi (argv ! 2) \<noteq> 0) s) (\<lambda>s1.
        if jbuf s1 \<noteq> 0 then Inl (Exit 1)
        else if \<not> fst (check_guard s1) then Inl (Exit 1)
        else Inr 0))"

section \<open>mask_local_escape.c\<close>

record chain_container =
  leaky_member :: nat
  previous_container :: nat

record chain_state =
  containers :: "nat \<Rightarrow> chain_container option"
  ints :: "nat \<Rightarrow> int option"
  sneaky_chain_container :: nat
  next_addr :: nat

definition escape_via_sneaky_chain_assignment_1 :: "chain_state \<Rightarrow> chain_state res" where
  "escape_via_sneaky_chain_assignment_1 s =
     (let entry = next_addr s; g = next_addr s + 1; p = sneaky_chain_container s;
          s1 = s\<lparr>containers := (containers s)(entry \<mapsto>
                   \<lparr>leaky_member = 0, previous_container = 0\<rparr>),
                 ints := (ints s)(g \<mapsto> 1), next_addr := next_addr s + 2\<rparr>
      in rbind (deref (containers s1) p) (\<lambda>x.
         let s2 = s1\<lparr>containers := (containers s1)(p \<mapsto> x\<lparr>leaky_member := g\<rparr>)\<rparr>
         in rbind (deref (containers s2) entry) (\<lambda>y.
         let s3 = s2\<lparr>containers := (containers s2)(entry \<mapsto> y\<lparr>previous_container := p\<rparr>),
                     sneaky_chain_container := entry\<rparr>
         in rbind (deref (containers s3) (sneaky_chain_container s3)) (\<lambda>z.
         let s4 = s3\<lparr>sneaky_chain_container := previous_container z\<rparr>
         in rbind (deref (containers s4) (sneaky_chain_container s4)) (\<lambda>w.
         check (leaky_member w = g) AssertFail
           (Inr (s4\<lparr>containers := (containers s4)(entry := None), ints := (ints s4)(g := None),
                    next_addr := next_addr s\<rparr>)))))))"

text \<open>The second component is the pointer that has escaped.\<close>

definition escape_via_sneaky_chain_assignment :: "chain_state \<Rightarrow> (chain_state \<times> nat) res" where
  "escape_via_sneaky_chain_assignment s =
     (let p = next_addr s;
          s1 = s\<lparr>containers := (containers s)(p \<mapsto> \<lparr>leaky_member = 0, previous_container = 0\<rparr>),
                 sneaky_chain_container := p, next_addr := next_addr s + 1\<rparr>
      in rbind (escape_via_sneaky_chain_assignment_1 s1) (\<lambda>s2.
         rbind (deref (containers s2) (sneaky_chain_container s2)) (\<lambda>x.
           Inr (s2\<lparr>containers := (containers s2)(p := None), sneaky_chain_container := 0,
                   next_addr := next_addr s\<rparr>, leaky_member x))))"

end
