(* ===== verification/Guard_Properties.thy ===== *)
theory Guard_Properties
  imports Guard_Stack
begin

text \<open>
  The guard stack obeys the contract of a stack of scopes, and what the two escape programs and
  the masked escape show.
\<close>

section \<open>The guards as a stack\<close>

fun gchain :: "(nat \<Rightarrow> guard option) \<Rightarrow> nat \<Rightarrow> nat list \<Rightarrow> bool" where
  "gchain h p [] \<longleftrightarrow> p = 0"
| "gchain h p (g # gs) \<longleftrightarrow> p = g \<and> g \<noteq> 0 \<and>
     (case h g of None \<Rightarrow> False | Some x \<Rightarrow> guard_set x \<noteq> 0 \<and> gchain h (previous x) gs)"

definition guard_stack :: "stack_state \<Rightarrow> nat list \<Rightarrow> bool" where
  "guard_stack s gs \<longleftrightarrow> gchain (guards s) (guard_ptr s) gs \<and> distinct gs"

definition unset_guard :: "nat \<Rightarrow> stack_state \<Rightarrow> bool" where
  "unset_guard g s \<longleftrightarrow> g \<noteq> 0 \<and>
     (case guards s g of None \<Rightarrow> False | Some x \<Rightarrow> guard_set x = 0)"

lemma gchain_upd [simp]: "g \<notin> set gs \<Longrightarrow> gchain (h(g := v)) p gs = gchain h p gs"
  by (induction gs arbitrary: p) (auto split: option.splits)

lemma gchain_set: "gchain h p gs \<Longrightarrow> g \<in> set gs \<Longrightarrow> \<exists>x. h g = Some x \<and> guard_set x \<noteq> 0"
  by (induction gs arbitrary: p) (auto split: option.splits)

lemma gchain_from: "gchain h p (xs @ g # ys) \<Longrightarrow> gchain h g (g # ys)"
proof (induction xs arbitrary: p)
  case (Cons a xs)
  then obtain q where "gchain h q (xs @ g # ys)" by (auto split: option.splits)
  then show ?case by (rule Cons.IH)
qed simp

lemma gchain_name: "gchain (guards s) p gs \<Longrightarrow> \<exists>n. name_behind p s = Inr n"
  by (cases gs) (auto simp: name_behind_def split: option.splits)

lemma guards_trace [simp]:
  "guards (trace_msg m s) = guards s" "guard_ptr (trace_msg m s) = guard_ptr s"
  "jbuf (trace_msg m s) = jbuf s" "next_local (trace_msg m s) = next_local s"
  by (simp_all add: trace_msg_def)

lemma set_guard_law:
  assumes "guard_stack s gs" and "unset_guard g s"
  shows "\<exists>s'. set_guard g s = Inr s' \<and> guard_stack s' (g # gs) \<and>
           (\<forall>b. b \<noteq> g \<longrightarrow> unset_guard b s' = unset_guard b s)"
proof -
  obtain x where x: "guards s g = Some x" "guard_set x = 0" "g \<noteq> 0"
    using assms(2) by (auto simp: unset_guard_def split: option.splits)
  have notin: "g \<notin> set gs"
    using assms(1) x gchain_set by (fastforce simp: guard_stack_def)
  let ?h = "(guards s)(g \<mapsto> x\<lparr>guard_set := 1, previous := guard_ptr s\<rparr>)"
  let ?s = "s\<lparr>guards := ?h, guard_ptr := g\<rparr>"
  have c: "gchain ?h (guard_ptr s) gs"
    using notin assms(1) by (simp add: guard_stack_def)
  then obtain n where "name_behind (guard_ptr s) ?s = Inr n"
    using gchain_name[of ?s "guard_ptr s" gs] by auto
  then show ?thesis
    using x c notin assms(1)
    by (auto simp: set_guard_def guard_stack_def unset_guard_def)
qed

lemma clear_guard_law:
  assumes "guard_stack s (g # gs)"
  shows "\<exists>s'. clear_guard g s = Inr s' \<and> guard_stack s' gs"
proof -
  obtain x where x: "guards s g = Some x" "guard_set x \<noteq> 0" "guard_ptr s = g" "g \<noteq> 0"
      "gchain (guards s) (previous x) gs" "g \<notin> set gs" "distinct gs"
    using assms by (auto simp: guard_stack_def split: option.splits)
  obtain n where n: "name_behind (previous x) s = Inr n" using gchain_name[OF x(5)] by blast
  have "gchain ((guards s)(g \<mapsto> x\<lparr>guard_set := 0\<rparr>)) (previous x) gs"
    using x(5,6) by simp
  then show ?thesis
    using x n by (auto simp: clear_guard_def guard_stack_def)
qed

lemma clear_guard_other:
  assumes "guard_stack s (a # xs)" and "b \<noteq> a" and "b \<in> set xs"
  shows "clear_guard b s = Inl AssertFail"
proof -
  obtain us vs where "xs = us @ b # vs" using split_list[OF assms(3)] by blast
  then have "gchain (guards s) b (b # vs)"
    using gchain_from[of "guards s" "guard_ptr s" "a # us" b vs] assms(1)
    by (simp add: guard_stack_def)
  then obtain x where x: "guards s b = Some x" "guard_set x \<noteq> 0"
      "gchain (guards s) (previous x) vs"
    by (auto split: option.splits)
  obtain n where "name_behind (previous x) s = Inr n" using gchain_name[OF x(3)] by blast
  moreover have "guard_ptr s = a" "a \<noteq> 0" using assms(1) by (auto simp: guard_stack_def)
  ultimately show ?thesis using x assms(2) by (simp add: clear_guard_def)
qed

interpretation guard_scope: scope_stack guard_stack unset_guard set_guard clear_guard
  by unfold_locales (blast intro: set_guard_law clear_guard_law clear_guard_other)+

text \<open>Two unset guards in a row, for the concrete instances.\<close>

definition two_guards :: stack_state where
  "two_guards = snd (new_guard ''b'' (snd (new_guard ''a'' start_state)))"

lemma two_guards_ready: "unset_guard 1 two_guards" "unset_guard 2 two_guards"
  by (simp_all add: unset_guard_def two_guards_def new_guard_def start_state_def)

lemma two_guards_empty: "guard_stack two_guards []"
  by (simp add: guard_stack_def two_guards_def new_guard_def start_state_def)

text \<open>C8: Guards nest: setting any distinct unset guards and clearing them in the opposite order
  succeeds and leaves the guard stack as it was, and while they are set, clearing any of them but
  the last fails an assertion.\<close>

theorem guards_nest:
  assumes "guard_stack s gs" and "distinct as" and "\<forall>a \<in> set as. unset_guard a s"
  shows "(\<exists>s'. rbind (enter_all set_guard as s) (enter_all clear_guard (rev as)) = Inr s' \<and>
           guard_stack s' gs) \<and>
         (\<forall>a \<in> set (butlast as).
           rbind (enter_all set_guard as s) (clear_guard a) = Inl AssertFail)"
proof (intro conjI ballI)
  show "\<exists>s'. rbind (enter_all set_guard as s) (enter_all clear_guard (rev as)) = Inr s' \<and>
           guard_stack s' gs"
    using guard_scope.enter_leave[OF assms(1,2)] assms(3) by blast
next
  fix a assume a: "a \<in> set (butlast as)"
  then have as: "as = butlast as @ [last as]" "as \<noteq> []" by (cases as; simp)+
  obtain s' where s': "enter_all set_guard as s = Inr s'" "guard_stack s' (rev as @ gs)"
    using guard_scope.enter_all_law[OF assms(1,2)] assms(3) by blast
  have "guard_stack s' (last as # (rev (butlast as) @ gs))"
    using s'(2) as by (metis append_Cons append_Nil rev_append rev_singleton_conv)
  moreover have "a \<noteq> last as" using a as assms(2) by (metis distinct_append disjoint_insert(1)
      list.set(2) list.simps(15))
  ultimately have "clear_guard a s' = Inl AssertFail"
    using guard_scope.leave_other a by simp
  then show "rbind (enter_all set_guard as s) (clear_guard a) = Inl AssertFail"
    using s'(1) by simp
qed

theorem guards_nest_witness:
  "rbind (enter_all set_guard [1, 2] two_guards) (clear_guard 1) = Inl AssertFail"
  using guards_nest[OF two_guards_empty, of "[1, 2]"] two_guards_ready by simp

section \<open>The escape programs\<close>

lemmas escape_defs =
  test_jmp_def branch_0_def branch_1_def return_early_def set_inner_def clear_if_def do_a_jump_def
  set_guard_def clear_guard_def name_behind_def new_guard_def new_buf_def pop_frame_def
  start_state_def trace_msg_def check_guard_def Let_def

lemma test_jmp_result:
  "\<exists>s'. test_jmp inner pop_only j e start_state = Inr s' \<and>
     (jbuf s' = 0 \<longleftrightarrow> \<not> e) \<and> (guard_ptr s' = 0 \<longleftrightarrow> \<not> e) \<and>
     (e \<longrightarrow> guards s' (guard_ptr s') = None)"
  by (cases inner; cases pop_only; cases j; cases e) (simp_all add: escape_defs)

text \<open>\<open>sigjmp_escape\<close> detects every escape and nothing else: whatever the guard switches and
  whether or not it jumps, it succeeds when it does not return early, and otherwise it ends with
  status 1 because a pointer to a buffer that is gone is left behind.\<close>

lemma sigjmp_escape_detects:
  "sigjmp_escape_main inner pop_only [prog, j, e] start_state =
     (if atoi e = 0 then Inr 0 else Inl (Exit 1))"
  using test_jmp_result[of inner pop_only "atoi j \<noteq> 0" "atoi e \<noteq> 0"]
  by (auto simp: sigjmp_escape_main_def check_guard_def)

text \<open>\<open>return_stack_escape\<close> reports failure exactly when it leaks its guard.\<close>

lemma return_stack_detects:
  "return_stack_main [prog, show_int n] start_state = Inr (if n = 0 then 0 else 1)"
  if "\<bar>n\<bar> < 2147483648"
proof -
  have z: "(word_of_int n :: 32 word) = 0 \<longleftrightarrow> n = 0"
  proof
    assume "(word_of_int n :: 32 word) = 0"
    then have "sint (word_of_int n :: 32 word) = 0" by simp
    then show "n = 0" using that by (simp add: signed_of_int signed_take_bit_int_eq_self)
  qed simp
  have "strtol (show_int n) 10 = \<lparr>st_value = n, st_rest = [], st_erange = False\<rparr>"
    by (rule strtol_show_int) (use that in \<open>simp_all add: LONG_MIN_def LONG_MAX_def\<close>)
  then show ?thesis
    by (simp add: return_stack_main_def foo_def escape_defs z)
qed

text \<open>The masked escape passes its assertion, and the pointer that gets out is dangling.\<close>

lemma masked_escape:
  "\<exists>s' g. escape_via_sneaky_chain_assignment
      \<lparr>containers = (\<lambda>_. None), ints = (\<lambda>_. None), sneaky_chain_container = 0, next_addr = 1\<rparr> =
        Inr (s', g) \<and> g \<noteq> 0 \<and> ints s' g = None \<and> sneaky_chain_container s' = 0"
  by (simp add: escape_via_sneaky_chain_assignment_def escape_via_sneaky_chain_assignment_1_def
      Let_def)

end
