(* ===== verification/Try_Macros.thy ===== *)
theory Try_Macros
  imports C_Prelude
begin

text \<open>
  The exception macros of \<open>c/clang_return_stack_checks/sigjmp_escape_hdr_try.h\<close>
  (\<open>TEST_TRY\<close>, \<open>TEST_CATCH\<close>, \<open>TEST_FINALLY\<close>, \<open>TEST_END_TRY\<close>), the two functions that jump
  (\<open>sigjmp_escape_hdr_try.c\<close>) and the program that leaves their blocks early
  (\<open>sigjmp_escape_hdr.c\<close>).  A block of C code is a function on the state that says how it was
  left; the macros are functions of the blocks they enclose.  Jump buffers are automatic
  variables: they get growing addresses, and the ones from \<open>next_buf\<close> on are gone.  0 is the null
  pointer.
\<close>

record try_state =
  TEST_exception_stack :: nat
  next_buf :: nat
  try_err :: "string list"

datatype exit = Normal | Return | Jump nat

type_synonym block = "try_state \<Rightarrow> (exit \<times> try_state) res"

definition say :: "string \<Rightarrow> try_state \<Rightarrow> try_state" where
  "say m s = s\<lparr>try_err := try_err s @ [m]\<rparr>"

definition print_msg :: "string \<Rightarrow> block" where
  "print_msg m s = Inr (Normal, say m s)"

definition return_now :: block where
  "return_now s = Inr (Return, s)"

text \<open>Statements one after the other.\<close>

definition andthen :: "block \<Rightarrow> block \<Rightarrow> block" where
  "andthen a b s = rbind (a s) (\<lambda>(x, s'). if x = Normal then b s' else Inr (x, s'))"

definition if_then :: "bool \<Rightarrow> block \<Rightarrow> block" where
  "if_then c b s = (if c then b s else Inr (Normal, s))"

text \<open>\<open>siglongjmp\<close> to a buffer that is null or gone is undefined.\<close>

definition siglongjmp :: "nat \<Rightarrow> block" where
  "siglongjmp b s = check (b \<noteq> 0 \<and> b < next_buf s) Undefined (Inr (Jump b, s))"

definition hdr_do_a_jump :: block where
  "hdr_do_a_jump s = siglongjmp (TEST_exception_stack s) (say ''jumping'' s)"

definition test_re_throw :: block where
  "test_re_throw s =
     (if TEST_exception_stack s \<noteq> 0 then siglongjmp (TEST_exception_stack s) s
      else Inl (Exit 1))"

text \<open>\<open>sigsetjmp\<close>: the body runs with its own buffer on top; a jump to that buffer comes back here.\<close>

definition set_stack :: "nat \<Rightarrow> try_state \<Rightarrow> try_state" where
  "set_stack b s = s\<lparr>TEST_exception_stack := b\<rparr>"

definition leave_to :: "nat \<Rightarrow> exit \<times> try_state \<Rightarrow> exit \<times> try_state" where
  "leave_to b = (\<lambda>(x, s). (x, s\<lparr>next_buf := b\<rparr>))"

text \<open>\<open>TEST_END_TRY\<close>.\<close>

definition end_try :: "nat \<Rightarrow> bool \<Rightarrow> block" where
  "end_try save do_rethrow s =
     (if do_rethrow then test_re_throw s else Inr (Normal, set_stack save s))"

text \<open>\<open>TEST_TRY { body } TEST_CATCH { handler } TEST_END_TRY\<close>.\<close>

definition try_catch :: "block \<Rightarrow> block \<Rightarrow> block" where
  "try_catch body handler s =
     (let save = TEST_exception_stack s; b = next_buf s in
      rbind (body (set_stack b (s\<lparr>next_buf := Suc b\<rparr>))) (\<lambda>(x, s1).
        rbind (if x = Normal then end_try save False s1
               else if x = Jump b
               then andthen handler (end_try save False)
                      (set_stack save (s1\<lparr>next_buf := Suc b\<rparr>))
               else Inr (x, s1)) (\<lambda>r. Inr (leave_to b r))))"

text \<open>\<open>TEST_TRY { body } TEST_FINALLY { final } TEST_END_TRY\<close>: both ways lead through the last block,
  and after a jump the exception is thrown again.\<close>

definition try_finally :: "block \<Rightarrow> block \<Rightarrow> block" where
  "try_finally body final s =
     (let save = TEST_exception_stack s; b = next_buf s in
      rbind (body (set_stack b (s\<lparr>next_buf := Suc b\<rparr>))) (\<lambda>(x, s1).
        rbind (if x = Normal \<or> x = Jump b
               then andthen final (end_try save (x = Jump b))
                      (set_stack save (s1\<lparr>next_buf := Suc b\<rparr>))
               else Inr (x, s1)) (\<lambda>r. Inr (leave_to b r))))"

section \<open>sigjmp_escape_hdr.c\<close>

definition hdr_branch_0 :: "bool \<Rightarrow> bool \<Rightarrow> block" where
  "hdr_branch_0 should_jump should_return_early =
     andthen (print_msg ''took branch 0'')
    (andthen (if_then should_jump hdr_do_a_jump)
             (if_then should_return_early
                (andthen (print_msg ''escaping branch 0 early'') return_now)))"

definition hdr_branch_1 :: "bool \<Rightarrow> block" where
  "hdr_branch_1 should_return_early =
     andthen (print_msg ''took branch 1'')
             (if_then should_return_early
                (andthen (print_msg ''escaping branch 1 early'') return_now))"

definition hdr_test_jmp :: "bool \<Rightarrow> bool \<Rightarrow> bool \<Rightarrow> block" where
  "hdr_test_jmp use_finally should_jump should_return_early =
     (if use_finally
      then try_finally (hdr_branch_0 should_jump should_return_early)
                       (hdr_branch_1 should_return_early)
      else try_catch (hdr_branch_0 should_jump should_return_early)
                     (hdr_branch_1 should_return_early))"

definition start_try :: try_state where
  "start_try = \<lparr>TEST_exception_stack = 0, next_buf = 1, try_err = []\<rparr>"

definition hdr_main :: "bool \<Rightarrow> string list \<Rightarrow> int res" where
  "hdr_main use_finally argv =
     (if length argv \<noteq> 3 then Inl (Exit 2)
      else rbind (hdr_test_jmp use_finally (atoi (argv ! 1) \<noteq> 0) (atoi (argv ! 2) \<noteq> 0) start_try)
        (\<lambda>(_, s). if TEST_exception_stack s \<noteq> 0 then Inl (Exit 1) else Inr 0))"

section \<open>Blocks that keep the exception stack\<close>

text \<open>
  \<open>keeps m\<close>: from a state whose top buffer is live (or whose stack is empty), however \<open>m\<close> is left
  the stack is as it was, and it is left by a jump only to the buffer that was on top.
\<close>

definition top_live :: "try_state \<Rightarrow> bool" where
  "top_live s \<longleftrightarrow> TEST_exception_stack s < next_buf s"

definition keeps :: "block \<Rightarrow> bool" where
  "keeps m \<longleftrightarrow> (\<forall>s x s'. top_live s \<longrightarrow> m s = Inr (x, s') \<longrightarrow>
     TEST_exception_stack s' = TEST_exception_stack s \<and> next_buf s' = next_buf s \<and>
     (\<forall>b. x = Jump b \<longrightarrow> b = TEST_exception_stack s \<and> b \<noteq> 0))"


named_theorems keeps_intros

lemma keepsD:
  assumes "keeps m" and "m s = Inr (x, s')" and "top_live s"
  shows "TEST_exception_stack s' = TEST_exception_stack s" "next_buf s' = next_buf s"
    "x = Jump b \<Longrightarrow> b = TEST_exception_stack s" "x = Jump b \<Longrightarrow> b \<noteq> 0"
  using assms unfolding keeps_def by blast+




lemma keeps_return [keeps_intros]: "keeps return_now"
  by (auto simp: keeps_def return_now_def)

lemma if_then_simps: "if_then True b = b" "if_then False b = (\<lambda>s. Inr (Normal, s))"
  by (simp_all add: if_then_def fun_eq_iff)

lemma keeps_nothing [keeps_intros]: "keeps (\<lambda>s. Inr (Normal, s))"
  by (auto simp: keeps_def)

lemma keeps_if_then [keeps_intros]: "keeps b \<Longrightarrow> keeps (if_then c b)"
  by (cases c) (simp_all add: if_then_simps keeps_nothing)

lemma keeps_andthen [keeps_intros]:
  assumes a: "keeps a" and b: "keeps b"
  shows "keeps (andthen a b)"
  unfolding keeps_def
proof (intro allI impI)
  fix s x s'
  assume l: "top_live s" and r: "andthen a b s = Inr (x, s')"
  then obtain y s1 where s1: "a s = Inr (y, s1)"
      "(if y = Normal then b s1 else Inr (y, s1)) = Inr (x, s')"
    by (auto simp: andthen_def rbind_eq_Inr)
  have k: "TEST_exception_stack s1 = TEST_exception_stack s" "next_buf s1 = next_buf s"
    using keepsD(1,2)[OF a s1(1) l] by blast+
  then have l1: "top_live s1" using l by (simp add: top_live_def)
  show "TEST_exception_stack s' = TEST_exception_stack s \<and> next_buf s' = next_buf s \<and>
     (\<forall>c. x = Jump c \<longrightarrow> c = TEST_exception_stack s \<and> c \<noteq> 0)"
  proof (cases "y = Normal")
    case True
    then have "b s1 = Inr (x, s')" using s1(2) by simp
    then show ?thesis using keepsD[OF b _ l1] k by metis
  next
    case False
    then have "y = x" "s1 = s'" using s1(2) by simp_all
    then show ?thesis using k keepsD(3,4)[OF a s1(1) l] by blast
  qed
qed







section \<open>Properties\<close>

text \<open>A try block within a try block, whose inner handler throws again.\<close>

definition nested :: block where
  "nested = try_catch (andthen (print_msg ''outer'')
     (try_finally hdr_do_a_jump (print_msg ''final''))) (print_msg ''caught'')"




text \<open>The program of the macros: it succeeds when it does not return early and nothing is thrown
  again; returning from the try block leaves the buffer of a dead frame behind and is detected;
  returning from the catch or finally block is not, and in a finally block it swallows the
  exception; an exception that reaches the end of the finally block finds no outer handler.\<close>

lemma hdr_main_outcome:
  "hdr_main use_finally [prog, j, e] =
     (if atoi j = 0 then (if atoi e = 0 then Inr 0 else Inl (Exit 1))
      else if use_finally \<and> atoi e = 0 then Inl (Exit 1) else Inr 0)"
proof -
  show ?thesis
    by (cases use_finally; cases "atoi j = 0"; cases "atoi e = 0")
      (simp_all add: hdr_main_def hdr_test_jmp_def hdr_branch_0_def hdr_branch_1_def try_finally_def
        try_catch_def hdr_do_a_jump_def siglongjmp_def print_msg_def andthen_def if_then_def end_try_def
        test_re_throw_def return_now_def leave_to_def set_stack_def say_def start_try_def Let_def)
qed

end
