(* ===== verification/Fsync_Test.thy ===== *)
theory Fsync_Test
  imports C_Prelude
begin

text \<open>
  \<open>testcases/fsync-error-clear/standalone/fsync-error-clear.c\<close>: it writes blocks and flushes each
  of them until the first I/O error, flushes again to see whether the kernel still remembers the
  error, rewinds, retries once, and on the second error writes another file and ends.

  The kernel is a parameter: a state \<open>'k\<close> of any type and one function per system call.  A call
  that fails with an \<open>errno\<close> other than EIO and ENOSPC is \<open>Other\<close>.  The program never returns
  from its loop; a run is a status for \<open>exit\<close> together with the messages it wrote.
\<close>

datatype errno = EIO | ENOSPC | Other

record 'k kernel_ops =
  op_open :: "string \<Rightarrow> 'k \<Rightarrow> bool \<times> 'k"
  op_reopen :: "string \<Rightarrow> 'k \<Rightarrow> bool \<times> 'k"
  op_lseek_cur :: "'k \<Rightarrow> int \<times> 'k"
  op_lseek_set :: "int \<Rightarrow> 'k \<Rightarrow> bool \<times> 'k"
  op_write :: "nat \<Rightarrow> 'k \<Rightarrow> (errno + int) \<times> 'k"
  op_fsync :: "'k \<Rightarrow> errno option \<times> 'k"
  op_close :: "'k \<Rightarrow> bool \<times> 'k"
  op_sync :: "'k \<Rightarrow> 'k"

datatype message =
    Usage | Unknown_option string | Note string
  | Write_error int int | Fsync_error | Close_error
  | Good_failed_again | Bad_succeeded_after_fsync_error | Ok_succeeded_after_write_error
  | Position int int | Dot | Offset int | Second_file string | Second_file_ok

text \<open>
  A piece of the program: it ends the program with a status, or goes on with a value; in both
  cases it leaves a kernel state and the messages so far.
\<close>

type_synonym ('k, 'a) piece = "'k \<times> message list \<Rightarrow> (int + 'a) \<times> 'k \<times> message list"

definition pbind :: "('k, 'a) piece \<Rightarrow> ('a \<Rightarrow> ('k, 'b) piece) \<Rightarrow> ('k, 'b) piece" where
  "pbind m f s = (case m s of (Inl e, s') \<Rightarrow> (Inl e, s') | (Inr x, s') \<Rightarrow> f x s')"

definition give :: "'a \<Rightarrow> ('k, 'a) piece" where "give x s = (Inr x, s)"
definition quit :: "int \<Rightarrow> ('k, 'a) piece" where "quit n s = (Inl n, s)"

definition tell :: "message \<Rightarrow> ('k, unit) piece" where
  "tell m = (\<lambda>(k, ms). (Inr (), k, ms @ [m]))"

definition call :: "('k \<Rightarrow> 'a \<times> 'k) \<Rightarrow> ('k, 'a) piece" where
  "call f = (\<lambda>(k, ms). (Inr (fst (f k)), snd (f k), ms))"

definition unless_ok :: "bool \<Rightarrow> ('k, unit) piece \<Rightarrow> ('k, unit) piece" where
  "unless_ok ok p = (if ok then give () else p)"

definition WRITE_BUF_SIZE :: nat where
  "WRITE_BUF_SIZE = 40960"

text \<open>Lines 57-99.\<close>

definition write_another_file :: "'k kernel_ops \<Rightarrow> string \<Rightarrow> ('k, unit) piece" where
  "write_another_file ops base_fname =
     (let fname = fst (snprintf (length base_fname + 5) (base_fname @ ''.new'')) in
      pbind (tell (Note ''Trying to write a second file to test FS'')) (\<lambda>_.
      pbind (call (op_open ops fname)) (\<lambda>opened.
      pbind (unless_ok opened (pbind (tell (Second_file fname)) (\<lambda>_. quit 1))) (\<lambda>_.
      pbind (call (op_write ops WRITE_BUF_SIZE)) (\<lambda>written.
      pbind (unless_ok (written = Inr (int WRITE_BUF_SIZE)) (quit 1)) (\<lambda>_.
      pbind (call (op_fsync ops)) (\<lambda>err.
      pbind (unless_ok (err = None) (quit 1)) (\<lambda>_.
      pbind (call (op_close ops)) (\<lambda>closed.
      pbind (unless_ok closed (quit 1)) (\<lambda>_.
        tell Second_file_ok))))))))))"

text \<open>Lines 101-144.\<close>

definition reopen_fd :: "'k kernel_ops \<Rightarrow> string \<Rightarrow> ('k, unit) piece" where
  "reopen_fd ops fname =
     pbind (call (op_lseek_cur ops)) (\<lambda>pos.
     pbind (unless_ok (pos \<noteq> -1) (quit 1)) (\<lambda>_.
     pbind (call (op_close ops)) (\<lambda>closed.
     pbind (unless_ok closed (tell Close_error)) (\<lambda>_.
     pbind (call (\<lambda>k. ((), op_sync ops k))) (\<lambda>_.
     pbind (call (op_reopen ops fname)) (\<lambda>opened.
     pbind (unless_ok opened (quit 1)) (\<lambda>_.
     pbind (call (op_lseek_set ops pos)) (\<lambda>sought.
       unless_ok sought (quit 1)))))))))"

text \<open>Lines 198-225; the value is the offset before the write and whether the write failed.\<close>

definition write_block :: "'k kernel_ops \<Rightarrow> ('k, int \<times> bool) piece" where
  "write_block ops =
     pbind (call (op_lseek_cur ops)) (\<lambda>last_offset.
     if last_offset = -1 then quit 3
     else pbind (call (op_write ops WRITE_BUF_SIZE)) (\<lambda>written.
       case written of
         Inl e \<Rightarrow>
           if e = EIO \<or> e = ENOSPC
           then pbind (call (op_lseek_cur ops)) (\<lambda>now.
                pbind (tell (Write_error last_offset now)) (\<lambda>_. give (last_offset, True)))
           else quit 1
       | Inr n \<Rightarrow> if n \<noteq> int WRITE_BUF_SIZE then quit 1 else give (last_offset, False)))"

text \<open>Lines 238-251.\<close>

definition first_fsync :: "'k kernel_ops \<Rightarrow> bool \<Rightarrow> ('k, bool) piece" where
  "first_fsync ops write_err =
     (if write_err then give False
      else pbind (call (op_fsync ops)) (\<lambda>r.
        case r of
          None \<Rightarrow> give False
        | Some e \<Rightarrow>
            if e = EIO \<or> e = ENOSPC then pbind (tell Fsync_error) (\<lambda>_. give True) else quit 1))"

text \<open>Lines 264-281: the flush after an error, and the verdict on it.\<close>

definition second_fsync :: "'k kernel_ops \<Rightarrow> bool \<Rightarrow> int \<Rightarrow> ('k, unit) piece" where
  "second_fsync ops fsync_err last_offset =
     pbind (call (op_fsync ops)) (\<lambda>r.
       if r \<noteq> None then tell Good_failed_again
       else pbind (tell (if fsync_err then Bad_succeeded_after_fsync_error
                         else Ok_succeeded_after_write_error)) (\<lambda>_.
            pbind (call (op_lseek_cur ops)) (\<lambda>now. tell (Position last_offset now))))"

text \<open>Lines 262-301; the value is the new \<open>second_try\<close>.\<close>

definition after_error ::
    "'k kernel_ops \<Rightarrow> string \<Rightarrow> bool \<Rightarrow> bool \<Rightarrow> int \<Rightarrow> ('k, bool) piece" where
  "after_error ops fname second_try fsync_err last_offset =
     pbind (second_fsync ops fsync_err last_offset) (\<lambda>_.
       if second_try
       then pbind (write_another_file ops fname) (\<lambda>_. quit 1)
       else pbind (call (op_lseek_set ops last_offset)) (\<lambda>sought.
              if \<not> sought then quit 4 else give True))"

definition print_dot :: "'k kernel_ops \<Rightarrow> nat \<Rightarrow> ('k, nat) piece" where
  "print_dot ops dots =
     pbind (tell Dot) (\<lambda>_.
       if dots + 1 = 60
       then pbind (call (op_lseek_cur ops)) (\<lambda>now. pbind (tell (Offset now)) (\<lambda>_. give 0))
       else give (dots + 1))"




section \<open>Two kernels\<close>



section \<open>Lemmas\<close>

definition is_verdict :: "message \<Rightarrow> bool" where
  "is_verdict m \<longleftrightarrow> m = Good_failed_again \<or> m = Bad_succeeded_after_fsync_error \<or>
     m = Ok_succeeded_after_write_error"

definition verdicts :: "message list \<Rightarrow> message list" where
  "verdicts ms = filter is_verdict ms"

text \<open>
  \<open>pays n m p\<close>: with a budget of \<open>n\<close> verdicts the piece never writes more, keeps \<open>m x\<close> of the
  budget when it goes on with \<open>x\<close>, and does not end the program with status 0.
\<close>

definition pays :: "nat \<Rightarrow> ('a \<Rightarrow> nat) \<Rightarrow> ('k, 'a) piece \<Rightarrow> bool" where
  "pays n m p \<longleftrightarrow> (\<forall>k ms x k' ms'. p (k, ms) = (x, k', ms') \<longrightarrow>
     (case x of
        Inl e \<Rightarrow> e \<noteq> 0 \<and> length (verdicts ms') \<le> length (verdicts ms) + n
      | Inr y \<Rightarrow> length (verdicts ms') + m y \<le> length (verdicts ms) + n))"

named_theorems pays_intros

lemma paysD:
  "pays n m p \<Longrightarrow> p (k, ms) = (Inl e, k', ms') \<Longrightarrow>
     e \<noteq> 0 \<and> length (verdicts ms') \<le> length (verdicts ms) + n"
  "pays n m p \<Longrightarrow> p (k, ms) = (Inr y, k', ms') \<Longrightarrow>
     length (verdicts ms') + m y \<le> length (verdicts ms) + n"
  unfolding pays_def by fastforce+

lemma pays_give: "m x \<le> n \<Longrightarrow> pays n m (give x)"
  by (simp add: pays_def give_def)

lemma pays_quit: "e \<noteq> 0 \<Longrightarrow> pays n m (quit e)"
  by (simp add: pays_def quit_def)

lemma pays_call [pays_intros]: "pays n (\<lambda>_. n) (call f)"
  by (simp add: pays_def call_def)

lemma pays_tell: "\<not> is_verdict msg \<Longrightarrow> pays n (\<lambda>_. n) (tell msg)"
  by (simp add: pays_def tell_def verdicts_def)

lemma pays_verdict: "pays (Suc n) (\<lambda>_. n) (tell msg)"
  by (simp add: pays_def tell_def verdicts_def)

lemma pays_pbind [pays_intros]:
  assumes "pays n m p" and "\<And>x. pays (m x) m' (f x)"
  shows "pays n m' (pbind p f)"
  unfolding pays_def
proof (intro allI impI)
  fix k ms x k' ms'
  assume r: "pbind p f (k, ms) = (x, k', ms')"
  obtain y k1 ms1 where p: "p (k, ms) = (y, k1, ms1)" by (metis prod_cases3)
  show "case x of Inl e \<Rightarrow> e \<noteq> 0 \<and> length (verdicts ms') \<le> length (verdicts ms) + n
      | Inr z \<Rightarrow> length (verdicts ms') + m' z \<le> length (verdicts ms) + n"
  proof (cases y)
    case (Inl e)
    then show ?thesis using r p paysD(1)[OF assms(1), of k ms e k1 ms1]
      by (auto simp: pbind_def)
  next
    case (Inr z)
    then have f: "f z (k1, ms1) = (x, k', ms')" using r p by (simp add: pbind_def)
    have "length (verdicts ms1) + m z \<le> length (verdicts ms) + n"
      using paysD(2)[OF assms(1), of k ms z k1 ms1] p Inr by simp
    then show ?thesis
      using paysD[OF assms(2)[of z], of k1 ms1] f by (cases x) fastforce+
  qed
qed

lemma pays_if [pays_intros]: "pays n m p \<Longrightarrow> pays n m q \<Longrightarrow> pays n m (if c then p else q)"
  by simp

lemma pays_unless: "pays n (\<lambda>_. n) p \<Longrightarrow> pays n (\<lambda>_. n) (unless_ok c p)"
  by (simp add: unless_ok_def pays_give)

lemma pays_split [pays_intros]:
  "(\<And>a b. pays n m (f a b)) \<Longrightarrow> pays n m (case p of (a, b) \<Rightarrow> f a b)"
  by (cases p) simp

lemma pays_case_sum [pays_intros]:
  "(\<And>a. pays n m (f a)) \<Longrightarrow> (\<And>b. pays n m (g b)) \<Longrightarrow>
     pays n m (case x of Inl a \<Rightarrow> f a | Inr b \<Rightarrow> g b)"
  by (cases x) simp_all

lemma pays_case_option [pays_intros]:
  "pays n m p \<Longrightarrow> (\<And>a. pays n m (f a)) \<Longrightarrow>
     pays n m (case x of None \<Rightarrow> p | Some a \<Rightarrow> f a)"
  by (cases x) simp_all

lemmas pays_all = pays_intros pays_give pays_quit pays_tell pays_unless

lemma pays_write_another_file [pays_intros]: "pays n (\<lambda>_. n) (write_another_file ops f)"
  unfolding write_another_file_def Let_def by (rule pays_intros pays_all | simp add: is_verdict_def)+

lemma pays_reopen_fd [pays_intros]: "pays n (\<lambda>_. n) (reopen_fd ops f)"
  unfolding reopen_fd_def by (rule pays_intros pays_all | simp add: is_verdict_def)+

lemma pays_write_block [pays_intros]: "pays n (\<lambda>_. n) (write_block ops)"
  unfolding write_block_def by (rule pays_intros pays_all | simp add: is_verdict_def)+

lemma pays_first_fsync [pays_intros]: "pays n (\<lambda>_. n) (first_fsync ops w)"
  unfolding first_fsync_def by (rule pays_intros pays_all | simp add: is_verdict_def)+

lemma pays_print_dot [pays_intros]: "pays n (\<lambda>_. n) (print_dot ops d)"
  unfolding print_dot_def by (rule pays_intros pays_all | simp add: is_verdict_def)+

lemma pays_second_fsync [pays_intros]: "pays (Suc n) (\<lambda>_. n) (second_fsync ops f off)"
  unfolding second_fsync_def
  by (rule pays_pbind, rule pays_call, rule pays_if, rule pays_verdict, rule pays_pbind,
      rule pays_verdict, (rule pays_intros pays_all | simp add: is_verdict_def)+)

text \<open>What is left of the budget of two verdicts.\<close>

definition tries_left :: "bool \<Rightarrow> nat" where
  "tries_left second_try = (if second_try then 1 else 2)"

lemma pays_after_error [pays_intros]:
  "pays (tries_left st) tries_left (after_error ops f st e off)"
proof -
  have "pays (Suc 1) tries_left (after_error ops f False e off)"
    unfolding after_error_def if_False
    by (rule pays_pbind, rule pays_second_fsync, (rule pays_intros pays_all | simp add: tries_left_def)+)
  moreover have "pays (Suc 0) tries_left (after_error ops f True e off)"
    unfolding after_error_def if_True
    by (rule pays_pbind, rule pays_second_fsync, (rule pays_intros pays_all | simp add: tries_left_def)+)
  ultimately show ?thesis by (cases st) (simp_all add: tries_left_def numeral_2_eq_2)
qed



section \<open>Runs on the two kernels\<close>








section \<open>Properties\<close>




end
