(* ===== verification/Generic_Typename.thy ===== *)
theory Generic_Typename
  imports C_Prelude
begin

text \<open>
  \<open>c/c11_generic_typename/c11_generic_typename.c\<close>: the type names that \<open>TYPENAME\<close> selects, the
  declaration macros that evaluate a list of arguments and collect their type names, and the two
  functions that use the names, \<open>compare_argtypes\<close> and \<open>format_args\<close>.

  An argument expression is a function on the program's state; a C value is tagged with what the
  calling convention passes.  A null-terminated array of names is a list.
\<close>

section \<open>Types and values\<close>

datatype ctype =
    Int_type | Unsigned_int | Long | Unsigned_long | Char | Signed_char | Unsigned_char
  | Char_ptr | Signed_char_ptr | Unsigned_char_ptr
  | Const_char_ptr | Const_signed_char_ptr | Const_unsigned_char_ptr
  | Void_ptr | Const_void_ptr | Unlisted string

datatype cvalue = Int_val "32 word" | Long_val "64 word" | Str_val string | Ptr_val "64 word"

record argument =
  arg_type :: ctype
  arg_value :: cvalue

text \<open>
  \<open>_Generic\<close> ignores the qualifiers of the value itself.  The text of an unlisted expression is
  in its message.
\<close>

fun TYPENAME :: "ctype \<Rightarrow> string" where
  "TYPENAME Int_type = ''int''"
| "TYPENAME Unsigned_int = ''unsigned int''"
| "TYPENAME Long = ''long''"
| "TYPENAME Unsigned_long = ''unsigned long''"
| "TYPENAME Char = ''char''"
| "TYPENAME Signed_char = ''signed char''"
| "TYPENAME Unsigned_char = ''unsigned char''"
| "TYPENAME Char_ptr = ''const char *''"
| "TYPENAME Signed_char_ptr = ''const signed char *''"
| "TYPENAME Unsigned_char_ptr = ''const unsigned char *''"
| "TYPENAME Const_char_ptr = ''const char *''"
| "TYPENAME Const_signed_char_ptr = ''const signed char *''"
| "TYPENAME Const_unsigned_char_ptr = ''const unsigned char *''"
| "TYPENAME Void_ptr = ''void *''"
| "TYPENAME Const_void_ptr = ''void *''"
| "TYPENAME (Unlisted e) = ''TYPENAME('' @ e @ ''): ERROR unhandled type''"

definition typename_or_empty :: "bool \<Rightarrow> ctype \<Rightarrow> string" where
  "typename_or_empty have_typename t = (if have_typename then TYPENAME t else [])"

text \<open>The table of lines 46-61, which nothing in the program uses.\<close>

definition typeformats :: "(string \<times> string) list" where
  "typeformats =
     [(''int'', ''%d''), (''unsigned int'', ''%u''), (''long'', ''%ld''), (''unsigned long'', ''%lu''),
      (''char'', ''%c''), (''signed char'', ''%c''), (''unsigned char'', ''%c''), (''char *'', ''%s''),
      (''const signed char'', ''%c''), (''const unsigned char'', ''%c''), (''const char *'', ''%s''),
      (''signed const char *'', ''%s''), (''unsigned const char *'', ''%s''), (''const void *'', ''%p'')]"

section \<open>The declaration macros\<close>

text \<open>
  \<open>TYPED_ARGn(x, ...)\<close> first declares the arguments after \<open>x\<close>, as \<open>arg1\<close> to \<open>arg(n-1)\<close>,
  and then \<open>x\<close> as \<open>argn\<close>; \<open>ARGNAMESn\<close> and \<open>ARGTYPEVARSn\<close> list them from \<open>n\<close> down.
  So the expressions are evaluated from the last to the first, and passed in their own order.
\<close>

fun declare_args :: "('s \<Rightarrow> argument \<times> 's) list \<Rightarrow> 's \<Rightarrow> argument list \<times> 's" where
  "declare_args [] s = ([], s)"
| "declare_args (x # xs) s =
     (let (rest, s1) = declare_args xs s; (v, s2) = x s1 in (v # rest, s2))"

definition arg_types :: "bool \<Rightarrow> argument list \<Rightarrow> string list" where
  "arg_types have_typename as = map (\<lambda>a. typename_or_empty have_typename (arg_type a)) as"

section \<open>compare_argtypes\<close>

text \<open>
  The loop of lines 227-250; both names are there in its body, so the branch for an end-marker
  mismatch is never taken.  The number of arguments only leads to a message.  The value is what
  was written and the number of errors.
\<close>

fun compare_loop :: "nat \<Rightarrow> nat \<Rightarrow> string list \<Rightarrow> string list \<Rightarrow> string list \<times> nat" where
  "compare_loop i nargs (et # ets) (dt # dts) =
     (let (out, errs) = compare_loop (Suc i) nargs ets dts
      in ((if nargs \<le> i then [''ERROR: wrong arg count''] else []) @
          (if dt \<noteq> et then [''ERROR: differ: '' @ dt @ '' vs '' @ et] else [dt]) @ out,
          (if dt \<noteq> et then 1 else 0) + errs))"
| "compare_loop i nargs ets dts = ([], 0)"

definition compare_argtypes :: "string list \<Rightarrow> string list \<Rightarrow> nat \<Rightarrow> string list res" where
  "compare_argtypes explicit_types detected_types nargs =
     (let (out, errs) = compare_loop 0 nargs explicit_types detected_types
      in if errs \<noteq> 0 then Inl (Exit 1) else Inr (''detected typenames:'' # out))"

section \<open>format_args\<close>

definition format_piece :: "string \<Rightarrow> string option" where
  "format_piece typename =
     (if typename = [] then Some ''?''
      else if typename = ''int'' then Some ''%d''
      else if typename = ''char *'' \<or> typename = ''const char *'' then Some ''%s''
      else if typename = ''void *'' then Some ''%p''
      else None)"

text \<open>
  The buffer has 200 bytes; every \<open>strcpy\<close> writes a terminator behind its text, and a write
  past the buffer is undefined.
\<close>

definition append_str :: "string \<Rightarrow> string \<Rightarrow> string res" where
  "append_str buf s = check (length buf + length s + 1 \<le> 200) Undefined (Inr (buf @ s))"

fun format_loop :: "nat \<Rightarrow> nat \<Rightarrow> string \<Rightarrow> string list \<Rightarrow> string res" where
  "format_loop argno nargs buf [] = check (argno = nargs) AssertFail (append_str buf [NL])"
| "format_loop argno nargs buf (typename # types) =
     rbind (if 0 < argno then append_str buf '', '' else Inr buf) (\<lambda>buf1.
       case format_piece typename of
         None \<Rightarrow> Inl (Exit 1)
       | Some p \<Rightarrow>
           rbind (append_str buf1 p) (\<lambda>buf2.
             check (argno \<le> nargs) AssertFail (format_loop (Suc argno) nargs buf2 types)))"

text \<open>\<open>vprintf\<close> on the three conversions; one that does not fit its argument is undefined.\<close>

definition show_value :: "cvalue \<Rightarrow> string" where
  "show_value v = (case v of
     Int_val w \<Rightarrow> show_int (sint w)
   | Long_val w \<Rightarrow> show_int (sint w)
   | Str_val s \<Rightarrow> s
   | Ptr_val w \<Rightarrow> ''0x'' @ show_base 16 (unat w))"

definition convert :: "char \<Rightarrow> cvalue \<Rightarrow> string res" where
  "convert c v =
     (if (case v of
            Int_val _ \<Rightarrow> c = CHR ''d''
          | Str_val _ \<Rightarrow> c = CHR ''s''
          | Ptr_val _ \<Rightarrow> c = CHR ''p''
          | Long_val _ \<Rightarrow> False)
      then Inr (show_value v) else Inl Undefined)"

fun vprintf :: "string \<Rightarrow> cvalue list \<Rightarrow> string res" where
  "vprintf [] vs = Inr []"
| "vprintf (c # f) vs =
     (if c \<noteq> CHR ''%'' then rbind (vprintf f vs) (\<lambda>out. Inr (c # out))
      else case f of
          [] \<Rightarrow> Inl Undefined
        | k # f' \<Rightarrow>
            (case vs of
               [] \<Rightarrow> Inl Undefined
             | v # vs' \<Rightarrow>
                 rbind (convert k v) (\<lambda>t. rbind (vprintf f' vs') (\<lambda>out. Inr (t @ out)))))"

definition format_args :: "string list \<Rightarrow> nat \<Rightarrow> cvalue list \<Rightarrow> string res" where
  "format_args types nargs vs = rbind (format_loop 0 nargs [] types) (\<lambda>f. vprintf f vs)"

section \<open>The calls\<close>

text \<open>\<open>WRAPCALL4(format_args, ...)\<close> and \<open>WRAPCALL4_TYPES(format_args, types, ...)\<close>, for any number of
  arguments.\<close>

definition wrapcall_format ::
    "bool \<Rightarrow> ('s \<Rightarrow> argument \<times> 's) list \<Rightarrow> 's \<Rightarrow> (string \<times> 's) res" where
  "wrapcall_format have_typename xs s =
     (let (as, s1) = declare_args xs s in
      rbind (format_args (arg_types have_typename as) (length xs) (map arg_value as))
        (\<lambda>out. Inr (out, s1)))"

definition wrapcall_format_types ::
    "string list \<Rightarrow> ('s \<Rightarrow> argument \<times> 's) list \<Rightarrow> 's \<Rightarrow> (string \<times> 's) res" where
  "wrapcall_format_types types xs s =
     (let (as, s1) = declare_args xs s in
      rbind (format_args types (length xs) (map arg_value as)) (\<lambda>out. Inr (out, s1)))"

definition check_argtypes ::
    "bool \<Rightarrow> string list \<Rightarrow> ('s \<Rightarrow> argument \<times> 's) list \<Rightarrow> 's \<Rightarrow> (string list \<times> 's) res" where
  "check_argtypes have_typename expected xs s =
     (if have_typename
      then let (as, s1) = declare_args xs s in
           rbind (compare_argtypes expected (arg_types True as) (length xs)) (\<lambda>out. Inr (out, s1))
      else Inr ([], s))"

definition main_args :: "(unit \<Rightarrow> argument \<times> unit) list" where
  "main_args = map Pair
     [\<lparr>arg_type = Int_type, arg_value = Int_val 10\<rparr>,
      \<lparr>arg_type = Const_char_ptr, arg_value = Str_val ''foo''\<rparr>,
      \<lparr>arg_type = Int_type, arg_value = Int_val 9\<rparr>,
      \<lparr>arg_type = Void_ptr, arg_value = Ptr_val 0xDEADBEEF\<rparr>]"

definition expected_argtypes :: "string list" where
  "expected_argtypes = [''int'', ''const char *'', ''int'', ''void *'']"

definition generic_main :: "bool \<Rightarrow> string res" where
  "generic_main have_typename =
     rbind (check_argtypes have_typename expected_argtypes main_args ()) (\<lambda>_.
     rbind (wrapcall_format have_typename main_args ()) (\<lambda>(a, _).
     rbind (wrapcall_format_types expected_argtypes main_args ()) (\<lambda>(b, _).
       Inr (a @ b))))"

section \<open>Lemmas\<close>










text \<open>The arguments are evaluated from the last to the first.\<close>

lemma declare_args_append:
  "declare_args (xs @ ys) s =
     (let (b, s1) = declare_args ys s; (a, s2) = declare_args xs s1 in (a @ b, s2))"
  by (induction xs) (simp_all add: Let_def case_prod_beta)

lemma compare_loop_errors:
  "snd (compare_loop i nargs ets dts) = 0 \<longleftrightarrow>
     (\<forall>j < min (length ets) (length dts). ets ! j = dts ! j)"
proof (induction i nargs ets dts rule: compare_loop.induct)
  case (1 i nargs et ets dt dts)
  then show ?case by (auto simp: Let_def case_prod_beta All_less_Suc2 min_def)
qed simp_all

lemma compare_argtypes_iff:
  "(\<exists>out. compare_argtypes ets dts nargs = Inr out) \<longleftrightarrow>
     (\<forall>j < min (length ets) (length dts). ets ! j = dts ! j)"
  using compare_loop_errors[of 0 nargs ets dts]
  by (fastforce simp: compare_argtypes_def Let_def case_prod_beta)


text \<open>Where the table and \<open>format_args\<close> both know a name they agree.\<close>

lemma typeformats_agree:
  "map_of typeformats n = Some f \<Longrightarrow> format_piece n = Some p \<Longrightarrow> n \<noteq> [] \<Longrightarrow> p = f"
  by (auto simp: typeformats_def format_piece_def split: if_splits)

section \<open>Types\<close>







section \<open>Properties\<close>



end
