(* ===== verification/Pg_Functions.thy ===== *)
theory Pg_Functions
  imports C_Prelude
begin

text \<open>
  The server functions under \<open>postgresql/\<close>: the bracket rewriting \<open>replc\<close>
  (\<open>string_transform\<close>), \<open>random_bytea\<close>, the two conversions of \<open>uuid_bytea\<close>,
  \<open>int4_array_add\<close> (\<open>array_sum\<close>), \<open>array_idx\<close>, \<open>hex2dec\<close> and \<open>makedate\<close>.

  The server is a parameter where a function depends on it: the random numbers, whether an
  allocation is granted, how a stored integer becomes a \<open>Datum\<close>, the Julian day of a date.
  \<open>ereport(ERROR)\<close> does not return: it is \<open>Inl\<close> of the error, and undefined
  behaviour is the error \<open>Stopped Undefined\<close>.
\<close>

unbundle bit_operations_syntax

datatype pg_error =
    Null_arrays | Not_one_dimensional | Different_lengths | Contains_nulls
  | Length_mismatch nat | Not_hex string | Hex_overflow string | Alloc_refused
  | Stopped stop

section \<open>replc\<close>

text \<open>
  The loop over the characters; its state is the depth, its value the rewritten text.  The depth
  is a C \<open>int\<close>, and a text has fewer than \<open>2 ^ 30\<close> characters, so it does not wrap.
\<close>

fun replc_loop :: "int \<Rightarrow> string \<Rightarrow> string \<times> int" where
  "replc_loop depth [] = ([], depth)"
| "replc_loop depth (c # s) =
     (if c = CHR ''['' then
        let depth' = depth + 1; (t, d) = replc_loop depth' s
        in ((if depth' \<le> 2 then CHR ''{'' else c) # t, d)
      else if c = CHR '']'' then
        let (t, d) = replc_loop (depth - 1) s
        in ((if depth \<le> 2 then CHR ''}'' else c) # t, d)
      else let (t, d) = replc_loop depth s in (c # t, d))"

text \<open>The second component is the number of extra brackets in the warning, when there is one.\<close>

definition replc :: "string \<Rightarrow> string \<times> int option" where
  "replc s = (let (t, depth) = replc_loop 0 s in (t, if depth \<noteq> 0 then Some depth else None))"

definition bracket_depth :: "string \<Rightarrow> int" where
  "bracket_depth s = int (count_list s CHR ''['') - int (count_list s CHR '']'')"

definition replc_char :: "int \<Rightarrow> char \<Rightarrow> char" where
  "replc_char depth c =
     (if c = CHR ''['' \<and> depth + 1 \<le> 2 then CHR ''{''
      else if c = CHR '']'' \<and> depth \<le> 2 then CHR ''}'' else c)"

lemma bracket_depth_simps [simp]:
  "bracket_depth [] = 0"
  "bracket_depth (c # s) = (if c = CHR ''['' then 1 else if c = CHR '']'' then -1 else 0) +
     bracket_depth s"
  by (simp_all add: bracket_depth_def)

lemma replc_loop_depth: "snd (replc_loop d s) = d + bracket_depth s"
  by (induction s arbitrary: d) (auto simp: Let_def case_prod_beta)

lemma replc_loop_length [simp]: "length (fst (replc_loop d s)) = length s"
  by (induction s arbitrary: d) (auto simp: Let_def case_prod_beta)

lemma replc_loop_nth:
  "i < length s \<Longrightarrow>
     fst (replc_loop d s) ! i = replc_char (d + bracket_depth (take i s)) (s ! i)"
proof (induction s arbitrary: d i)
  case (Cons c s)
  show ?case
  proof (cases i)
    case 0
    then show ?thesis by (simp add: Let_def case_prod_beta replc_char_def)
  next
    case (Suc j)
    then have j: "j < length s" using Cons.prems by simp
    show ?thesis
      using Suc Cons.IH[OF j, of "d + 1"] Cons.IH[OF j, of "d - 1"] Cons.IH[OF j, of d]
      by (simp add: Let_def case_prod_beta algebra_simps)
  qed
qed simp

section \<open>random_bytea\<close>

text \<open>\<open>RAND_MAX\<close> of the GNU C library.\<close>

definition RAND_MAX :: int where
  "RAND_MAX = 2147483647"

text \<open>
  The loop of lines 38-47; \<open>k\<close> is the number of calls of \<open>random()\<close> so far, whose \<open>k\<close>-th
  result is \<open>rnd k\<close>.
\<close>

fun random_bytea_loop :: "nat \<Rightarrow> (nat \<Rightarrow> int) \<Rightarrow> nat \<Rightarrow> int \<Rightarrow> int \<Rightarrow> 8 word list" where
  "random_bytea_loop 0 rnd k lastrand remaining = []"
| "random_bytea_loop (Suc numbytes) rnd k lastrand remaining =
     (let remaining1 = drop_bit 8 remaining; lastrand1 = drop_bit 8 lastrand in
      if remaining1 < 256
      then word_of_int (rnd k) # random_bytea_loop numbytes rnd (k + 1) (rnd k) RAND_MAX
      else word_of_int lastrand1 # random_bytea_loop numbytes rnd k lastrand1 remaining1)"

text \<open>
  \<open>palloc\<close> gets \<open>VARHDRSZ + numbytes\<close>; when it grants fewer than the four bytes of the header,
  \<open>SET_VARSIZE\<close> writes outside the allocation.  \<open>junk\<close> is the uninitialised \<open>lastrand\<close>.
\<close>

definition random_bytea ::
    "(int \<Rightarrow> bool) \<Rightarrow> (nat \<Rightarrow> int) \<Rightarrow> int \<Rightarrow> 32 word \<Rightarrow> pg_error + 8 word list" where
  "random_bytea granted rnd junk numbytes =
     (let sz = 4 + sint numbytes in
      if 2147483647 < sz then Inl (Stopped Undefined)
      else if \<not> granted sz then Inl Alloc_refused
      else if sz < 4 then Inl (Stopped Undefined)
      else Inr (random_bytea_loop (nat (sint numbytes)) rnd 0 junk 0))"

definition random_byte :: "(nat \<Rightarrow> int) \<Rightarrow> nat \<Rightarrow> nat \<Rightarrow> 8 word" where
  "random_byte rnd k i = word_of_int (drop_bit (8 * (i mod 3)) (rnd (k + i div 3)))"

lemma random_byte_shift: "random_byte rnd k (Suc (Suc (Suc i))) = random_byte rnd (Suc k) i"
proof -
  have "Suc (Suc (Suc i)) = i + 3" by simp
  then have "Suc (Suc (Suc i)) mod 3 = i mod 3" "Suc (Suc (Suc i)) div 3 = Suc (i div 3)"
    by (simp_all only: mod_add_self2 div_add_self2)
  then show ?thesis by (simp add: random_byte_def)
qed

lemma RAND_MAX_steps:
  "drop_bit 8 RAND_MAX = 8388607" "drop_bit 8 (8388607 :: int) = 32767"
  "drop_bit 8 (32767 :: int) = 127"
  unfolding RAND_MAX_def drop_bit_eq_div by simp_all

lemma random_bytea_loop_fresh:
  "drop_bit 8 remaining < 256 \<Longrightarrow>
     random_bytea_loop n rnd k lastrand remaining = map (random_byte rnd k) [0..<n]"
proof (induction n arbitrary: k lastrand remaining rule: less_induct)
  case (less n)
  have m: "map (random_byte rnd k) [0..<Suc (Suc (Suc j))] =
      [random_byte rnd k 0, random_byte rnd k 1, random_byte rnd k 2] @
      map (random_byte rnd (Suc k)) [0..<j]" for j
    by (simp add: upt_conv_Cons map_Suc_upt[symmetric] comp_def random_byte_shift
        numeral_2_eq_2 del: upt_Suc)
  have bytes: "random_byte rnd k 0 = word_of_int (rnd k)"
      "random_byte rnd k 1 = word_of_int (drop_bit 8 (rnd k))"
      "random_byte rnd k 2 = word_of_int (drop_bit 8 (drop_bit 8 (rnd k)))"
    by (simp_all add: random_byte_def)
  consider "n = 0" | "n = 1" | "n = 2" | j where "n = Suc (Suc (Suc j))"
    by (metis One_nat_def not0_implies_Suc numeral_2_eq_2)
  then show ?case
  proof cases
    case 4
    then have "random_bytea_loop j rnd (Suc k) (drop_bit 8 (drop_bit 8 (rnd k))) 32767 =
        map (random_byte rnd (Suc k)) [0..<j]"
      using less.IH[of j 32767] RAND_MAX_steps(3) by simp
    then show ?thesis
      using 4 less.prems m[of j] bytes
      by (simp add: Let_def RAND_MAX_steps del: upt_Suc)
  qed (use less.prems bytes in \<open>simp_all add: Let_def numeral_2_eq_2 RAND_MAX_steps\<close>)
qed

section \<open>uuid_bytea\<close>

definition UUID_LEN :: nat where
  "UUID_LEN = 16"

definition bytea_to_uuid :: "8 word list \<Rightarrow> pg_error + 8 word list" where
  "bytea_to_uuid inbytea =
     (if length inbytea \<noteq> 16 then Inl (Length_mismatch (length inbytea))
      else Inr (take 16 inbytea))"

definition uuid_to_bytea :: "8 word list \<Rightarrow> 8 word list" where
  "uuid_to_bytea uuid = take UUID_LEN uuid"

lemma uuid_roundtrip: "length u = 16 \<Longrightarrow> bytea_to_uuid (uuid_to_bytea u) = Inr u"
  by (simp add: bytea_to_uuid_def uuid_to_bytea_def UUID_LEN_def)

lemma bytea_roundtrip: "bytea_to_uuid b = Inr u \<Longrightarrow> uuid_to_bytea u = b"
  by (auto simp: bytea_to_uuid_def uuid_to_bytea_def UUID_LEN_def split: if_splits)

section \<open>Arrays\<close>

text \<open>
  An array of 4-byte integers as the server stores it; None is a null element.  A \<open>Datum\<close> has 64
  bits; \<open>widen\<close> is what the server puts into the upper half when it reads an element, and storing
  a \<open>Datum\<close> keeps the lower half.
\<close>

record int4_array =
  ndim :: nat
  dims :: "nat list"
  elems :: "32 word option list"

definition deconstruct :: "(32 word \<Rightarrow> 64 word) \<Rightarrow> int4_array \<Rightarrow> 64 word list" where
  "deconstruct widen a = map (\<lambda>x. case x of None \<Rightarrow> 0 | Some w \<Rightarrow> widen w) (elems a)"

definition construct_array :: "64 word list \<Rightarrow> int4_array" where
  "construct_array ds = \<lparr>ndim = 1, dims = [length ds], elems = map (\<lambda>d. Some (ucast d)) ds\<rparr>"

definition has_null :: "int4_array \<Rightarrow> bool" where
  "has_null a \<longleftrightarrow> None \<in> set (elems a)"

definition int4_array_add ::
    "(32 word \<Rightarrow> 64 word) \<Rightarrow> int4_array option \<Rightarrow> int4_array option \<Rightarrow> pg_error + int4_array" where
  "int4_array_add widen arg0 arg1 =
     (case (arg0, arg1) of
        (Some a, Some b) \<Rightarrow>
          if ndim a \<noteq> 1 \<or> ndim b \<noteq> 1 then Inl Not_one_dimensional
          else if dims a ! 0 \<noteq> dims b ! 0 then Inl Different_lengths
          else if has_null a \<or> has_null b then Inl Contains_nulls
          else Inr (construct_array (map2 (+) (deconstruct widen a) (deconstruct widen b)))
      | _ \<Rightarrow> Inl Null_arrays)"

lemma ucast_add_low: "(ucast ((a :: 64 word) + b) :: 32 word) = ucast a + ucast b"
proof (transfer, goal_cases)
  case (1 a b)
  have "take_bit 32 (take_bit 64 a + take_bit 64 b) =
     take_bit 32 (take_bit 32 (take_bit 64 a) + take_bit 32 (take_bit 64 b))"
    by (simp only: take_bit_add)
  also have "\<dots> = take_bit 32 (a + b)" by (simp add: take_bit_add)
  finally show ?case by simp
qed

text \<open>
  \<open>array_idx\<close>: the search loop returns on its first turn without comparing.  \<open>None\<close> is SQL's
  NULL.
\<close>

definition array_idx :: "'d \<Rightarrow> nat \<Rightarrow> 'd option list \<Rightarrow> pg_error + int option" where
  "array_idx findelem nd es =
     (if nd = 0 then Inr None
      else if nd \<noteq> 1 then Inl Not_one_dimensional
      else (case es of e # _ \<Rightarrow> Inr (Some 1) | [] \<Rightarrow> Inr (Some (-1))))"

text \<open>What its comment promises: the first index, NULL when nulls hide it, -1 otherwise.\<close>

definition array_idx_spec :: "'d \<Rightarrow> 'd option list \<Rightarrow> int option" where
  "array_idx_spec x es =
     (if Some x \<in> set es then Some (1 + int (length (takeWhile (\<lambda>e. e \<noteq> Some x) es)))
      else if None \<in> set es then None else Some (-1))"

lemma array_idx_wrong:
  "array_idx (5 :: int) 1 [Some 7, Some 5] = Inr (Some 1)"
  "array_idx_spec (5 :: int) [Some 7, Some 5] = Some 2"
  by (simp_all add: array_idx_def array_idx_spec_def)

section \<open>hex2dec and makedate\<close>


definition makedate :: "(32 word \<Rightarrow> 32 word \<Rightarrow> 32 word \<Rightarrow> 32 word) \<Rightarrow>
    32 word \<Rightarrow> 32 word \<Rightarrow> 32 word \<Rightarrow> 32 word" where
  "makedate date2j yy mm dd = date2j yy mm dd - 2451545"

section \<open>Properties\<close>

text \<open>C29: \<open>replc\<close> rewrites exactly the square brackets of the outer two levels into braces: the
  result has the same length, each character depends only on itself and the bracket depth before
  it, and the warning gives the surplus of opening brackets exactly when the counts differ.\<close>

theorem replc_rewrites_outer_levels:
  "(let (t, warning) = replc s in
     length t = length s \<and>
     (\<forall>i < length s. t ! i = replc_char (bracket_depth (take i s)) (s ! i)) \<and>
     warning = (if bracket_depth s = 0 then None else Some (bracket_depth s)))"
  using replc_loop_nth[of _ s 0] replc_loop_depth[of 0 s] replc_loop_length[of 0 s]
  by (simp add: replc_def Let_def case_prod_beta)

theorem replc_rewrites_outer_levels_witness:
  "replc ''[[a,[b]],c]]'' = (''{{a,[b]},c}}'', Some (-1)) \<and>
   snd (replc ''[[a,[b]],c]]'') = Some (-1)"
proof -
  have "snd (replc ''[[a,[b]],c]]'') = Some (-1)"
    using replc_rewrites_outer_levels[of "''[[a,[b]],c]]''"] by (simp add: Let_def case_prod_beta)
  then show ?thesis by (simp add: replc_def Let_def)
qed

text \<open>C30: \<open>random_bytea\<close> returns exactly the requested number of bytes, and takes three of them from
  each call of \<open>random()\<close>: byte \<open>i\<close> is bits \<open>8 * (i mod 3)\<close> and up of call \<open>i div 3\<close>, whatever
  was in the uninitialised variable.\<close>

theorem random_bytea_bytes:
  assumes "0 \<le> sint numbytes" and "4 + sint numbytes \<le> 2147483647"
    and "granted (4 + sint numbytes)"
  shows "random_bytea granted rnd junk numbytes =
     Inr (map (\<lambda>i. word_of_int (drop_bit (8 * (i mod 3)) (rnd (i div 3))))
            [0..<nat (sint numbytes)])"
proof -
  have "random_bytea_loop n rnd 0 junk 0 = map (random_byte rnd 0) [0..<n]" for n
    by (rule random_bytea_loop_fresh) simp
  moreover have "random_byte rnd 0 = (\<lambda>i. word_of_int (drop_bit (8 * (i mod 3)) (rnd (i div 3))))"
    by (simp add: random_byte_def fun_eq_iff)
  ultimately show ?thesis using assms by (simp add: random_bytea_def Let_def)
qed

theorem random_bytea_bytes_witness:
  "random_bytea (\<lambda>_. True) (\<lambda>k. 0x010203 + 0x101010 * int k) 99 4 = Inr [0x03, 0x02, 0x01, 0x13]"
  using random_bytea_bytes[of 4 "\<lambda>_. True" "\<lambda>k. 0x010203 + 0x101010 * int k" 99]
  by (simp add: upt_conv_Cons drop_bit_eq_div)



text \<open>\<open>int4_array_add\<close> adds element by element with 32-bit wrap-around, whatever the server puts
  into the upper half of a \<open>Datum\<close>, when both arrays are one-dimensional, of the same length and
  without nulls; every other pair of arguments is refused.\<close>

lemma int4_array_add_elementwise:
  assumes "\<And>w. ucast (widen w) = w"
  shows "int4_array_add widen (Some \<lparr>ndim = 1, dims = [length xs], elems = map Some xs\<rparr>)
           (Some \<lparr>ndim = 1, dims = [length ys], elems = map Some ys\<rparr>) =
     (if length xs = length ys
      then Inr \<lparr>ndim = 1, dims = [length xs], elems = map Some (map2 (+) xs ys)\<rparr>
      else Inl Different_lengths) \<and>
   (\<forall>a b r. int4_array_add widen a b = Inr r \<longrightarrow>
      (\<exists>x y. a = Some x \<and> b = Some y \<and> ndim x = 1 \<and> ndim y = 1 \<and> dims x ! 0 = dims y ! 0 \<and>
         None \<notin> set (elems x) \<and> None \<notin> set (elems y)))"
proof (intro conjI allI impI)
  have "ucast (widen v + widen w) = v + w" for v w
    by (simp add: ucast_add_low assms)
  then show "int4_array_add widen (Some \<lparr>ndim = 1, dims = [length xs], elems = map Some xs\<rparr>)
           (Some \<lparr>ndim = 1, dims = [length ys], elems = map Some ys\<rparr>) =
     (if length xs = length ys
      then Inr \<lparr>ndim = 1, dims = [length xs], elems = map Some (map2 (+) xs ys)\<rparr>
      else Inl Different_lengths)"
    by (auto simp: int4_array_add_def has_null_def construct_array_def deconstruct_def
        zip_map1 zip_map2 comp_def case_prod_beta)
qed (auto simp: int4_array_add_def has_null_def split: option.splits if_splits)

end
