(* ===== verification/Pg_Server.thy ===== *)
theory Pg_Server
  imports C_Prelude
begin

text \<open>
  The server modules that report through \<open>ereport\<close>: \<open>postgresql/ereport_skip\<close>, the
  \<open>ProcessUtility\<close> hook in its two versions (\<open>postgresql/example_processutility_hook\<close>, for
  PostgreSQL 9.2 and 9.3) and the test module \<open>parallel_unsafe\<close>.

  The server is a parameter: whether a report of some level is wanted (\<open>errstart\<close>), what the
  transaction manager answers, what the other hooks do.  Levels are ordered as the server orders
  them; a report of level \<open>ERROR\<close> or above does not return.
\<close>

datatype elevel =
  DEBUG5 | DEBUG4 | DEBUG3 | DEBUG2 | DEBUG1 | LOG | COMMERROR | INFO | NOTICE | WARNING
  | ERROR | FATAL | PANIC

fun severity :: "elevel \<Rightarrow> nat" where
  "severity DEBUG5 = 10" | "severity DEBUG4 = 11" | "severity DEBUG3 = 12"
| "severity DEBUG2 = 13" | "severity DEBUG1 = 14" | "severity LOG = 15"
| "severity COMMERROR = 16" | "severity INFO = 17" | "severity NOTICE = 18"
| "severity WARNING = 19" | "severity ERROR = 20" | "severity FATAL = 21" | "severity PANIC = 22"

lemma severity_inj: "severity x = severity y \<longleftrightarrow> x = y"
  by (cases x; cases y) simp_all

instantiation elevel :: linorder
begin

definition less_eq_elevel :: "elevel \<Rightarrow> elevel \<Rightarrow> bool" where
  "less_eq_elevel x y \<longleftrightarrow> severity x \<le> severity y"

definition less_elevel :: "elevel \<Rightarrow> elevel \<Rightarrow> bool" where
  "less_elevel x y \<longleftrightarrow> severity x < severity y"

instance
  by standard (auto simp: less_eq_elevel_def less_elevel_def severity_inj)

end

section \<open>ereport\<close>

text \<open>
  What a call leaves behind: its value and the new state, or the level of the error that ended it.
  The arguments of \<open>ereport\<close> are an expression, evaluated only when the report is wanted; their
  value is the message.
\<close>

record world =
  reports :: "(elevel \<times> string) list"
  slept :: nat

type_synonym ('a, 'z) call = "'z world_scheme \<Rightarrow> elevel + 'a \<times> 'z world_scheme"

definition ereport ::
    "(elevel \<Rightarrow> bool) \<Rightarrow> elevel \<Rightarrow> ('z world_scheme \<Rightarrow> string \<times> 'z world_scheme) \<Rightarrow> (unit, 'z) call" where
  "ereport errstart elevel message s =
     (if errstart elevel
      then let (m, s1) = message s; s2 = s1\<lparr>reports := reports s1 @ [(elevel, m)]\<rparr>
           in if ERROR \<le> elevel then Inl elevel else Inr ((), s2)
      else Inr ((), s))"

definition text_message :: "string \<Rightarrow> 'z world_scheme \<Rightarrow> string \<times> 'z world_scheme" where
  "text_message m s = (m, s)"

section \<open>ereport_skip\<close>

definition expensive_function :: "'z world_scheme \<Rightarrow> string \<times> 'z world_scheme" where
  "expensive_function s = (''expensive'', s\<lparr>slept := slept s + 2000000\<rparr>)"

definition ereport_skip_test :: "(elevel \<Rightarrow> bool) \<Rightarrow> (unit, 'z) call" where
  "ereport_skip_test errstart = ereport errstart DEBUG1 expensive_function"

definition ereport_skip_test2 :: "(elevel \<Rightarrow> bool) \<Rightarrow> elevel \<Rightarrow> (unit, 'z) call" where
  "ereport_skip_test2 errstart client_min_messages =
     ereport errstart client_min_messages expensive_function"

section \<open>parallel_unsafe\<close>

text \<open>The transaction manager gives the transaction its id, or refuses with an error.\<close>

definition parallel_unsafe ::
    "(elevel \<Rightarrow> bool) \<Rightarrow> (nat option) \<Rightarrow> nat \<Rightarrow> bool \<Rightarrow> 32 word \<Rightarrow> (32 word, 'z) call" where
  "parallel_unsafe errstart GetTopTransactionId MyProcPid IsParallelWorker arg s =
     (case GetTopTransactionId of
        None \<Rightarrow> Inl ERROR
      | Some my_xid \<Rightarrow>
          (case ereport errstart NOTICE (text_message
              (''pid '' @ show_int (int MyProcPid) @ '', xid '' @ show_int (int my_xid) @
               '', parallel worker='' @ show_int (if IsParallelWorker then 1 else 0))) s of
             Inl e \<Rightarrow> Inl e
           | Inr (_, s1) \<Rightarrow> Inr (arg, s1)))"

section \<open>The ProcessUtility hook\<close>

datatype node_tag = T_DropStmt | T_CreateStmt | Other_node

text \<open>A hook pointer is null, the hook of this module, or that of another one.\<close>

datatype hook_ptr = No_hook | Wal_log_ddltext | Other_hook nat

text \<open>
  Who finally got the statement, with the arguments as they arrived: the node, the text and the
  rest, whose types are the server's.
\<close>

datatype 'r utility_call = Utility_call hook_ptr node_tag string 'r

record 'r backend = world +
  ProcessUtility_hook :: hook_ptr
  next_ProcessUtility_hook :: hook_ptr
  utility_calls :: "'r utility_call list"

type_synonym 'r utility = "'r backend \<Rightarrow> (elevel + unit \<times> 'r backend) option"

definition and_then :: "elevel + unit \<times> 'r backend \<Rightarrow> 'r utility \<Rightarrow> (elevel + unit \<times> 'r backend) option" where
  "and_then r k = (case r of Inl e \<Rightarrow> Some (Inl e) | Inr (_, s) \<Rightarrow> k s)"

definition hook_debug :: "(elevel \<Rightarrow> bool) \<Rightarrow> string \<Rightarrow> 'r backend \<Rightarrow> elevel + unit \<times> 'r backend" where
  "hook_debug errstart m =
     ereport errstart DEBUG4 (text_message (''example_processutility_hook ProcessUtility_hook '' @ m))"

text \<open>The switch on the node; \<open>describe\<close> is the text with the names of the database, path and user.\<close>

definition report_ddl ::
    "(elevel \<Rightarrow> bool) \<Rightarrow> (string \<Rightarrow> string) \<Rightarrow> node_tag \<Rightarrow> string \<Rightarrow> 'r backend \<Rightarrow> elevel + unit \<times> 'r backend" where
  "report_ddl errstart describe parsetree queryString s =
     (if parsetree = T_DropStmt \<or> parsetree = T_CreateStmt
      then ereport errstart INFO (text_message (describe queryString)) s
      else Inr ((), s))"


definition wal_log_ddltext92 ::
    "(elevel \<Rightarrow> bool) \<Rightarrow> (string \<Rightarrow> string) \<Rightarrow>
     (hook_ptr \<Rightarrow> node_tag \<Rightarrow> string \<Rightarrow> 'p \<Rightarrow> bool \<Rightarrow> 'd \<Rightarrow> 't \<Rightarrow> ('p \<times> bool \<times> 'd \<times> 't) utility) \<Rightarrow>
     node_tag \<Rightarrow> string \<Rightarrow> 'p \<Rightarrow> bool \<Rightarrow> 'd \<Rightarrow> 't \<Rightarrow> ('p \<times> bool \<times> 'd \<times> 't) utility" where
  "wal_log_ddltext92 errstart describe call parsetree queryString params isTopLevel dest completionTag s =
     and_then (hook_debug errstart ''invoked'' s) (\<lambda>s1.
     and_then (report_ddl errstart describe parsetree queryString s1) (\<lambda>s2.
       if next_ProcessUtility_hook s2 \<noteq> No_hook
       then and_then (hook_debug errstart ''handing off to next hook '' s2)
              (call (next_ProcessUtility_hook s2) parsetree queryString params isTopLevel dest completionTag)
       else and_then (hook_debug errstart ''invoking standard_ProcessUtility'' s2)
              (call No_hook parsetree queryString params isTopLevel dest completionTag)))"

definition PG_init :: "(elevel \<Rightarrow> bool) \<Rightarrow> 'r backend \<Rightarrow> elevel + unit \<times> 'r backend" where
  "PG_init errstart s =
     (case hook_debug errstart ''installed'' s of
        Inl e \<Rightarrow> Inl e
      | Inr (_, s1) \<Rightarrow>
          Inr ((), s1\<lparr>next_ProcessUtility_hook := ProcessUtility_hook s1,
                     ProcessUtility_hook := Wal_log_ddltext\<rparr>))"

text \<open>
  A call through a hook pointer, on fuel, since a hook may lead back to this one.  What the other
  hooks and the server itself do with a statement is not part of the repository: the call is
  recorded.
\<close>

definition foreign_call :: "hook_ptr \<Rightarrow> node_tag \<Rightarrow> string \<Rightarrow> 'r \<Rightarrow> 'r utility" where
  "foreign_call h t q r s =
     Some (Inr ((), s\<lparr>utility_calls := utility_calls s @ [Utility_call h t q r]\<rparr>))"


fun call_hook92 ::
    "(elevel \<Rightarrow> bool) \<Rightarrow> (string \<Rightarrow> string) \<Rightarrow> nat \<Rightarrow> hook_ptr \<Rightarrow> node_tag \<Rightarrow> string \<Rightarrow> 'p \<Rightarrow> bool \<Rightarrow> 'd \<Rightarrow> 't \<Rightarrow>
     ('p \<times> bool \<times> 'd \<times> 't) utility" where
  "call_hook92 es d 0 h t q p i ds tag s = None"
| "call_hook92 es d (Suc fuel) h t q p i ds tag s =
     (if h = Wal_log_ddltext then wal_log_ddltext92 es d (call_hook92 es d fuel) t q p i ds tag s
      else foreign_call h t q (p, i, ds, tag) s)"

section \<open>Lemmas\<close>

lemma ereport_below_error:
  "\<not> ERROR \<le> l \<Longrightarrow> ereport errstart l (text_message m) s =
     Inr ((), s\<lparr>reports := reports s @ (if errstart l then [(l, m)] else [])\<rparr>)"
  by (simp add: ereport_def text_message_def)

lemma low_levels [simp]: "\<not> ERROR \<le> DEBUG4" "\<not> ERROR \<le> INFO" "\<not> ERROR \<le> NOTICE" "\<not> ERROR \<le> DEBUG1"
  by (simp_all add: less_eq_elevel_def)

lemmas hook_defs = hook_debug_def report_ddl_def and_then_def ereport_below_error foreign_call_def

lemma parallel_unsafe_cases:
  "parallel_unsafe es xid pid worker arg s =
     (case xid of
        None \<Rightarrow> Inl ERROR
      | Some x \<Rightarrow> Inr (arg, s\<lparr>reports := reports s @ (if es NOTICE then [(NOTICE,
          ''pid '' @ show_int (int pid) @ '', xid '' @ show_int (int x) @ '', parallel worker='' @
          show_int (if worker then 1 else 0))] else [])\<rparr>))"
  by (simp add: parallel_unsafe_def ereport_below_error split: option.split)

section \<open>Properties\<close>

text \<open>The message of a report that nobody wants is never computed: at \<open>DEBUG1\<close> the two seconds are
  spent exactly when such reports are wanted; at the client's own level they always are, since the
  client wants reports of that level.\<close>

lemma ereport_skips_message:
  assumes "\<And>l. client_min_messages \<le> l \<Longrightarrow> errstart l" and "client_min_messages < ERROR"
  shows "ereport_skip_test errstart s =
      Inr ((), if errstart DEBUG1
        then s\<lparr>slept := slept s + 2000000, reports := reports s @ [(DEBUG1, ''expensive'')]\<rparr> else s) \<and>
    ereport_skip_test2 errstart client_min_messages s =
      Inr ((), s\<lparr>slept := slept s + 2000000,
        reports := reports s @ [(client_min_messages, ''expensive'')]\<rparr>)"
  using assms
  by (simp add: ereport_skip_test_def ereport_skip_test2_def ereport_def expensive_function_def
      leD)

lemma PG_init_eq:
  "PG_init es s = Inr ((), s\<lparr>reports := reports s @ (if es DEBUG4
       then [(DEBUG4, ''example_processutility_hook ProcessUtility_hook installed'')] else []),
     next_ProcessUtility_hook := ProcessUtility_hook s, ProcessUtility_hook := Wal_log_ddltext\<rparr>)"
  by (simp add: PG_init_def hook_debug_def ereport_below_error)






lemma loaded_once92:
  assumes "PG_init es s = Inr ((), s1)" and "ProcessUtility_hook s \<noteq> Wal_log_ddltext"
  shows "\<exists>s'. call_hook92 es d (Suc (Suc fuel)) (ProcessUtility_hook s1) t q p i ds tag s1 = Some (Inr ((), s')) \<and>
      utility_calls s' = utility_calls s @ [Utility_call (ProcessUtility_hook s) t q (p, i, ds, tag)] \<and>
      filter (\<lambda>r. fst r = INFO) (reports s') = filter (\<lambda>r. fst r = INFO) (reports s) @
        (if t \<noteq> Other_node \<and> es INFO then [(INFO, d q)] else [])"
proof -
  have s1: "next_ProcessUtility_hook s1 = ProcessUtility_hook s" "ProcessUtility_hook s1 = Wal_log_ddltext"
      "utility_calls s1 = utility_calls s"
      "filter (\<lambda>r. fst r = INFO) (reports s1) = filter (\<lambda>r. fst r = INFO) (reports s)"
    using assms(1) by (auto simp: PG_init_eq)
  show ?thesis
    using s1 assms(2) by (cases t; cases "es INFO")
      (simp_all add: hook_defs wal_log_ddltext92_def)
qed

lemma own_successor92:
  "next_ProcessUtility_hook s = Wal_log_ddltext \<Longrightarrow>
     call_hook92 es d fuel Wal_log_ddltext t q p i ds tag s = None"
  by (induction fuel arbitrary: s) (auto simp: hook_defs wal_log_ddltext92_def)

text \<open>The 9.2 module, whose hook takes other arguments, hands statements on in the same way.\<close>

lemma utility_hook92_hands_on:
  assumes "PG_init es s = Inr ((), s1)" and "ProcessUtility_hook s \<noteq> Wal_log_ddltext"
    and "PG_init es s1 = Inr ((), s2)"
  shows "(\<exists>s'. call_hook92 es d (Suc (Suc fuel)) (ProcessUtility_hook s1) t q p i ds tag s1 = Some (Inr ((), s')) \<and>
      utility_calls s' = utility_calls s @ [Utility_call (ProcessUtility_hook s) t q (p, i, ds, tag)] \<and>
      filter (\<lambda>r. fst r = INFO) (reports s') = filter (\<lambda>r. fst r = INFO) (reports s) @
        (if t \<noteq> Other_node \<and> es INFO then [(INFO, d q)] else [])) \<and>
    call_hook92 es d fuel (ProcessUtility_hook s2) t q p i ds tag s2 = None"
proof -
  have "ProcessUtility_hook s2 = Wal_log_ddltext" "next_ProcessUtility_hook s2 = Wal_log_ddltext"
    using assms(1,3) by (auto simp: PG_init_eq)
  then show ?thesis
    using loaded_once92[OF assms(1,2)] own_successor92[of s2] by simp
qed

end
