(* ===== verification/Spi_Leds.thy ===== *)
theory Spi_Leds
  imports C_Prelude
begin

text \<open>
  \<open>arduino_avr/Arduino_Tutorial_CIRC05_hardware_spi.c\<close>: eight LEDs behind a shift register.  A
  program is the list of what it does to its pins; the Arduino library's \<open>shiftOut\<close> and
  \<open>SPI.transfer\<close> are single events, since they are not part of the source.  A \<open>byte\<close> has 8 bits.
\<close>

unbundle bit_operations_syntax

type_synonym led_byte = "8 word"

datatype pin_event =
    Latch bool | Data bool | Clock bool | Delay_ms nat
  | Shift_out led_byte | Spi_transfer led_byte
  | Pin_output string | Spi_begin_msb_first

definition updateLEDs :: "led_byte \<Rightarrow> pin_event list" where
  "updateLEDs v = [Latch False, Shift_out v, Latch True]"

text \<open>The loop of lines 99-114; \<open>i\<close> turns are left.\<close>

fun long_loop :: "nat \<Rightarrow> led_byte \<Rightarrow> pin_event list" where
  "long_loop 0 v = []"
| "long_loop (Suc i) v =
     (let b = v AND 0x80 in
      [Data (b = 128), Clock True, Delay_ms 1, Clock False] @ long_loop i (push_bit 1 v))"

definition updateLEDsLong :: "led_byte \<Rightarrow> pin_event list" where
  "updateLEDsLong v = [Latch False] @ long_loop 8 v @ [Latch True]"

definition updateLEDsSPI :: "led_byte \<Rightarrow> pin_event list" where
  "updateLEDsSPI v = [Latch True, Spi_transfer v, Latch False]"

definition setup_pins :: "bool \<Rightarrow> pin_event list" where
  "setup_pins useSPI =
     [Pin_output ''latch'', Latch False] @
     (if useSPI then [Spi_begin_msb_first] else [Pin_output ''data'', Pin_output ''clock''])"

text \<open>
  The loop of lines 69-77, on fuel: \<open>i < 256\<close> compares the promoted byte, which is always smaller,
  and \<open>i++\<close> wraps, so the loop never ends.  The value is what it did within the fuel.
\<close>

fun led_loop :: "nat \<Rightarrow> bool \<Rightarrow> led_byte \<Rightarrow> pin_event list \<Rightarrow> pin_event list option \<times> pin_event list" where
  "led_loop 0 useSPI i acc = (None, acc)"
| "led_loop (Suc fuel) useSPI i acc =
     (if unat i < 256
      then led_loop fuel useSPI (i + 1)
             (acc @ (if useSPI then updateLEDsSPI i else updateLEDs i) @ [Delay_ms 100])
      else (Some acc, acc))"

lemma led_loop_never_ends: "fst (led_loop fuel useSPI i d) = None"
proof (induction fuel arbitrary: i d)
  case (Suc fuel)
  have "unat i < 256" using unsigned_less[of i] by simp
  then show ?case using Suc.IH by simp
qed simp

section \<open>What the shift register sees\<close>

text \<open>
  The register takes the level of the data line at each rising clock edge, and shows what it has
  taken when the latch line rises.  \<open>scan\<close> gives the bits shifted since the start at each rise of
  the latch line; the library routines clock out their byte, most significant bit first.
\<close>

record lines =
  latch :: bool
  clock :: bool
  data :: bool

definition msb_first :: "led_byte \<Rightarrow> bool list" where
  "msb_first v = map (bit v) (rev [0..<8])"

fun scan :: "lines \<Rightarrow> bool list \<Rightarrow> pin_event list \<Rightarrow> bool list list" where
  "scan l bs [] = []"
| "scan l bs (e # es) =
     (case e of
        Latch b \<Rightarrow> (if b \<and> \<not> latch l then [bs] else []) @ scan (l\<lparr>latch := b\<rparr>) bs es
      | Data b \<Rightarrow> scan (l\<lparr>data := b\<rparr>) bs es
      | Clock b \<Rightarrow> scan (l\<lparr>clock := b\<rparr>) (if b \<and> \<not> clock l then bs @ [data l] else bs) es
      | Shift_out v \<Rightarrow> scan l (bs @ msb_first v) es
      | Spi_transfer v \<Rightarrow> scan l (bs @ msb_first v) es
      | _ \<Rightarrow> scan l bs es)"

definition idle :: lines where
  "idle = \<lparr>latch = False, clock = False, data = False\<rparr>"

lemma and_exp: "(v :: led_byte) AND 2 ^ n = (if bit v n then 2 ^ n else 0)"
  by (rule bit_word_eqI) (auto simp: bit_simps)

lemma top_bit: "((v :: led_byte) AND 128 = 128) = bit v 7"
  using and_exp[of v 7] by simp

text \<open>One turn of the software loop clocks in the top bit.\<close>

lemma scan_long_loop:
  "\<not> latch l \<Longrightarrow> \<not> clock l \<Longrightarrow>
     \<exists>l'. \<not> latch l' \<and> scan l bs (long_loop n v @ es) =
       scan l' (bs @ map (\<lambda>k. bit (push_bit k v) 7) [0..<n]) es"
proof (induction n arbitrary: l bs v)
  case (Suc n)
  let ?l = "l\<lparr>data := bit v 7, clock := False\<rparr>"
  obtain l' where l': "\<not> latch l'" "scan ?l (bs @ [bit v 7]) (long_loop n (push_bit 1 v) @ es) =
      scan l' ((bs @ [bit v 7]) @ map (\<lambda>k. bit (push_bit k (push_bit 1 v)) 7) [0..<n]) es"
    using Suc.IH[of ?l "bs @ [bit v 7]" "push_bit 1 v"] Suc.prems by auto
  have "scan l bs (long_loop (Suc n) v @ es) =
      scan ?l (bs @ [bit v 7]) (long_loop n (push_bit 1 v) @ es)"
    using Suc.prems by (simp add: Let_def top_bit)
  moreover have "map (\<lambda>k. bit (push_bit k v) 7) [0..<Suc n] =
      bit v 7 # map (\<lambda>k. bit (push_bit k (push_bit 1 v)) 7) [0..<n]"
    by (simp add: upt_conv_Cons map_Suc_upt[symmetric] comp_def push_bit_push_bit del: upt_Suc)
  ultimately show ?case using l' by auto
qed auto

lemma shifted_bits: "map (\<lambda>k. bit (push_bit k (v :: led_byte)) 7) [0..<8] = msb_first v"
  by (simp add: msb_first_def upt_rec bit_simps, simp add: numeral_eq_Suc)

section \<open>Properties\<close>

text \<open>The software routines show the byte they are given: when the latch line rises, the bits
  shifted in are exactly the eight bits of the value, most significant first, for
  \<open>updateLEDs\<close> and the bit-by-bit \<open>updateLEDsLong\<close>.  \<open>updateLEDsSPI\<close> raises the latch before
  it sends, so the register shows what was shifted in before, and the new byte only at the next
  update.\<close>

lemma leds_shown:
  "scan idle [] (updateLEDs v) = [msb_first v] \<and>
   scan idle [] (updateLEDsLong v) = [msb_first v] \<and>
   scan idle [] (updateLEDsSPI v @ updateLEDsSPI w) = [[], msb_first v]"
proof (intro conjI)
  obtain l' where "\<not> latch l'" "scan idle [] (long_loop 8 v @ [Latch True]) =
      scan l' ([] @ map (\<lambda>k. bit (push_bit k v) 7) [0..<8]) [Latch True]"
    using scan_long_loop[of idle "[]" 8 v "[Latch True]"] by (auto simp: idle_def)
  moreover have "idle\<lparr>latch := False\<rparr> = idle" by (simp add: idle_def)
  ultimately show "scan idle [] (updateLEDsLong v) = [msb_first v]"
    by (simp add: updateLEDsLong_def shifted_bits)
qed (simp_all add: updateLEDs_def updateLEDsSPI_def idle_def)

end
