(* ===== verification/Soil_Moisture.thy ===== *)
theory Soil_Moisture
  imports C_Prelude
begin

text \<open>
  \<open>arduino_avr/Arduino_Resistive_Soil_Moisture_Sensor_1.ino\<close>: a ring buffer of ten samples, their
  mean and standard deviation, and the loop that reports once they are stable.  \<open>int\<close> and
  \<open>short\<close> have 16 bits.  The floating-point operations of the processor are a parameter, since
  their rounding is not part of the program; what the analog pin reads is a function of the number
  of the reading.
\<close>

record 'f float_ops =
  f_of_int :: "int \<Rightarrow> 'f"
  f_add :: "'f \<Rightarrow> 'f \<Rightarrow> 'f"
  f_sub :: "'f \<Rightarrow> 'f \<Rightarrow> 'f"
  f_div :: "'f \<Rightarrow> 'f \<Rightarrow> 'f"
  f_pow :: "'f \<Rightarrow> 'f \<Rightarrow> 'f"
  f_sqrt :: "'f \<Rightarrow> 'f"
  f_less :: "'f \<Rightarrow> 'f \<Rightarrow> bool"

datatype 'f soil_event =
  Spi_disable | Serial_begin nat | Print string | Print_float 'f | Delay_ms nat

text \<open>The static variables of \<open>loop\<close> and \<open>reportResult\<close>; \<open>lastSample\<close> is never used.\<close>

record 'f soil =
  samples :: "16 word list"
  nextSample :: "16 word"
  lastResultGood :: bool
  soil_events :: "'f soil_event list"

definition SAMPLES_TO_AVERAGE :: "16 word" where
  "SAMPLES_TO_AVERAGE = 10"

definition INTERSAMPLE_SLEEP_TIME_MS :: nat where
  "INTERSAMPLE_SLEEP_TIME_MS = 20"

definition soil_start :: "'f soil" where
  "soil_start = \<lparr>samples = replicate 10 0, nextSample = 0, lastResultGood = True, soil_events = []\<rparr>"

definition soil_log :: "'f soil_event list \<Rightarrow> 'f soil \<Rightarrow> 'f soil" where
  "soil_log es s = s\<lparr>soil_events := soil_events s @ es\<rparr>"

definition soil_setup :: "'f soil \<Rightarrow> 'f soil" where
  "soil_setup s = soil_log [Spi_disable, Serial_begin 9600] s"

section \<open>The ring buffer\<close>

text \<open>Lines 24-26; a write outside the ten samples is undefined.\<close>

definition take_sample :: "16 word \<Rightarrow> 'f soil \<Rightarrow> 'f soil res" where
  "take_sample v s =
     (let i = (if nextSample s = SAMPLES_TO_AVERAGE then 0 else nextSample s) in
      check (0 \<le> sint i \<and> sint i < 10) Undefined
        (Inr (s\<lparr>samples := (samples s)[nat (sint i) := v], nextSample := i + 1\<rparr>)))"

section \<open>The statistics\<close>

text \<open>The sum is an \<open>int\<close>; a sum that leaves its range is undefined.\<close>

fun sample_sum :: "16 word list \<Rightarrow> int \<Rightarrow> int res" where
  "sample_sum [] sampleSum = Inr sampleSum"
| "sample_sum (x # xs) sampleSum =
     (let t = sampleSum + sint x in
      check (-32768 \<le> t \<and> t \<le> 32767) Undefined (sample_sum xs t))"

fun sq_dev_sum :: "'f float_ops \<Rightarrow> 'f \<Rightarrow> 16 word list \<Rightarrow> 'f \<Rightarrow> 'f" where
  "sq_dev_sum fo sampleMean [] sqDevSum = sqDevSum"
| "sq_dev_sum fo sampleMean (x # xs) sqDevSum =
     sq_dev_sum fo sampleMean xs
       (f_add fo sqDevSum
          (f_pow fo (f_sub fo sampleMean (f_of_int fo (sint x))) (f_of_int fo 2)))"

definition calcSampleStats :: "'f float_ops \<Rightarrow> 16 word list \<Rightarrow> ('f \<times> 'f) res" where
  "calcSampleStats fo xs =
     rbind (sample_sum xs 0) (\<lambda>sampleSum.
       let sampleMean = f_div fo (f_of_int fo sampleSum) (f_of_int fo 10);
           sqDevSum = sq_dev_sum fo sampleMean xs (f_of_int fo 0)
       in Inr (sampleMean,
               f_sqrt fo (f_div fo sqDevSum (f_of_int fo (sint SAMPLES_TO_AVERAGE)))))"

definition reportResult :: "'f float_ops \<Rightarrow> 'f \<Rightarrow> 'f \<Rightarrow> 'f soil \<Rightarrow> bool \<times> 'f soil" where
  "reportResult fo mean stdDev s =
     (let s1 = (if f_less fo stdDev (f_of_int fo 5)
        then (soil_log [Print (NL # ''Mean:''), Print_float mean, Print '', Std. Dev: '',
                Print_float stdDev] s)\<lparr>lastResultGood := True\<rparr>
        else (soil_log [if lastResultGood s
                then Print (NL # ''Waiting for value to stabilize: '') else Print ''.''] s)
               \<lparr>lastResultGood := False\<rparr>)
      in (lastResultGood s1, s1))"

section \<open>The loop\<close>

text \<open>
  The do-while loop of lines 21-37 on fuel; \<open>k\<close> counts the readings.  \<open>msDelayed\<close> is an
  \<open>int\<close>: once it cannot grow by another 20 milliseconds the addition is undefined.
\<close>

fun sample_loop ::
    "'f float_ops \<Rightarrow> (nat \<Rightarrow> 16 word) \<Rightarrow> nat \<Rightarrow> nat \<Rightarrow> int \<Rightarrow> 'f soil \<Rightarrow> (nat \<times> 'f soil) res option" where
  "sample_loop fo analogRead 0 k msDelayed s = None"
| "sample_loop fo analogRead (Suc fuel) k msDelayed s =
     (case rbind (take_sample (analogRead k) s) (\<lambda>s1.
             rbind (calcSampleStats fo (samples s1)) (\<lambda>stats. Inr (s1, stats))) of
        Inl e \<Rightarrow> Some (Inl e)
      | Inr (s1, (mean, stdDev)) \<Rightarrow>
          let s2 = soil_log [Delay_ms INTERSAMPLE_SLEEP_TIME_MS] s1;
              ms = msDelayed + int INTERSAMPLE_SLEEP_TIME_MS
          in if 32767 < ms then Some (Inl Undefined)
             else let (good, s3) = reportResult fo mean stdDev s2 in
               if good then Some (Inr (Suc k, s3))
               else sample_loop fo analogRead fuel (Suc k) ms s3)"

text \<open>\<open>loop\<close>: \<open>msDelayed\<close> starts at 0 in every call; the pause at the end is 36000 ms.\<close>

definition soil_loop ::
    "'f float_ops \<Rightarrow> (nat \<Rightarrow> 16 word) \<Rightarrow> nat \<Rightarrow> nat \<Rightarrow> 'f soil \<Rightarrow> (nat \<times> 'f soil) res option" where
  "soil_loop fo analogRead fuel k s =
     map_option (\<lambda>r. rbind r (\<lambda>(k', s'). Inr (k', soil_log [Delay_ms 36000] s')))
       (sample_loop fo analogRead fuel k 0 s)"

end
