(* ===== verification/Soil_Laws.thy ===== *)
theory Soil_Laws
  imports Soil_Moisture Simulation Complex_Main
begin

text \<open>
  The ring buffer as the list of the last ten readings, the range of the sum, and what the loop
  has read and printed when it ends.
\<close>

section \<open>The ring buffer refines a window\<close>

definition last_ten :: "'f soil \<Rightarrow> 16 word list" where
  "last_ten s = rotate (unat (nextSample s)) (samples s)"

definition ring_ok :: "'f soil \<Rightarrow> bool" where
  "ring_ok s \<longleftrightarrow> length (samples s) = 10 \<and> unat (nextSample s) \<le> 10"

definition slide :: "'a \<Rightarrow> 'a list \<Rightarrow> 'a list" where
  "slide v w = tl w @ [v]"

lemma rotate_update:
  assumes "n < length xs"
  shows "rotate (Suc n) (xs[n := v]) = slide v (rotate n xs)"
proof -
  let ?l = "take n xs" and ?r = "drop (Suc n) xs"
  have l: "length ?l = n" using assms by simp
  have "xs[n := v] = (?l @ [v]) @ ?r" using assms by (simp add: upd_conv_take_nth_drop)
  then have "rotate (Suc n) (xs[n := v]) = ?r @ ?l @ [v]"
    using rotate_append[of "?l @ [v]" ?r] l by simp
  moreover have "rotate n xs = (xs ! n # ?r) @ ?l"
    using rotate_append[of ?l "xs ! n # ?r"] l assms by (simp add: id_take_nth_drop[symmetric])
  ultimately show ?thesis by (simp add: slide_def)
qed

lemma ring_start: "ring_ok soil_start" "last_ten soil_start = replicate 10 0"
  by (simp_all add: ring_ok_def last_ten_def soil_start_def)

lemma ring_log [simp]:
  "ring_ok (soil_log es s) = ring_ok s" "last_ten (soil_log es s) = last_ten s"
  "samples (soil_log es s) = samples s" "lastResultGood (soil_log es s) = lastResultGood s"
  "soil_events (soil_log es s) = soil_events s @ es"
  by (simp_all add: ring_ok_def last_ten_def soil_log_def)

lemma small_index:
  fixes i :: "16 word"
  assumes "unat i < 10"
  shows "uint i < 10" "sint i = uint i" "unat (i + 1) = Suc (unat i)"
proof -
  show "unat (i + 1) = Suc (unat i)" using assms by (simp add: unat_word_ariths)
  have "int (unat i) < 10" using assms by linarith
  then show "uint i < 10" by simp
  then have "signed_take_bit 15 (uint i) = uint i"
    by (intro signed_take_bit_int_eq_self order.trans[OF _ uint_ge_0]) simp_all
  then show "sint i = uint i" by (simp add: sint_uint)
qed

lemma index_below:
  fixes i :: "16 word"
  shows "unat i \<le> 10 \<Longrightarrow> i \<noteq> 10 \<Longrightarrow> unat i < 10"
  by unat_arith

lemma take_sample_slides:
  assumes "ring_ok s"
  shows "\<exists>s'. take_sample v s = Inr s' \<and> ring_ok s' \<and> last_ten s' = slide v (last_ten s) \<and>
    lastResultGood s' = lastResultGood s \<and> soil_events s' = soil_events s"
proof -
  define i where "i = (if nextSample s = SAMPLES_TO_AVERAGE then 0 else nextSample s)"
  have n: "unat (nextSample s) \<le> 10" "length (samples s) = 10"
    using assms by (simp_all add: ring_ok_def)
  have i: "unat i < 10" using n index_below by (auto simp: i_def SAMPLES_TO_AVERAGE_def)
  have r: "rotate (unat i) (samples s) = last_ten s"
    using n(2) by (auto simp: i_def SAMPLES_TO_AVERAGE_def last_ten_def)
  have "take_sample v s = Inr (s\<lparr>samples := (samples s)[unat i := v], nextSample := i + 1\<rparr>)"
    using small_index(1,2)[OF i] by (simp add: take_sample_def i_def[symmetric] Let_def)
  then show ?thesis
    using n(2) i r small_index(3)[OF i] rotate_update[of "unat i" "samples s" v]
    by (simp add: ring_ok_def last_ten_def)
qed

section \<open>The statistics\<close>

text \<open>The converter of the board has ten bits.\<close>

definition adc :: "16 word \<Rightarrow> bool" where
  "adc v \<longleftrightarrow> 0 \<le> sint v \<and> sint v \<le> 1023"

definition calm :: "'f soil \<Rightarrow> bool" where
  "calm s \<longleftrightarrow> ring_ok s \<and> list_all adc (last_ten s)"

lemma sample_sum_adc:
  "list_all adc xs \<Longrightarrow> 0 \<le> a \<Longrightarrow> a + 1023 * int (length xs) \<le> 32767 \<Longrightarrow>
     sample_sum xs a = Inr (a + sum_list (map sint xs))"
proof (induction xs arbitrary: a)
  case (Cons x xs)
  then have "0 \<le> a + sint x" "a + sint x + 1023 * int (length xs) \<le> 32767"
    by (simp_all add: adc_def algebra_simps)
  then show ?case using Cons by simp
qed simp

lemma sum_list_rotate: "sum_list (rotate n xs) = sum_list (xs :: int list)"
proof -
  have "sum_list (take m xs @ drop m xs) = sum_list (drop m xs @ take m xs)" for m
    by (simp only: sum_list_append add.commute)
  then show ?thesis by (simp add: rotate_drop_take)
qed

lemma last_ten_sum: "sum_list (map sint (last_ten s)) = sum_list (map sint (samples s))"
  by (simp add: last_ten_def rotate_map[symmetric] sum_list_rotate)

lemma calm_stats:
  assumes "calm s"
  shows "\<exists>stdDev. calcSampleStats fo (samples s) = Inr
    (f_div fo (f_of_int fo (sum_list (map sint (last_ten s)))) (f_of_int fo 10), stdDev)"
proof -
  have "set (last_ten s) = set (samples s)" by (simp add: last_ten_def)
  then have "list_all adc (samples s)" "length (samples s) = 10"
    using assms by (simp_all add: calm_def ring_ok_def list_all_iff)
  then have "sample_sum (samples s) 0 = Inr (sum_list (map sint (last_ten s)))"
    using sample_sum_adc[of "samples s" 0] by (simp add: last_ten_sum)
  then show ?thesis by (simp add: calcSampleStats_def Let_def)
qed

lemma calm_take_sample:
  assumes "calm s" and "adc v"
  shows "\<exists>s' stdDev. take_sample v s = Inr s' \<and> calm s' \<and> last_ten s' = slide v (last_ten s) \<and>
    lastResultGood s' = lastResultGood s \<and> soil_events s' = soil_events s \<and>
    calcSampleStats fo (samples s') = Inr
      (f_div fo (f_of_int fo (sum_list (map sint (last_ten s')))) (f_of_int fo 10), stdDev)"
proof -
  obtain s' where s': "take_sample v s = Inr s'" "ring_ok s'" "last_ten s' = slide v (last_ten s)"
      "lastResultGood s' = lastResultGood s" "soil_events s' = soil_events s"
    using take_sample_slides[of s v] assms(1) by (auto simp: calm_def)
  then have "calm s'"
    using assms by (cases "last_ten s") (auto simp: calm_def slide_def list_all_iff)
  from calm_stats[OF this, of fo] obtain d where "calcSampleStats fo (samples s') =
      Inr (f_div fo (f_of_int fo (sum_list (map sint (last_ten s')))) (f_of_int fo 10), d)" by blast
  with s' \<open>calm s'\<close> show ?thesis by simp
qed

section \<open>The loop\<close>

text \<open>What \<open>n\<close> unstable readings print, between their pauses.\<close>

fun waiting :: "bool \<Rightarrow> nat \<Rightarrow> 'f soil_event list" where
  "waiting good 0 = []"
| "waiting good (Suc n) =
     [Delay_ms 20, if good then Print (NL # ''Waiting for value to stabilize: '') else Print ''.''] @
     waiting False n"

definition report_line :: "'f \<Rightarrow> 'f \<Rightarrow> 'f soil_event list" where
  "report_line mean stdDev =
     [Delay_ms 20, Print (NL # ''Mean:''), Print_float mean, Print '', Std. Dev: '', Print_float stdDev]"

text \<open>One turn of the loop.\<close>

lemma sample_loop_turn:
  assumes "calm s" and "adc (rd k)"
  obtains s2 d where "calm s2" and "last_ten s2 = slide (rd k) (last_ten s)"
    and "calcSampleStats fo (samples s2) =
      Inr (f_div fo (f_of_int fo (sum_list (map sint (last_ten s2)))) (f_of_int fo 10), d)"
    and "lastResultGood s2 = f_less fo d (f_of_int fo 5)"
    and "soil_events s2 = soil_events s @ (if f_less fo d (f_of_int fo 5)
      then report_line (f_div fo (f_of_int fo (sum_list (map sint (last_ten s2)))) (f_of_int fo 10)) d
      else waiting (lastResultGood s) 1)"
    and "\<And>fuel ms. sample_loop fo rd (Suc fuel) k ms s =
       (if 32767 < ms + 20 then Some (Inl Undefined)
        else if f_less fo d (f_of_int fo 5) then Some (Inr (Suc k, s2))
        else sample_loop fo rd fuel (Suc k) (ms + 20) s2)"
proof -
  obtain s1 d where s1: "take_sample (rd k) s = Inr s1" "calm s1"
      "last_ten s1 = slide (rd k) (last_ten s)" "lastResultGood s1 = lastResultGood s"
      "soil_events s1 = soil_events s"
      "calcSampleStats fo (samples s1) = Inr
        (f_div fo (f_of_int fo (sum_list (map sint (last_ten s1)))) (f_of_int fo 10), d)"
    using calm_take_sample[OF assms, of fo] by blast
  let ?mean = "f_div fo (f_of_int fo (sum_list (map sint (last_ten s1)))) (f_of_int fo 10)"
  define s2 where "s2 = snd (reportResult fo ?mean d (soil_log [Delay_ms 20] s1))"
  have r: "reportResult fo ?mean d (soil_log [Delay_ms 20] s1) = (f_less fo d (f_of_int fo 5), s2)"
    by (simp add: s2_def reportResult_def Let_def)
  have "calm s2" "last_ten s2 = last_ten s1" "samples s2 = samples s1"
      "lastResultGood s2 = f_less fo d (f_of_int fo 5)"
      "soil_events s2 = soil_events s @ (if f_less fo d (f_of_int fo 5)
         then report_line ?mean d else waiting (lastResultGood s) 1)"
    using s1(2,4,5)
    by (simp_all add: s2_def reportResult_def Let_def calm_def ring_ok_def last_ten_def soil_log_def
        report_line_def)
  then show ?thesis
    using s1(1,3,6) r by (intro that[of s2 d]) (simp_all add: Let_def INTERSAMPLE_SLEEP_TIME_MS_def)
qed


lemma sample_loop_step:
  assumes "calm s" and "adc (rd k)"
  shows "\<exists>s2 d. calm s2 \<and> (\<forall>f m. sample_loop fo rd (Suc f) k m s =
       (if 32767 < m + 20 then Some (Inl Undefined)
        else if f_less fo d (f_of_int fo 5) then Some (Inr (Suc k, s2))
        else sample_loop fo rd f (Suc k) (m + 20) s2))"
proof (rule sample_loop_turn[where rd = rd and k = k and fo = fo, OF assms])
  fix s2 d
  assume "calm s2" and "\<And>f m. sample_loop fo rd (Suc f) k m s =
       (if 32767 < m + 20 then Some (Inl Undefined)
        else if f_less fo d (f_of_int fo 5) then Some (Inr (Suc k, s2))
        else sample_loop fo rd f (Suc k) (m + 20) s2)"
  then show ?thesis by (intro exI[of _ s2] exI[of _ d] conjI allI)
qed

lemma sample_loop_limit:
  assumes "\<And>i. adc (rd i)"
  shows "calm s \<Longrightarrow> ms + 20 * int fuel \<le> 32767 \<Longrightarrow> 32767 < ms + 20 * int (Suc fuel) \<Longrightarrow>
    sample_loop fo rd (Suc fuel) k ms s =
      (case sample_loop fo rd fuel k ms s of None \<Rightarrow> Some (Inl Undefined) | r \<Rightarrow> r) \<and>
    (\<forall>e. sample_loop fo rd fuel k ms s \<noteq> Some (Inl e))"
proof (induction fuel arbitrary: k ms s)
  case 0
  from sample_loop_step[where rd = rd and k = k and fo = fo, OF 0(1) assms]
  obtain s2 d where t: "\<forall>f m. sample_loop fo rd (Suc f) k m s =
       (if 32767 < m + 20 then Some (Inl Undefined)
        else if f_less fo d (f_of_int fo 5) then Some (Inr (Suc k, s2))
        else sample_loop fo rd f (Suc k) (m + 20) s2)" by blast
  show ?case using 0 by (simp del: sample_loop.simps(2) add: t)
next
  case (Suc fuel)
  from sample_loop_step[where rd = rd and k = k and fo = fo, OF Suc.prems(1) assms]
  obtain s2 d where "calm s2" and t: "\<forall>f m. sample_loop fo rd (Suc f) k m s =
       (if 32767 < m + 20 then Some (Inl Undefined)
        else if f_less fo d (f_of_int fo 5) then Some (Inr (Suc k, s2))
        else sample_loop fo rd f (Suc k) (m + 20) s2)" by blast
  show ?case
    using Suc.prems Suc.IH[OF \<open>calm s2\<close>, of "ms + 20" "Suc k"]
    by (simp del: sample_loop.simps add: t)
qed

section \<open>Properties\<close>

definition sample_step :: "16 word \<Rightarrow> 'f soil \<Rightarrow> (unit \<times> 'f soil) res" where
  "sample_step v s = rbind (take_sample v s) (\<lambda>s'. Inr ((), s'))"

definition ring_window :: "'f soil \<Rightarrow> 16 word list \<Rightarrow> bool" where
  "ring_window s w \<longleftrightarrow> ring_ok s \<and> last_ten s = w"

definition window_step :: "16 word \<Rightarrow> 16 word list \<Rightarrow> (unit \<times> 16 word list) res option" where
  "window_step v w = Some (Inr ((), slide v w))"

interpretation soil_ring: simulation ring_window sample_step window_step
proof
  fix s :: "'f soil" and w v u w'
  assume "ring_window s w" and "window_step v w = Some (Inr (u, w'))"
  then show "\<exists>s'. sample_step v s = Inr (u, s') \<and> ring_window s' w'"
    using take_sample_slides[of s v] by (auto simp: ring_window_def window_step_def sample_step_def)
qed (simp add: window_step_def)

lemma window_run:
  "w \<noteq> [] \<Longrightarrow> arun window_step vs w =
     Some (Inr (replicate (length vs) (), drop (length vs) (w @ vs)))"
proof (induction vs arbitrary: w)
  case (Cons v vs)
  have "slide v w @ vs = tl (w @ v # vs)" using Cons.prems by (simp add: slide_def)
  moreover have "arun window_step vs (slide v w) =
      Some (Inr (replicate (length vs) (), drop (length vs) (slide v w @ vs)))"
    by (rule Cons.IH) (simp add: slide_def)
  ultimately show ?case by (simp add: window_step_def[of v w] drop_Suc del: drop_append)
qed simp

text \<open>C16: the sample array with its write index is a window on the readings: whatever is sampled, the
  array, read from the write index on, holds the ten most recent readings in the order they came
  (with zeros for the readings before the first), and no write leaves the array.\<close>

theorem soil_ring_refines_window:
  assumes "ring_ok s"
  shows "\<exists>s'. crun sample_step vs s = Inr (replicate (length vs) (), s') \<and> ring_ok s' \<and>
    last_ten s' = drop (length vs) (last_ten s @ vs)"
proof -
  have "last_ten s \<noteq> []" using assms by (auto simp: ring_ok_def last_ten_def)
  from soil_ring.run_steps[OF _ window_run[OF this], of s vs] assms show ?thesis
    by (auto simp: ring_window_def)
qed

theorem soil_ring_refines_window_witness:
  "\<exists>s'. crun sample_step (map of_nat [1..<13]) (soil_start :: real soil) =
      Inr (replicate 12 (), s') \<and> ring_ok s' \<and> last_ten s' = map of_nat [3..<13]"
proof -
  have "length (map of_nat [1..<13] :: 16 word list) = 12" by simp
  moreover have "drop 12 (replicate 10 0 @ map of_nat [1..<13]) = (map of_nat [3..<13] :: 16 word list)"
    by (simp add: upt_rec)
  ultimately show ?thesis
    using soil_ring_refines_window[where s = "soil_start :: real soil" and vs = "map of_nat [1..<13]",
        OF ring_start(1)]
    by (simp only: ring_start(2))
qed

definition real_ops :: "real float_ops" where
  "real_ops = \<lparr>f_of_int = of_int, f_add = (+), f_sub = (-), f_div = (/),
     f_pow = (\<lambda>x y. x ^ nat \<lfloor>y\<rfloor>), f_sqrt = sqrt, f_less = (<)\<rparr>"



text \<open>C39: the loop returns or runs into undefined behaviour: within 1638 readings it is never undefined, and
  when none of them was stable, the next addition to \<open>msDelayed\<close> overflows the \<open>int\<close>.\<close>

theorem soil_loop_overflows_delay:
  assumes "\<And>i. adc (rd i)" and "calm s"
  shows "(\<forall>e. soil_loop fo rd 1638 k s \<noteq> Some (Inl e)) \<and>
    soil_loop fo rd 1639 k s =
      (case soil_loop fo rd 1638 k s of None \<Rightarrow> Some (Inl Undefined) | r \<Rightarrow> r)"
proof -
  have "Suc 1638 = 1639" by simp
  with sample_loop_limit[where rd = rd and s = s and fo = fo and k = k and ms = 0 and fuel = 1638,
      OF assms]
  have "sample_loop fo rd 1639 k 0 s =
      (case sample_loop fo rd 1638 k 0 s of None \<Rightarrow> Some (Inl Undefined) | r \<Rightarrow> r)"
    "\<forall>e. sample_loop fo rd 1638 k 0 s \<noteq> Some (Inl e)" by simp_all
  then show ?thesis
    by (auto simp: soil_loop_def rbind_eq_Inl split: option.splits)
qed

text \<open>A pin that flips between the ends of its range.\<close>

theorem soil_loop_overflows_delay_witness:
  "(\<forall>e. soil_loop real_ops (\<lambda>i. if even i then 0 else 1023) 1638 0 soil_start \<noteq> Some (Inl e)) \<and>
    soil_loop real_ops (\<lambda>i. if even i then 0 else 1023) 1639 0 soil_start =
      (case soil_loop real_ops (\<lambda>i. if even i then 0 else 1023) 1638 0 soil_start of
         None \<Rightarrow> Some (Inl Undefined) | r \<Rightarrow> r)"
  by (rule soil_loop_overflows_delay) (simp_all add: adc_def calm_def ring_start list_all_iff)

end
