(* ===== verification/Frame_Jump.thy ===== *)
theory Frame_Jump
  imports C_Prelude
begin

text \<open>
  The programs of \<open>c/c_get_x64_stack_frame_pointer_rsp\<close>: \<open>main.c\<close> and \<open>unwind.c\<close> save where a
  frame of the stack lies, leave it with \<open>longjmp\<close> and abort, so that a debugger can look at what
  is left of it.

  The stack is the list of its bytes, from the frame of \<open>main\<close> on; of each byte the model keeps
  which function's frame wrote it last.  How large the compiler makes a frame is a parameter.  An
  address is the number of bytes below it; a frame's address is that of its first byte.  The
  unwinding library is a parameter too.
\<close>

unbundle bit_operations_syntax

datatype fn =
    F_main | F_caller | F_call_getframe | F_getframe | F_callee | F_crash
  | F_chainvolatile | F_chain2 | F_chaininline_alloca | F_chain_alloca | F_save_context_jump
  | F_clobber_stack

type_synonym frame_sizes = "fn \<Rightarrow> nat"

datatype printed = Out string | Err string | Err_address string nat

text \<open>\<open>sigjmp_b\<close> is the jump buffer: the depth of the frame that called \<open>sigsetjmp\<close>.\<close>

record frames =
  depth :: nat
  stack :: "fn list"
  sigjmp_b :: "nat option"
  last_jumped_from :: "nat option"
  printed :: "printed list"

text \<open>What a call does: it returns, jumps to the jump buffer, aborts, or exits.\<close>

datatype 's flow = Returned 's | Jumped 's | Aborted 's | Exited int 's | Broken

definition enter :: "frame_sizes \<Rightarrow> fn \<Rightarrow> 'z frames_scheme \<Rightarrow> 'z frames_scheme" where
  "enter sz f s =
     s\<lparr>depth := depth s + sz f,
       stack := take (depth s) (stack s) @ replicate (sz f) f @ drop (depth s + sz f) (stack s)\<rparr>"

definition leave :: "frame_sizes \<Rightarrow> fn \<Rightarrow> 'z frames_scheme \<Rightarrow> 'z frames_scheme" where
  "leave sz f s = s\<lparr>depth := depth s - sz f\<rparr>"

definition say :: "printed list \<Rightarrow> 'z frames_scheme \<Rightarrow> 'z frames_scheme" where
  "say ps s = s\<lparr>printed := printed s @ ps\<rparr>"

text \<open>A frame around a body; the frame is gone when the body returns.\<close>

definition in_frame ::
    "frame_sizes \<Rightarrow> fn \<Rightarrow> ('z frames_scheme \<Rightarrow> 'z frames_scheme flow) \<Rightarrow> 'z frames_scheme \<Rightarrow>
     'z frames_scheme flow" where
  "in_frame sz f body s =
     (case body (enter sz f s) of Returned s' \<Rightarrow> Returned (leave sz f s') | r \<Rightarrow> r)"

definition longjmp :: "'z frames_scheme \<Rightarrow> 'z frames_scheme flow" where
  "longjmp s = (case sigjmp_b s of None \<Rightarrow> Broken | Some d \<Rightarrow> Jumped (s\<lparr>depth := d\<rparr>))"

section \<open>main.c\<close>

definition crash :: "frame_sizes \<Rightarrow> 'z frames_scheme \<Rightarrow> 'z frames_scheme flow" where
  "crash sz = in_frame sz F_crash (\<lambda>s. Aborted (say
     [Out (''I'' @ [CHR 0x27] @ ''m going to crash: foo bar baz'' @ [NL])] s))"

definition callee :: "frame_sizes \<Rightarrow> 32 word \<Rightarrow> 'z frames_scheme \<Rightarrow> 'z frames_scheme flow" where
  "callee sz dojump = in_frame sz F_callee (\<lambda>s. if dojump \<noteq> 0 then longjmp s else Aborted s)"

text \<open>\<open>rand_value\<close> is what \<open>rand()\<close> returns.\<close>

definition getframe ::
    "frame_sizes \<Rightarrow> 32 word \<Rightarrow> 32 word \<Rightarrow> string \<Rightarrow> 32 word \<Rightarrow> 'z frames_scheme \<Rightarrow> 'z frames_scheme flow" where
  "getframe sz rand_value arg msg dojump s0 =
     in_frame sz F_getframe (\<lambda>s.
       let some_local = rand_value; current = depth s0 in
       callee sz dojump (say
         [Err_address ''frame'' current,
          Out (''arg   = '' @ show_int (sint arg) @ [NL]),
          Out (''rand  = '' @ show_int (sint some_local) @ [NL]),
          Out (''msg   = '' @ msg @ [NL])] (s\<lparr>last_jumped_from := Some current\<rparr>))) s0"

text \<open>The padding of 500 bytes belongs to the frame.\<close>

definition call_getframe ::
    "frame_sizes \<Rightarrow> 32 word \<Rightarrow> 32 word \<Rightarrow> string \<Rightarrow> 32 word \<Rightarrow> 'z frames_scheme \<Rightarrow> 'z frames_scheme flow" where
  "call_getframe sz rand_value arg msg dojump =
     in_frame sz F_call_getframe (getframe sz rand_value arg msg dojump)"

definition caller ::
    "frame_sizes \<Rightarrow> 32 word \<Rightarrow> 32 word \<Rightarrow> string \<Rightarrow> 32 word \<Rightarrow> 'z frames_scheme \<Rightarrow> 'z frames_scheme flow" where
  "caller sz rand_value arg msg dojump =
     in_frame sz F_caller (\<lambda>s.
       case call_getframe sz rand_value arg msg dojump (s\<lparr>sigjmp_b := Some (depth s)\<rparr>) of
         Jumped s' \<Rightarrow> crash sz s'
       | r \<Rightarrow> r)"

definition no_frames :: frames where
  "no_frames = \<lparr>depth = 0, stack = [], sigjmp_b = None, last_jumped_from = None, printed = []\<rparr>"

definition usage :: "string list \<Rightarrow> printed list" where
  "usage argv = [Err (''usage: '' @ (case argv of [] \<Rightarrow> ''(null)'' | prog # _ \<Rightarrow> prog) @
     '' <<int>> <<msg>> <<dojump>>'' @ [NL])]"

definition frame_main :: "frame_sizes \<Rightarrow> 32 word \<Rightarrow> string list \<Rightarrow> frames flow" where
  "frame_main sz rand_value argv =
     in_frame sz F_main (\<lambda>s.
       if length argv \<noteq> 4 then Exited 1 (say (usage argv) s)
       else caller sz rand_value (atoi (argv ! 2)) (argv ! 1) (atoi (argv ! 3)) s) no_frames"

section \<open>unwind.c\<close>

text \<open>
  A context is what \<open>unw_getcontext\<close> captures, a cursor what \<open>unw_init_local\<close> makes of it.  A
  step reads the stack; its result is positive when there is a further frame.
\<close>

record ('x, 'c) unwinder =
  unw_getcontext :: "frames \<Rightarrow> 'x"
  unw_init_local :: "'x \<Rightarrow> int \<times> 'c"
  unw_step :: "fn list \<Rightarrow> 'c \<Rightarrow> int \<times> 'c"
  unw_ip :: "'c \<Rightarrow> nat"
  unw_sp :: "'c \<Rightarrow> nat"
  unw_proc_name :: "nat \<Rightarrow> 'c \<Rightarrow> (string \<times> nat) option"

record 'x unw_frames = frames +
  unw_last_jumped_from :: "'x option"
  last_jumped_from_gcc :: "nat option"
  last_jumped_from_unwind :: "nat option"

text \<open>\<open>printstack\<close> runs on fuel: None is a trace that has not ended within it.\<close>

fun print_trace ::
    "('x, 'c) unwinder \<Rightarrow> nat \<Rightarrow> 'c \<Rightarrow> 'x unw_frames \<Rightarrow> 'x unw_frames option" where
  "print_trace u 0 curs s = None"
| "print_trace u (Suc fuel) curs s =
     (let (r, curs') = unw_step u (stack s) curs in
      if r \<le> 0 then Some s
      else print_trace u fuel curs'
             (say [Err_address ''    ip'' (unw_ip u curs'), Err_address ''sp'' (unw_sp u curs')] s))"

definition printstack ::
    "('x, 'c) unwinder \<Rightarrow> nat \<Rightarrow> 'x \<Rightarrow> 'x unw_frames \<Rightarrow> 'x unw_frames option" where
  "printstack u fuel ctx s =
     map_option (say [Err (''--end trace--'' @ [NL])])
       (print_trace u fuel (snd (unw_init_local u ctx)) (say [Err (''--begin trace--'' @ [NL])] s))"

definition unw_crash :: "frame_sizes \<Rightarrow> 'x unw_frames \<Rightarrow> 'x unw_frames flow" where
  "unw_crash sz = in_frame sz F_crash (\<lambda>s. Aborted (say
     [Out (''I'' @ [CHR 0x27] @ ''m going to crash: foo bar baz'' @ [NL])] s))"

definition unw_callee :: "frame_sizes \<Rightarrow> 32 word \<Rightarrow> 'x unw_frames \<Rightarrow> 'x unw_frames flow" where
  "unw_callee sz dojump = in_frame sz F_callee (\<lambda>s. if dojump \<noteq> 0 then longjmp s else Aborted s)"

definition unw_getframe ::
    "('x, 'c) unwinder \<Rightarrow> frame_sizes \<Rightarrow> 32 word \<Rightarrow> 32 word \<Rightarrow> string \<Rightarrow> 32 word \<Rightarrow>
     'x unw_frames \<Rightarrow> 'x unw_frames flow" where
  "unw_getframe u sz rand_value arg msg dojump s0 =
     in_frame sz F_getframe (\<lambda>s.
       let some_local = rand_value;
           current = depth s0;
           ctx = unw_getcontext u (frames.truncate s);
           curs = snd (unw_init_local u ctx);
           ip = unw_ip u curs;
           sp = unw_sp u curs
       in unw_callee sz dojump (say
            [Err_address ''rsp'' sp, Err_address ''rip'' ip,
             Out (''arg   = '' @ show_int (sint arg) @ [NL]),
             Out (''rand  = '' @ show_int (sint some_local) @ [NL]),
             Out (''msg   = '' @ msg @ [NL]),
             Err_address ''gccsp'' current]
            (s\<lparr>unw_last_jumped_from := Some ctx, last_jumped_from_unwind := Some sp,
               last_jumped_from_gcc := Some current\<rparr>))) s0"

text \<open>Only \<open>getframe\<close> has the argument itself: its callers hand its complement around.\<close>

definition unw_call_getframe ::
    "('x, 'c) unwinder \<Rightarrow> frame_sizes \<Rightarrow> 32 word \<Rightarrow> 32 word \<Rightarrow> string \<Rightarrow> 32 word \<Rightarrow>
     'x unw_frames \<Rightarrow> 'x unw_frames flow" where
  "unw_call_getframe u sz rand_value arg msg dojump =
     in_frame sz F_call_getframe (unw_getframe u sz rand_value (NOT arg) msg dojump)"

definition unw_caller ::
    "('x, 'c) unwinder \<Rightarrow> frame_sizes \<Rightarrow> 32 word \<Rightarrow> 32 word \<Rightarrow> string \<Rightarrow> 32 word \<Rightarrow>
     'x unw_frames \<Rightarrow> 'x unw_frames flow" where
  "unw_caller u sz rand_value arg msg dojump =
     in_frame sz F_caller (\<lambda>s.
       case unw_call_getframe u sz rand_value arg msg dojump (s\<lparr>sigjmp_b := Some (depth s)\<rparr>) of
         Jumped s' \<Rightarrow> unw_crash sz s'
       | r \<Rightarrow> r)"

definition no_unw_frames :: "'x unw_frames" where
  "no_unw_frames = frames.extend no_frames
     (unw_frames.fields None None None)"

text \<open>\<open>context_size\<close> is the size of a context, which is printed first.\<close>

definition unwind_main ::
    "('x, 'c) unwinder \<Rightarrow> nat \<Rightarrow> frame_sizes \<Rightarrow> 32 word \<Rightarrow> string list \<Rightarrow> 'x unw_frames flow" where
  "unwind_main u context_size sz rand_value argv =
     in_frame sz F_main (\<lambda>s.
       if length argv \<noteq> 4 then Exited 1 (say (usage argv) s)
       else unw_caller u sz rand_value (NOT (atoi (argv ! 2))) (argv ! 1) (atoi (argv ! 3))
              (say [Err (''sizeof(unw_context_t) = '' @ show_int (int context_size) @ [NL])] s))
       no_unw_frames"

end
