(* ===== verification/Unwind_Test.thy ===== *)
theory Unwind_Test
  imports Frame_Jump Proc_Report
begin

text \<open>
  \<open>testcases/unwind_test.c\<close>: a chain of calls captures its context and jumps back to \<open>main\<close>,
  which overwrites the stack below it and then walks the captured context.  Frames and the
  unwinding library are those of \<open>Frame_Jump\<close>; the space that \<open>alloca\<close> takes belongs to the frame.
\<close>

record 'x test_frames = frames +
  ctx :: "'x option"

definition MAX_FUNCNAME_LENGTH :: nat where
  "MAX_FUNCNAME_LENGTH = 100"

text \<open>\<open>capture\<close> is \<open>unw_getcontext\<close>, whose result is 0 when it succeeds.\<close>

definition save_context_jump ::
    "(frames \<Rightarrow> int \<times> 'x) \<Rightarrow> frame_sizes \<Rightarrow> 'x test_frames \<Rightarrow> 'x test_frames flow" where
  "save_context_jump capture sz =
     in_frame sz F_save_context_jump (\<lambda>s.
       let (r, x) = capture (frames.truncate s); s1 = s\<lparr>ctx := Some x\<rparr> in
       if r \<noteq> 0 then Exited 1 (say [Out (''unw_getcontext() failed'' @ [NL])] s1)
       else longjmp s1)"

definition chain_alloca ::
    "(frames \<Rightarrow> int \<times> 'x) \<Rightarrow> frame_sizes \<Rightarrow> 'x test_frames \<Rightarrow> 'x test_frames flow" where
  "chain_alloca capture sz = in_frame sz F_chain_alloca (save_context_jump capture sz)"

definition chaininline_alloca ::
    "(frames \<Rightarrow> int \<times> 'x) \<Rightarrow> frame_sizes \<Rightarrow> 'x test_frames \<Rightarrow> 'x test_frames flow" where
  "chaininline_alloca capture sz = in_frame sz F_chaininline_alloca (chain_alloca capture sz)"

definition chain2 ::
    "(frames \<Rightarrow> int \<times> 'x) \<Rightarrow> frame_sizes \<Rightarrow> 'x test_frames \<Rightarrow> 'x test_frames flow" where
  "chain2 capture sz =
     in_frame sz F_chain2 (\<lambda>s.
       case chaininline_alloca capture sz s of
         Returned s' \<Rightarrow> Returned (say [Out ''life''] s')
       | r \<Rightarrow> r)"

definition chainvolatile ::
    "(frames \<Rightarrow> int \<times> 'x) \<Rightarrow> frame_sizes \<Rightarrow> 'x test_frames \<Rightarrow> 'x test_frames flow" where
  "chainvolatile capture sz = in_frame sz F_chainvolatile (chain2 capture sz)"

section \<open>Walking the context\<close>

definition hex :: "nat \<Rightarrow> string" where
  "hex n = ''0x'' @ show_base 16 n"

text \<open>One line: \<open>%4d\<close>, \<open>%30s\<close> and \<open>%-4ld\<close>.\<close>

definition frame_line :: "nat \<Rightarrow> (string \<times> nat) option \<Rightarrow> nat \<Rightarrow> nat \<Rightarrow> string" where
  "frame_line frameno proc_name ip sp =
     [NL, CHR 0x09] @ ''FRAME '' @ pad_left 4 (show_int (int frameno)) @ '': '' @
     (case proc_name of
        Some (frame_funcname, offp) \<Rightarrow>
          pad_left 30 frame_funcname @ '' +'' @ pad_right 4 (show_int (int offp)) @ '' ''
      | None \<Rightarrow> ''< ?? > '') @
     ''ip='' @ hex ip @ '' sp='' @ hex sp"

text \<open>The loop of \<open>print_context\<close> on fuel.\<close>

fun frame_lines ::
    "('x, 'c) unwinder \<Rightarrow> nat \<Rightarrow> nat \<Rightarrow> 'c \<Rightarrow> 'x test_frames \<Rightarrow> 'x test_frames option" where
  "frame_lines u 0 frameno cursor s = None"
| "frame_lines u (Suc fuel) frameno cursor s =
     (let (r, cursor') = unw_step u (stack s) cursor in
      if r \<le> 0 then Some (say [Out [NL]] s)
      else frame_lines u fuel (Suc frameno) cursor'
             (say [Out (frame_line frameno (unw_proc_name u MAX_FUNCNAME_LENGTH cursor')
                (unw_ip u cursor') (unw_sp u cursor'))] s))"

definition print_contexts ::
    "('x, 'c) unwinder \<Rightarrow> nat \<Rightarrow> 'x test_frames \<Rightarrow> 'x test_frames flow option" where
  "print_contexts u fuel s =
     (case ctx s of
        None \<Rightarrow> Some Broken
      | Some x \<Rightarrow>
          (let (r, cursor) = unw_init_local u x in
           if r \<noteq> 0 then Some (Exited 1 (say [Out (''unw_init_local failed'' @ [NL])] s))
           else map_option Returned (frame_lines u fuel 0 cursor s)))"

text \<open>Three thousand bytes are written, an array and a block of \<open>alloca\<close>; both belong to the frame.\<close>

definition clobber_stack :: "frame_sizes \<Rightarrow> 'x test_frames \<Rightarrow> 'x test_frames flow" where
  "clobber_stack sz = in_frame sz F_clobber_stack Returned"

text \<open>\<open>exit(0)\<close> ends the jumped branch; otherwise \<open>main\<close> returns, which exits with 0 too.\<close>

definition test_main ::
    "('x, 'c) unwinder \<Rightarrow> (frames \<Rightarrow> int \<times> 'x) \<Rightarrow> nat \<Rightarrow> frame_sizes \<Rightarrow> 'x test_frames flow option" where
  "test_main u capture fuel sz =
     (let s = enter sz F_main (frames.extend no_frames (test_frames.fields None));
          s1 = s\<lparr>sigjmp_b := Some (depth s)\<rparr>
      in case chainvolatile capture sz s1 of
           Jumped s2 \<Rightarrow>
             (case clobber_stack sz s2 of
                Returned s3 \<Rightarrow>
                  map_option (\<lambda>r. case r of Returned s4 \<Rightarrow> Exited 0 s4 | r \<Rightarrow> r)
                    (print_contexts u fuel s3)
              | r \<Rightarrow> Some r)
         | Returned s2 \<Rightarrow> Some (Exited 0 s2)
         | r \<Rightarrow> Some r)"

end
