(* ===== verification/Frame_Laws.thy ===== *)
theory Frame_Laws
  imports Unwind_Test
begin



lemma drop_replicate_append:
  "drop n (replicate m x @ ys) = replicate (m - n) x @ drop (n - m) ys"
  by simp



section \<open>Properties of main.c and unwind.c\<close>




section \<open>unwind_test.c\<close>

lemmas test_defs = chainvolatile_def chain2_def chaininline_alloca_def chain_alloca_def
  save_context_jump_def clobber_stack_def print_contexts_def

text \<open>The cursor after \<open>i\<close> steps, and the lines that the first \<open>n\<close> frames print.\<close>

definition cursor_at :: "('x, 'c) unwinder \<Rightarrow> fn list \<Rightarrow> 'c \<Rightarrow> nat \<Rightarrow> 'c" where
  "cursor_at u st cursor i = ((\<lambda>k. snd (unw_step u st k)) ^^ i) cursor"

definition lines_of :: "('x, 'c) unwinder \<Rightarrow> fn list \<Rightarrow> 'c \<Rightarrow> nat \<Rightarrow> nat \<Rightarrow> printed list" where
  "lines_of u st cursor frameno n =
     map (\<lambda>i. let k = cursor_at u st cursor (Suc i) in
            Out (frame_line (frameno + i) (unw_proc_name u MAX_FUNCNAME_LENGTH k) (unw_ip u k) (unw_sp u k)))
       [0..<n]"

text \<open>The unwinder finds \<open>n\<close> frames behind the cursor.\<close>

definition finds :: "('x, 'c) unwinder \<Rightarrow> fn list \<Rightarrow> 'c \<Rightarrow> nat \<Rightarrow> bool" where
  "finds u st cursor n \<longleftrightarrow>
     (\<forall>i < n. 0 < fst (unw_step u st (cursor_at u st cursor i))) \<and>
     fst (unw_step u st (cursor_at u st cursor n)) \<le> 0"

lemma cursor_at_0 [simp]: "cursor_at u st cursor 0 = cursor"
  by (simp add: cursor_at_def)

lemma cursor_at_Suc: "cursor_at u st cursor (Suc i) = cursor_at u st (snd (unw_step u st cursor)) i"
  unfolding cursor_at_def by (simp only: funpow_Suc_right comp_def)

lemma finds_Suc:
  "finds u st cursor (Suc n) \<longleftrightarrow>
     0 < fst (unw_step u st cursor) \<and> finds u st (snd (unw_step u st cursor)) n"
  by (auto simp: finds_def cursor_at_Suc less_Suc_eq_0_disj)

lemma lines_of_Suc:
  "lines_of u st cursor frameno (Suc n) =
     (let k = snd (unw_step u st cursor) in
      Out (frame_line frameno (unw_proc_name u MAX_FUNCNAME_LENGTH k) (unw_ip u k) (unw_sp u k)) #
      lines_of u st k (Suc frameno) n)"
  by (simp add: lines_of_def cursor_at_Suc Let_def upt_conv_Cons map_Suc_upt[symmetric] comp_def
      del: upt_Suc)

lemma frame_lines_finds:
  "finds u (stack s) cursor n \<Longrightarrow>
     frame_lines u fuel frameno cursor s =
       (if n < fuel then Some (say (lines_of u (stack s) cursor frameno n @ [Out [NL]]) s) else None)"
proof (induction fuel arbitrary: frameno cursor s n)
  case (Suc fuel)
  show ?case
  proof (cases n)
    case 0
    then show ?thesis
      using Suc.prems by (simp add: finds_def lines_of_def split_beta)
  next
    case (Suc m)
    let ?k = "snd (unw_step u (stack s) cursor)"
    let ?s = "say [Out (frame_line frameno (unw_proc_name u MAX_FUNCNAME_LENGTH ?k)
        (unw_ip u ?k) (unw_sp u ?k))] s"
    have st: "stack ?s = stack s" by (simp add: say_def)
    have f: "0 < fst (unw_step u (stack s) cursor)" "finds u (stack ?s) ?k m"
      using Suc.prems Suc by (simp_all add: finds_Suc st)
    from Suc.IH[OF f(2), of "Suc frameno"] f(1) Suc st show ?thesis
      by (simp add: split_beta lines_of_Suc Let_def say_def)
  qed
qed simp

definition chain_bytes :: "frame_sizes \<Rightarrow> fn list" where
  "chain_bytes sz =
     concat (map (\<lambda>f. replicate (sz f) f)
       [F_chainvolatile, F_chain2, F_chaininline_alloca, F_chain_alloca, F_save_context_jump])"

text \<open>The frames that are captured, and the stack that the captured context is walked on.\<close>

definition deepest :: "frame_sizes \<Rightarrow> frames" where
  "deepest sz = \<lparr>depth = sz F_main + length (chain_bytes sz),
     stack = replicate (sz F_main) F_main @ chain_bytes sz, sigjmp_b = Some (sz F_main),
     last_jumped_from = None, printed = []\<rparr>"

definition clobbered :: "frame_sizes \<Rightarrow> fn list" where
  "clobbered sz = replicate (sz F_main) F_main @ replicate (sz F_clobber_stack) F_clobber_stack @
     drop (sz F_clobber_stack) (chain_bytes sz)"

lemma enter_top:
  "d = length st \<Longrightarrow>
   enter sz f \<lparr>depth = d, stack = st, sigjmp_b = a, last_jumped_from = l, printed = p, \<dots> = z\<rparr> =
     \<lparr>depth = d + sz f, stack = st @ replicate (sz f) f, sigjmp_b = a, last_jumped_from = l,
      printed = p, \<dots> = z\<rparr>"
  by (simp add: enter_def)

lemma in_frame_jumps: "body (enter sz f s) = Jumped s' \<Longrightarrow> in_frame sz f body s = Jumped s'"
  by (simp add: in_frame_def)

lemma chain_jumps:
  assumes "capture (deepest sz) = (0, x)"
  shows "chainvolatile capture sz
      \<lparr>depth = sz F_main, stack = replicate (sz F_main) F_main, sigjmp_b = Some (sz F_main),
       last_jumped_from = None, printed = [], ctx = None\<rparr> =
    Jumped \<lparr>depth = sz F_main, stack = replicate (sz F_main) F_main @ chain_bytes sz,
       sigjmp_b = Some (sz F_main), last_jumped_from = None, printed = [], ctx = Some x\<rparr>"
  using assms
  by (simp add: test_defs in_frame_def enter_top deepest_def chain_bytes_def frames.defs longjmp_def add.assoc)

lemma clobber_over_chain:
  "clobber_stack sz \<lparr>depth = sz F_main, stack = replicate (sz F_main) F_main @ chain_bytes sz,
       sigjmp_b = Some (sz F_main), last_jumped_from = None, printed = [], ctx = Some x\<rparr> =
   Returned \<lparr>depth = sz F_main, stack = clobbered sz,
       sigjmp_b = Some (sz F_main), last_jumped_from = None, printed = [], ctx = Some x\<rparr>"
  by (simp add: clobber_stack_def in_frame_def enter_def leave_def clobbered_def)

text \<open>\<open>unwind_test.c\<close> jumps out of its chain of calls, overwrites the stack below \<open>main\<close> and then
  prints one numbered line for every frame the unwinding library finds from the captured context on
  the overwritten stack, in order, and exits with 0.  When the overwriting frame is as large as the
  chain, nothing the chain left on the stack is there for the library to read.\<close>

lemma unwind_test_walks_clobbered_stack:
  assumes "capture (deepest sz) = (0, x)" and "unw_init_local u x = (0, k)"
    and "finds u (clobbered sz) k n" and "n < fuel"
  shows "\<exists>s. test_main u capture fuel sz = Some (Exited 0 s) \<and> stack s = clobbered sz \<and>
    printed s = lines_of u (clobbered sz) k 0 n @ [Out [NL]] \<and>
    (length (chain_bytes sz) \<le> sz F_clobber_stack \<longrightarrow> set (stack s) \<subseteq> {F_main, F_clobber_stack})"
proof -
  let ?s = "\<lparr>depth = sz F_main, stack = clobbered sz, sigjmp_b = Some (sz F_main),
    last_jumped_from = None, printed = [], ctx = Some x\<rparr>"
  have "test_main u capture fuel sz =
      map_option (\<lambda>r. case r of Returned s4 \<Rightarrow> Exited 0 s4 | r \<Rightarrow> r) (print_contexts u fuel ?s)"
    using chain_jumps[where capture = capture and sz = sz and x = x, OF assms(1)] clobber_over_chain[of sz x]
    by (simp add: test_main_def no_frames_def enter_top frames.defs test_frames.defs)
  moreover have "print_contexts u fuel ?s =
      Some (Returned (say (lines_of u (clobbered sz) k 0 n @ [Out [NL]]) ?s))"
    using assms(2-4) frame_lines_finds[of u ?s k n fuel 0] by (simp add: print_contexts_def)
  moreover have "set (clobbered sz) \<subseteq> {F_main, F_clobber_stack}"
    if "length (chain_bytes sz) \<le> sz F_clobber_stack"
    using that by (auto simp: clobbered_def)
  ultimately show ?thesis by (auto simp: say_def)
qed

end
