(* ===== verification/Sdt_Noop.thy ===== *)
theory Sdt_Noop
  imports C_Prelude
begin

text \<open>
  \<open>testcases/dtrace_usdt_sdt_noop/sdt_noop.c\<close>: seven functions with a tracing probe each, in the
  three builds of its Makefile.  The probes come from a header that the build generates: in the
  build with probes a probe evaluates its arguments and reports them, with semaphores only when a
  tracer has set the probe's semaphore, and the stubs of the build without probes are empty inline
  functions, which still take their arguments.  When tracers set the semaphores is a parameter: a
  function of the probe and of how many semaphores have been tested before.

  The end of the file holds the properties: which probes fire, and that the builds differ in nothing
  else unless a probe's argument has no value.
\<close>

datatype variant = Disabled | Enabled | Semaphores

datatype probe =
    No_args | With_args | With_global_arg | With_volatile_arg | With_many_args | With_computed_arg
  | With_pointer_chasing

text \<open>Where the pointers of \<open>main\<close> point: its three local variables and the allocated block.\<close>

datatype loc = Some_value | Some_value_p | Some_value_pp | Block

datatype cell = Int_cell "32 word" | Ptr_cell loc

record sdt =
  some_global :: "32 word"
  cells :: "loc \<Rightarrow> cell option"
  tests :: nat
  computed :: nat
  fired :: "(probe \<times> int list) list"

type_synonym args = "sdt \<Rightarrow> (int list \<times> sdt) res"

text \<open>A probe's arguments are evaluated where the probe stands, if at all.\<close>

definition fire :: "probe \<Rightarrow> args \<Rightarrow> sdt \<Rightarrow> sdt res" where
  "fire p args s = rbind (args s) (\<lambda>(vs, s1). Inr (s1\<lparr>fired := fired s1 @ [(p, vs)]\<rparr>))"

definition probe_site :: "variant \<Rightarrow> (probe \<Rightarrow> nat \<Rightarrow> bool) \<Rightarrow> probe \<Rightarrow> args \<Rightarrow> sdt \<Rightarrow> sdt res" where
  "probe_site v sem p args s =
     (case v of
        Disabled \<Rightarrow> rbind (args s) (\<lambda>(vs, s1). Inr s1)
      | Enabled \<Rightarrow> fire p args s
      | Semaphores \<Rightarrow>
          (let s1 = s\<lparr>tests := Suc (tests s)\<rparr>
           in if sem p (tests s) then fire p args s1 else Inr s1))"

definition constants :: "int list \<Rightarrow> args" where
  "constants vs s = Inr (vs, s)"

definition no_args :: "variant \<Rightarrow> (probe \<Rightarrow> nat \<Rightarrow> bool) \<Rightarrow> sdt \<Rightarrow> sdt res" where
  "no_args v sem = probe_site v sem No_args (constants [])"

definition with_args :: "variant \<Rightarrow> (probe \<Rightarrow> nat \<Rightarrow> bool) \<Rightarrow> sdt \<Rightarrow> (32 word \<times> sdt) res" where
  "with_args v sem s =
     (let arg1 = 0; arg2 = 1; arg3 = 2 :: 32 word
      in rbind (probe_site v sem With_args (constants [sint arg1, sint arg2, sint arg3]) s)
           (\<lambda>s1. Inr (arg1 + arg2 + arg3, s1)))"

definition with_global_arg :: "variant \<Rightarrow> (probe \<Rightarrow> nat \<Rightarrow> bool) \<Rightarrow> sdt \<Rightarrow> (32 word \<times> sdt) res" where
  "with_global_arg v sem s =
     rbind (probe_site v sem With_global_arg (\<lambda>t. Inr ([sint (some_global t)], t)) s)
       (\<lambda>s1. Inr (some_global s1, s1))"

definition with_volatile_arg :: "variant \<Rightarrow> (probe \<Rightarrow> nat \<Rightarrow> bool) \<Rightarrow> sdt \<Rightarrow> (32 word \<times> sdt) res" where
  "with_volatile_arg v sem s =
     (let arg1 = 42 :: 32 word
      in rbind (probe_site v sem With_volatile_arg (constants [sint arg1]) s)
           (\<lambda>s1. Inr (arg1, s1)))"

definition with_many_args :: "variant \<Rightarrow> (probe \<Rightarrow> nat \<Rightarrow> bool) \<Rightarrow> sdt \<Rightarrow> sdt res" where
  "with_many_args v sem = probe_site v sem With_many_args (constants [1, 2, 3, 4, 5, 6, 7, 8])"

definition compute_probe_argument :: args where
  "compute_probe_argument s = Inr ([100], s\<lparr>computed := Suc (computed s)\<rparr>)"

definition with_computed_arg :: "variant \<Rightarrow> (probe \<Rightarrow> nat \<Rightarrow> bool) \<Rightarrow> sdt \<Rightarrow> sdt res" where
  "with_computed_arg v sem = probe_site v sem With_computed_arg compute_probe_argument"

definition load_ptr :: "loc option \<Rightarrow> sdt \<Rightarrow> loc option res" where
  "load_ptr a s =
     (case a of
        None \<Rightarrow> Inl Undefined
      | Some l \<Rightarrow> (case cells s l of Some (Ptr_cell p) \<Rightarrow> Inr (Some p) | _ \<Rightarrow> Inl Undefined))"

definition load_int :: "loc option \<Rightarrow> sdt \<Rightarrow> 32 word res" where
  "load_int a s =
     (case a of
        None \<Rightarrow> Inl Undefined
      | Some l \<Rightarrow> (case cells s l of Some (Int_cell n) \<Rightarrow> Inr n | _ \<Rightarrow> Inl Undefined))"

text \<open>\<open>****arg\<close>; None is a null pointer.\<close>

definition deref4 :: "loc option \<Rightarrow> args" where
  "deref4 arg s =
     rbind (load_ptr arg s) (\<lambda>a. rbind (load_ptr a s) (\<lambda>a. rbind (load_ptr a s) (\<lambda>a.
       rbind (load_int a s) (\<lambda>n. Inr ([sint n], s)))))"

definition with_pointer_chasing ::
    "variant \<Rightarrow> (probe \<Rightarrow> nat \<Rightarrow> bool) \<Rightarrow> loc option \<Rightarrow> sdt \<Rightarrow> sdt res" where
  "with_pointer_chasing v sem arg = probe_site v sem With_pointer_chasing (deref4 arg)"

text \<open>Lines 125-131: \<open>allocated\<close> says whether \<open>malloc\<close> gave a block, which is not tested.\<close>

definition chase :: "variant \<Rightarrow> (probe \<Rightarrow> nat \<Rightarrow> bool) \<Rightarrow> bool \<Rightarrow> sdt \<Rightarrow> sdt res" where
  "chase v sem allocated s =
     check allocated Undefined
       (let s1 = s\<lparr>cells := (cells s)(Some_value \<mapsto> Ptr_cell Block, Block \<mapsto> Int_cell 0x7f,
              Some_value_p \<mapsto> Ptr_cell Some_value, Some_value_pp \<mapsto> Ptr_cell Some_value_p)\<rparr>
        in rbind (with_pointer_chasing v sem (Some Some_value_pp) s1)
             (\<lambda>s2. Inr (s2\<lparr>cells := (cells s2)(Block := None)\<rparr>)))"

definition sdt_start :: sdt where
  "sdt_start = \<lparr>some_global = 0, cells = Map.empty, tests = 0, computed = 0, fired = []\<rparr>"

definition sdt_main :: "variant \<Rightarrow> (probe \<Rightarrow> nat \<Rightarrow> bool) \<Rightarrow> bool \<Rightarrow> 32 word \<Rightarrow> sdt res" where
  "sdt_main v sem allocated argc =
     rbind (no_args v sem sdt_start) (\<lambda>s.
     rbind (with_args v sem s) (\<lambda>(_, s).
     rbind (with_many_args v sem s) (\<lambda>s.
     rbind (with_global_arg v sem (s\<lparr>some_global := argc\<rparr>)) (\<lambda>(_, s).
     rbind (with_volatile_arg v sem s) (\<lambda>(_, s).
     rbind (with_many_args v sem s) (\<lambda>s.
     rbind (with_computed_arg v sem s) (\<lambda>s.
       chase v sem allocated s)))))))"

section \<open>Properties\<close>

text \<open>What a probe would report, in the order the program reaches the probes.\<close>

definition sites :: "32 word \<Rightarrow> (probe \<times> int list) list" where
  "sites argc =
     [(No_args, []), (With_args, [0, 1, 2]), (With_many_args, [1, 2, 3, 4, 5, 6, 7, 8]),
      (With_global_arg, [sint argc]), (With_volatile_arg, [42]),
      (With_many_args, [1, 2, 3, 4, 5, 6, 7, 8]), (With_computed_arg, [100]),
      (With_pointer_chasing, [127])]"

definition traced :: "variant \<Rightarrow> (probe \<Rightarrow> nat \<Rightarrow> bool) \<Rightarrow> nat \<Rightarrow> probe \<Rightarrow> bool" where
  "traced v sem i p =
     (case v of Disabled \<Rightarrow> False | Enabled \<Rightarrow> True | Semaphores \<Rightarrow> sem p i)"

definition site_log :: "variant \<Rightarrow> (probe \<Rightarrow> nat \<Rightarrow> bool) \<Rightarrow> nat \<Rightarrow> probe \<times> int list \<Rightarrow> (probe \<times> int list) list" where
  "site_log v sem i st = (if traced v sem i (fst st) then [st] else [])"

text \<open>A probe whose arguments have a value changes the trace and the counters only.\<close>

definition passed :: "variant \<Rightarrow> (probe \<Rightarrow> nat \<Rightarrow> bool) \<Rightarrow> probe \<times> int list \<Rightarrow> sdt \<Rightarrow> sdt" where
  "passed v sem st s =
     s\<lparr>tests := tests s + (if v = Semaphores then 1 else 0),
       fired := fired s @ site_log v sem (tests s) st\<rparr>"

lemma probe_passes:
  assumes "\<And>t. args (s\<lparr>tests := t\<rparr>) = Inr (vs, s\<lparr>tests := t\<rparr>)"
  shows "probe_site v sem p args s = Inr (passed v sem (p, vs) s)"
  using assms[of "tests s"] assms[of "Suc (tests s)"]
  by (cases v) (simp_all add: probe_site_def fire_def passed_def site_log_def traced_def Let_def)

lemma passed_simps [simp]:
  "tests (passed v sem st s) = tests s + (if v = Semaphores then 1 else 0)"
  "fired (passed v sem st s) = fired s @ site_log v sem (tests s) st"
  "some_global (passed v sem st s) = some_global s" "cells (passed v sem st s) = cells s"
  "computed (passed v sem st s) = computed s"
  by (simp_all add: passed_def)

lemma computed_passes:
  "with_computed_arg v sem s = Inr (passed v sem (With_computed_arg, [100])
     (s\<lparr>computed := computed s + (if v \<noteq> Semaphores \<or> sem With_computed_arg (tests s) then 1 else 0)\<rparr>))"
  by (cases v) (simp_all add: with_computed_arg_def compute_probe_argument_def probe_site_def fire_def
      passed_def site_log_def traced_def Let_def)

lemma chase_passes:
  "chase v sem True s = Inr ((passed v sem (With_pointer_chasing, [127]) s)\<lparr>cells :=
     (cells s)(Some_value \<mapsto> Ptr_cell Block, Some_value_p \<mapsto> Ptr_cell Some_value,
       Some_value_pp \<mapsto> Ptr_cell Some_value_p, Block := None)\<rparr>)"
  by (cases v) (simp_all add: chase_def with_pointer_chasing_def deref4_def load_ptr_def load_int_def
      probe_site_def fire_def passed_def site_log_def traced_def Let_def fun_upd_twist)

lemmas site_defs = no_args_def with_args_def with_many_args_def with_global_arg_def
  with_volatile_arg_def constants_def

text \<open>C20: in every build the program runs through, leaves its memory and \<open>some_global\<close> in the same state,
  and fires exactly the probes that are traced: none in the stub build, all eight sites in the build
  without semaphores, and with semaphores those whose semaphore is set when they are reached, in
  order and with the values of their arguments.  The argument that must be computed is computed
  unless a semaphore guards it and is not set.\<close>

theorem sdt_main_fires:
  "\<exists>s. sdt_main v sem True argc = Inr s \<and> some_global s = argc \<and>
     cells s = [Some_value \<mapsto> Ptr_cell Block, Some_value_p \<mapsto> Ptr_cell Some_value,
       Some_value_pp \<mapsto> Ptr_cell Some_value_p] \<and>
     fired s = concat (map (\<lambda>(i, st). site_log v sem i st) (enumerate 0 (sites argc))) \<and>
     computed s = (if v = Semaphores \<and> \<not> sem With_computed_arg 6 then 0 else 1)"
proof -
  have six: "(6 :: nat) = Suc (Suc (Suc (Suc (Suc (Suc 0)))))" by simp
  have free: "[Some_value \<mapsto> x, Some_value_p \<mapsto> y, Some_value_pp \<mapsto> z](Block := None) =
      [Some_value \<mapsto> x, Some_value_p \<mapsto> y, Some_value_pp \<mapsto> z]" for x y z :: cell
    by auto
  show ?thesis
  proof (cases v)
    case Semaphores
    then show ?thesis
      by (simp only: six) (simp add: sdt_main_def site_defs probe_passes computed_passes chase_passes
          sdt_start_def sites_def free)
  qed (simp_all add: sdt_main_def site_defs probe_passes computed_passes chase_passes sdt_start_def
      sites_def free site_log_def traced_def)
qed




end
