(* ===== verification/Spec2Isabelle.thy ===== *)
theory Spec2Isabelle
  imports Async_Properties Dht22_Properties Fork_Cow_Properties Overcommit Guard_Properties
    Try_Macros Fsync_Test Generic_Typename Pg_Functions Pg_Server Spi_Leds Soil_Laws Frame_Laws
    Sdt_Noop
begin

text \<open>
  A verification development for the C programs of the repository, a collection of small
  stand-alone programs, server extensions and microcontroller sketches.  They share no code, so the
  development has one group of theories for each program and a common prelude.

  \<^bold>\<open>The prelude.\<close>  \<open>C_Prelude\<close> holds how a C computation stops (a failed assertion,
  \<open>exit\<close>, \<open>abort\<close>, undefined behaviour; otherwise it returns a value), \<open>strtol\<close>, \<open>atoi\<close>,
  \<open>strncpy\<close>, \<open>snprintf\<close> and decimal and hexadecimal output, with the round trip between
  them.  \<open>Fifo\<close> and \<open>Scope_Stack\<close> are the contracts, as locales, of a queue and of a stack of
  scopes, \<open>Simulation\<close> that of a refinement step by step, which then holds for any sequence of
  operations.  \<open>Transition\<close> has those of a step relation: an inductive invariant, and an action that
  helps, by which a fair run gets from one predicate to another.

  \<^bold>\<open>The pipelined query client\<close> (\<open>postgresql/blog_libpq_pipeline/async_sample.c\<close>).
  \<open>Async_Queue\<close>: the intrusive linked list of pending queries over a heap of addresses, the
  enqueue functions, the free callbacks and the error exit (\<open>push_query_queue_item\<close>,
  \<open>pop_query_queue_item\<close>, \<open>kill_sessions\<close>, \<open>error_die\<close>).  \<open>Async_Queue_Laws\<close>: which list a
  heap holds, and that the queue interprets \<open>Fifo.fifo_queue\<close>.  \<open>Async_Session\<close>: the state
  machine \<open>service_session\<close> with its callbacks, the main loop's pass and the start-up; libpq is
  a record of functions on a connection state.  \<open>Async_Main\<close>: the whole main loop, against any
  sequence of answers of \<open>poll()\<close>, and \<open>main\<close>.  \<open>Async_Refinement\<close>: the queue with its
  allocations interprets \<open>Simulation.simulation\<close> over a list of query texts.
  \<open>Async_Session_Laws\<close> and \<open>Async_Properties\<close>: order of the queries, memory that is freed, one
  item popped for each end of results, and what goes wrong, up to the run of the whole program.  The
  file does not compile as it stands; the theories say which reading is taken (the missing brace in the enqueue, \<open>QUERY_SENT\<close> for \<open>SESSION_QUEUED\<close>,
  callbacks taken from the queue's head, names of undeclared variables).

  \<^bold>\<open>The sensor reader\<close> (\<open>arduino_avr/RHT03_DHT22_humidity_temp_sensor.c\<close>).  \<open>Dht22\<close>:
  the interrupt routine, the request, the polling loop, the decoder and the sketch, with 16-bit
  integers and 32-bit clock values; the pins, the clock and the interrupts are arguments.
  \<open>Dht22_Laws\<close>: the abstract view of a frame (\<open>frame_bits\<close>, \<open>sent_frame\<close>,
  \<open>frame_reading\<close>) and that the decoder computes it.  \<open>Dht22_Properties\<close>: the decoding of
  frames, from the pulses on the line to the reading, rejection, what a failed read leaves alone,
  the capacity of the capture, and that ten turns of the polling loop are enough when
  \<open>delay(100)\<close> takes its time (fuel 10).

  \<^bold>\<open>The memory demos\<close> (\<open>postgresql/memory_accounting_demos\<close>).  \<open>Proc_Report\<close>: the
  \<open>/proc\<close> readers with \<open>fgets\<close> and \<open>fscanf\<close>.  \<open>Fork_Cow\<close>: \<open>main\<close> of
  \<open>fork_cow_demo.c\<close> in phases over the private chunks of a process and the shared segment; the
  kernel is a record of results.  The interactive loop runs on fuel, since nothing but the user
  ends it.  \<open>Fork_Signal\<close>: the handshake of parent and child as a step relation, and
  \<open>Fork_Sighup\<close>: the daemon's loop and the signal that asks for a report; fair runs of both.
  \<open>Fork_Cow_Laws\<close> and \<open>Fork_Cow_Properties\<close>: arguments, isolation after the fork, the layout
  of the segment, the end of the loop, the report's lines, what a whole run takes and gives back,
  the races, and what every fair run comes to.
  \<open>Overcommit\<close>: the other demo, and which processes its clean-up reaches.

  \<^bold>\<open>Guards and jumps\<close> (\<open>c/clang_return_stack_checks\<close>).  \<open>Guard_Stack\<close>: \<open>guard.h\<close>,
  \<open>guard.c\<close> and the programs that leak a pointer into a dead frame, with their compile-time
  switches as arguments.  \<open>Guard_Properties\<close>: the guards interpret \<open>Scope_Stack.scope_stack\<close>,
  and what each program detects.  \<open>Try_Macros\<close>: \<open>TEST_TRY\<close>, \<open>TEST_CATCH\<close>,
  \<open>TEST_FINALLY\<close> and \<open>TEST_END_TRY\<close> as functions of the blocks they enclose; any nesting of blocks
  that keep the exception stack keeps it.

  \<^bold>\<open>The others.\<close>  \<open>Fsync_Test\<close>: \<open>testcases/fsync-error-clear/standalone\<close>, over any kernel, and its
  verdict on two kernels (fuel: one turn for each good block and two more).
  \<open>Generic_Typename\<close>: \<open>c/c11_generic_typename\<close>, and that its type names are sound.
  \<open>Pg_Functions\<close>: the small server functions under \<open>postgresql/\<close>.  \<open>Pg_Server\<close>: the modules
  that report through \<open>ereport\<close>, the statement hook in its two versions among them.
  \<open>Spi_Leds\<close>: \<open>Arduino_Tutorial_CIRC05_hardware_spi.c\<close>.  \<open>Soil_Moisture\<close> and \<open>Soil_Laws\<close>: the soil
  moisture sketch; its ring buffer interprets \<open>Simulation.simulation\<close> over the window of the last
  ten readings, and its loop overflows a counter after 1638 of them.  \<open>Frame_Jump\<close>,
  \<open>Unwind_Test\<close> and \<open>Frame_Laws\<close>: \<open>c/c_get_x64_stack_frame_pointer_rsp\<close> and
  \<open>testcases/unwind_test.c\<close> over a stack whose bytes remember the frame that wrote them.
  \<open>Sdt_Noop\<close>: \<open>testcases/dtrace_usdt_sdt_noop\<close> in its three builds.

  \<^bold>\<open>Not modelled.\<close>  Every C program of the repository is modelled.  Outside them stay libpq,
  libunwind, the server, the kernel, the Arduino library and the rounding of floating-point numbers,
  which are parameters with their documented behaviour as hypotheses; generated probes are events.
  Text printed to a terminal is modelled where it carries a result.
  Floating-point figures that are only printed are left out.  The programs in other
  languages are outside this development.
\<close>

end
